(* ===== verification/Prelude.thy ===== *)
theory Prelude
  imports Main "HOL-Library.AList"
begin

text \<open>
  Shared vocabulary of the development: the JavaScript errors the page scripts
  can raise, the result type of a handler (an error or a value, together with the
  state reached, since a JavaScript exception keeps every mutation made before it),
  the sequencing combinator \<open>js_bind\<close>, the string form of JavaScript booleans,
  and the generic lemmas on association lists and lists that the component
  theories share.
\<close>

section \<open>Errors and handler results\<close>

text \<open>
  \<open>TypeError\<close> is the fault of dereferencing \<open>null\<close> (a \<open>querySelector\<close> that found
  nothing); its argument names what was dereferenced. \<open>NotFoundError\<close> is the
  \<open>DOMException\<close> of \<open>removeChild\<close> and \<open>insertBefore\<close> when the node named is
  not a child of the parent. \<open>InvalidModeError\<close> and
  \<open>MissingMountPointError\<close> are the error taxonomy of the colour-mode controller.
\<close>

datatype js_error =
    TypeError string
  | NotFoundError string
  | InvalidModeError string
  | MissingMountPointError string

type_synonym nid = nat

type_synonym ('s, 'a) js_result = "(js_error + 'a) \<times> 's"

text \<open>
  Running one handler step after another: an exception stops the rest of the
  handler but keeps the state the first step reached, as in JavaScript.
\<close>

definition js_bind ::
  "('s \<Rightarrow> ('s, 'a) js_result) \<Rightarrow> ('a \<Rightarrow> 's \<Rightarrow> ('s, 'b) js_result) \<Rightarrow> 's \<Rightarrow> ('s, 'b) js_result" where
  "js_bind m f s = (case m s of (Inl e, s') \<Rightarrow> (Inl e, s') | (Inr a, s') \<Rightarrow> f a s')"

definition js_ok :: "'s \<Rightarrow> ('s, unit) js_result" where
  "js_ok s = (Inr (), s)"

text \<open>\<open>xs.forEach(f)\<close>: the first exception of \<open>f\<close> ends the loop.\<close>

fun js_forEach :: "('a \<Rightarrow> 's \<Rightarrow> ('s, unit) js_result) \<Rightarrow> 'a list \<Rightarrow> 's \<Rightarrow> ('s, unit) js_result" where
  "js_forEach f [] s = (Inr (), s)"
| "js_forEach f (x # xs) s = js_bind (f x) (\<lambda>_. js_forEach f xs) s"

text \<open>\<open>xs.map(f)\<close> with a callback that may throw: the first exception ends the map.\<close>

fun js_map :: "('a \<Rightarrow> 's \<Rightarrow> ('s, 'b) js_result) \<Rightarrow> 'a list \<Rightarrow> 's \<Rightarrow> ('s, 'b list) js_result" where
  "js_map f [] s = (Inr [], s)"
| "js_map f (x # xs) s = js_bind (f x) (\<lambda>b. js_bind (js_map f xs) (\<lambda>bs s'. (Inr (b # bs), s'))) s"

text \<open>\<open>s.startsWith(pre)\<close>.\<close>

definition starts_with :: "string \<Rightarrow> string \<Rightarrow> bool" where
  "starts_with pre s = (take (length pre) s = pre)"

text \<open>\<open>String(b)\<close> for a JavaScript boolean, as \<open>setAttribute\<close> stores it.\<close>

definition js_bool_string :: "bool \<Rightarrow> string" where
  "js_bool_string b = (if b then ''true'' else ''false'')"

named_theorems js_simps "evaluation rules for handler results"

lemma js_bind_ok [simp, js_simps]:
  "m s = (Inr a, s') \<Longrightarrow> js_bind m f s = f a s'"
  by (simp add: js_bind_def)

lemma js_bind_err [simp, js_simps]:
  "m s = (Inl e, s') \<Longrightarrow> js_bind m f s = (Inl e, s')"
  by (simp add: js_bind_def)

lemma js_ok_simp [simp, js_simps]: "js_ok s = (Inr (), s)"
  by (simp add: js_ok_def)

lemma js_bool_string_eq_true [simp]: "(js_bool_string b = ''true'') = b"
  by (simp add: js_bool_string_def)

lemma js_bool_string_eq_false [simp]: "(js_bool_string b = ''false'') = (\<not> b)"
  by (simp add: js_bool_string_def)

text \<open>A property of the state kept by every step is kept by a handler built from them.\<close>

lemma js_bind_preserve:
  assumes m: "\<And>s. P s \<Longrightarrow> P (snd (m s))" and f: "\<And>a s. P s \<Longrightarrow> P (snd (f a s))" and s: "P s"
  shows "P (snd (js_bind m f s))"
proof (cases "m s")
  case (Pair r s')
  have "P s'" using m [OF s] Pair by simp
  then show ?thesis using Pair f by (cases r) (simp_all add: js_bind_def)
qed

lemma js_forEach_preserve:
  "(\<And>x s. P s \<Longrightarrow> P (snd (f x s))) \<Longrightarrow> P s \<Longrightarrow> P (snd (js_forEach f xs s))"
proof (induction xs arbitrary: s)
  case Nil
  then show ?case by simp
next
  case (Cons x xs)
  show ?case
    using js_bind_preserve [of P "f x" "\<lambda>_. js_forEach f xs" s] Cons by simp
qed

lemma js_map_preserve:
  assumes f: "\<And>x s. P s \<Longrightarrow> P (snd (f x s))"
  shows "P s \<Longrightarrow> P (snd (js_map f xs s))"
proof (induction xs arbitrary: s)
  case Nil
  then show ?case by simp
next
  case (Cons x xs)
  obtain r1 s1 where e1: "f x s = (r1, s1)" by (cases "f x s")
  obtain r2 s2 where e2: "js_map f xs s1 = (r2, s2)" by (cases "js_map f xs s1")
  have "P s1" using f [OF Cons.prems, of x] e1 by simp
  then have "P s2" using Cons.IH [of s1] e2 by simp
  then show ?case using \<open>P s1\<close> e1 e2 by (cases r1; cases r2) (simp_all add: js_bind_def)
qed

lemma js_bind_assoc:
  "js_bind (js_bind m f) g s = js_bind m (\<lambda>a. js_bind (f a) g) s"
  by (simp add: js_bind_def split: prod.splits sum.splits)

lemma js_forEach_append:
  "js_forEach f (xs @ ys) s = js_bind (js_forEach f xs) (\<lambda>_. js_forEach f ys) s"
proof (induction xs arbitrary: s)
  case Nil
  then show ?case by (simp add: js_bind_def)
next
  case (Cons x xs)
  show ?case
    by (simp add: js_bind_assoc Cons.IH [abs_def] js_bind_def split: prod.splits sum.splits)
qed

lemma js_map_append:
  "js_map f (xs @ ys) s =
     js_bind (js_map f xs) (\<lambda>a. js_bind (js_map f ys) (\<lambda>b s'. (Inr (a @ b), s'))) s"
proof (induction xs arbitrary: s)
  case Nil
  then show ?case by (simp add: js_bind_def split: prod.splits sum.splits)
next
  case (Cons x xs)
  show ?case
    by (simp add: js_bind_def Cons.IH split: prod.splits sum.splits)
qed

section \<open>Association lists (attribute lists)\<close>

lemma map_of_alist_update [simp]:
  "map_of (AList.update k v al) = (map_of al)(k \<mapsto> v)"
  by (rule AList.update_conv')

lemma alist_update_same [simp]:
  "AList.update k v (AList.update k w al) = AList.update k v al"
  by (induction al) auto

lemma alist_update_present:
  "map_of al k = Some v \<Longrightarrow> AList.update k v al = al"
  by (induction al) (auto split: if_splits)

section \<open>Lists\<close>

lemma removeAll_append_absent [simp]:
  "t \<notin> set ts \<Longrightarrow> removeAll t (ts @ [t]) = ts"
  by simp

lemma distinct_removeAll_keep [intro]:
  "distinct ts \<Longrightarrow> distinct (removeAll t ts)"
  by (simp add: distinct_removeAll)

section \<open>Which exceptions a handler can throw\<close>

text \<open>
  \<open>fst r = Inl e \<or> (\<exists>b. fst r = Inr b)\<close>: the handler either returns or throws
  \<open>e\<close>; the combinators keep this, and a callback that always throws \<open>e\<close> makes a
  map throw \<open>e\<close>.
\<close>

lemma js_bind_error_only:
  assumes "\<And>s. fst (m s) = Inl e \<or> (\<exists>b. fst (m s) = Inr b)"
    and "\<And>a s. fst (f a s) = Inl e \<or> (\<exists>b. fst (f a s) = Inr b)"
  shows "fst (js_bind m f s) = Inl e \<or> (\<exists>b. fst (js_bind m f s) = Inr b)"
  using assms(1) [of s] assms(2) by (auto simp: js_bind_def split: prod.splits sum.splits)

lemma js_map_error_only:
  assumes "\<And>x s. x \<in> set xs \<Longrightarrow> fst (f x s) = Inl e \<or> (\<exists>b. fst (f x s) = Inr b)"
  shows "fst (js_map f xs s) = Inl e \<or> (\<exists>b. fst (js_map f xs s) = Inr b)"
  using assms
proof (induction xs arbitrary: s)
  case Nil
  then show ?case by simp
next
  case (Cons x xs)
  show ?case
    unfolding js_map.simps
    by (intro js_bind_error_only) (simp_all add: Cons)
qed

lemma js_forEach_error_only:
  assumes "\<And>x s. x \<in> set xs \<Longrightarrow> fst (f x s) = Inl e \<or> (\<exists>b. fst (f x s) = Inr b)"
  shows "fst (js_forEach f xs s) = Inl e \<or> (\<exists>b. fst (js_forEach f xs s) = Inr b)"
  using assms
proof (induction xs arbitrary: s)
  case Nil
  then show ?case by simp
next
  case (Cons x xs)
  have h1: "\<And>s. fst (f x s) = Inl e \<or> (\<exists>b. fst (f x s) = Inr b)" using Cons.prems by simp
  have h2: "\<And>s. fst (js_forEach f xs s) = Inl e \<or> (\<exists>b. fst (js_forEach f xs s) = Inr b)"
    using Cons.IH Cons.prems by simp
  show ?case
    unfolding js_forEach.simps by (rule js_bind_error_only [OF h1 h2])
qed

text \<open>A callback that always throws \<open>e\<close> makes the map throw \<open>e\<close>, when the others throw nothing else.\<close>

lemma js_map_error:
  assumes only: "\<And>x s. x \<in> set xs \<Longrightarrow> fst (f x s) = Inl e \<or> (\<exists>b. fst (f x s) = Inr b)"
    and bad: "y \<in> set xs" "\<And>s. fst (f y s) = Inl e"
  shows "fst (js_map f xs s) = Inl e"
  using assms
proof (induction xs arbitrary: s)
  case Nil
  then show ?case by simp
next
  case (Cons x xs)
  obtain r s1 where fx: "f x s = (r, s1)" by (cases "f x s")
  show ?case
  proof (cases r)
    case (Inl e')
    then have "e' = e" using Cons.prems(1) [of x s] fx by auto
    then show ?thesis using Inl fx by (simp add: js_bind_def)
  next
    case (Inr b)
    then have "y \<in> set xs" using Cons.prems(2) Cons.prems(3) [of s] fx by auto
    then have "fst (js_map f xs s1) = Inl e" using Cons.IH Cons.prems(1,3) by simp
    then obtain s2 where "js_map f xs s1 = (Inl e, s2)" by (metis prod.collapse)
    then show ?thesis using Inr fx by (simp add: js_bind_def)
  qed
qed

lemma js_bind_fst_Inl: "fst (m s) = Inl e \<Longrightarrow> fst (js_bind m f s) = Inl e"
  by (cases "m s") (simp add: js_bind_def)

end
