(* ===== verification/ClassList.thy ===== *)
theory ClassList
  imports Prelude
begin

text \<open>
  The browser's \<open>element.classList\<close> (a DOMTokenList): an ordered set of class
  tokens. The page scripts call \<open>add\<close>, \<open>remove\<close> and \<open>toggle\<close> with and
  without its \<open>force\<close> argument. The model follows the DOM standard's algorithms:
  \<open>add\<close> appends a token that is absent, \<open>remove\<close> deletes it, \<open>toggle\<close>
  removes a present token unless \<open>force\<close> is true and appends an absent one unless
  \<open>force\<close> is false, returning whether the token is present afterwards. Every
  token the scripts pass is a literal class name, so the standard's token
  validation (empty or whitespace tokens raise) never fires and is not modelled.
\<close>

type_synonym tokens = "string list"

definition cl_add :: "string \<Rightarrow> tokens \<Rightarrow> tokens" where
  "cl_add t ts = (if t \<in> set ts then ts else ts @ [t])"

definition cl_remove :: "string \<Rightarrow> tokens \<Rightarrow> tokens" where
  "cl_remove t ts = removeAll t ts"

definition cl_toggle :: "string \<Rightarrow> bool option \<Rightarrow> tokens \<Rightarrow> bool \<times> tokens" where
  "cl_toggle t force ts =
     (if t \<in> set ts then
        (if force = Some True then (True, ts) else (False, removeAll t ts))
      else
        (if force = Some False then (False, ts) else (True, ts @ [t])))"

text \<open>Characteristic facts: membership after each operation.\<close>

named_theorems cl_set "the token set after a classList operation"

lemma set_cl_add [simp, cl_set]: "set (cl_add t ts) = insert t (set ts)"
  by (auto simp: cl_add_def)

lemma set_cl_remove [simp, cl_set]: "set (cl_remove t ts) = set ts - {t}"
  by (simp add: cl_remove_def)

lemma set_cl_toggle [cl_set]:
  "set (snd (cl_toggle t force ts)) =
     (case force of
        None \<Rightarrow> (if t \<in> set ts then set ts - {t} else insert t (set ts))
      | Some True \<Rightarrow> insert t (set ts)
      | Some False \<Rightarrow> set ts - {t})"
  by (auto simp: cl_toggle_def split: option.splits bool.splits)

lemma cl_toggle_result: "fst (cl_toggle t force ts) = (t \<in> set (snd (cl_toggle t force ts)))"
  by (auto simp: cl_toggle_def)

text \<open>The ordered-set invariant: no token occurs twice.\<close>

lemma distinct_cl_add [simp]: "distinct ts \<Longrightarrow> distinct (cl_add t ts)"
  by (simp add: cl_add_def)

lemma distinct_cl_remove [simp]: "distinct ts \<Longrightarrow> distinct (cl_remove t ts)"
  by (simp add: cl_remove_def distinct_removeAll)

lemma distinct_cl_toggle [simp]: "distinct ts \<Longrightarrow> distinct (snd (cl_toggle t force ts))"
  by (simp add: cl_toggle_def distinct_removeAll)

text \<open>\<open>toggle\<close> with \<open>force\<close> is \<open>add\<close> or \<open>remove\<close> on the token list.\<close>

lemma cl_toggle_force_True: "snd (cl_toggle t (Some True) ts) = cl_add t ts"
  by (simp add: cl_toggle_def cl_add_def)

lemma cl_toggle_force_False: "distinct ts \<Longrightarrow> snd (cl_toggle t (Some False) ts) = cl_remove t ts"
  by (simp add: cl_toggle_def cl_remove_def)

text \<open>
  Plain \<open>toggle\<close> twice restores the token set. It restores the list itself when the
  token was absent; a present token comes back at the end of the list.
\<close>

lemma set_cl_toggle_twice:
  "set (snd (cl_toggle t None (snd (cl_toggle t None ts)))) = set ts"
  by (auto simp: cl_toggle_def)

lemma cl_toggle_twice_absent:
  "t \<notin> set ts \<Longrightarrow> snd (cl_toggle t None (snd (cl_toggle t None ts))) = ts"
  by (simp add: cl_toggle_def)

text \<open>Toggles of two different tokens commute on the token set.\<close>

lemma set_cl_toggle_commute:
  "a \<noteq> b \<Longrightarrow> set (snd (cl_toggle a fa (snd (cl_toggle b fb ts)))) =
   set (snd (cl_toggle b fb (snd (cl_toggle a fa ts))))"
  by (auto simp: cl_toggle_def split: if_splits)

text \<open>A toggle of one token leaves the membership of every other token alone.\<close>

lemma cl_toggle_other:
  "u \<noteq> t \<Longrightarrow> (u \<in> set (snd (cl_toggle t force ts))) = (u \<in> set ts)"
  by (auto simp: cl_toggle_def)

end
