(* ===== verification/Dom.thy ===== *)
theory Dom
  imports ClassList
begin

text \<open>
  The part of the browser DOM the page scripts use, as an explicit store: node
  identifiers (\<open>nid\<close>) map to node records, and every JavaScript reference to an
  element is an identifier into the store, so two variables that hold the same
  element alias as they do in the browser. The model is generic in the type
  \<open>'l\<close> of the event listeners a node holds: the page scripts instantiate it with a
  datatype naming their closures. Operations: \<open>createElement\<close>, attribute and
  \<open>classList\<close> access, \<open>textContent\<close>/\<open>innerHTML\<close> writes, \<open>remove\<close>,
  \<open>appendChild\<close> (which first detaches a node from its old parent, as the
  standard's insertion does), \<open>prepend\<close>, event-listener registration, and the
  selector queries \<open>querySelector\<close>/\<open>querySelectorAll\<close> in document order.
  Nodes are never deallocated. The traversals take a fuel bound, the number of
  allocated identifiers, which bounds the depth of any acyclic tree of the store.
\<close>

section \<open>Nodes and the store\<close>

text \<open>
  An \<open>onclick\<close> assignment and an \<open>addEventListener\<close> call both register a
  listener; the \<open>onclick\<close> slot is replaced in place when assigned again.
\<close>

datatype 'l handler_slot = OnClick 'l | Listener 'l

record 'l node =
  n_tag :: string
  n_classes :: tokens
  n_attrs :: "(string \<times> string) list"
  n_text :: string
  n_kids :: "nid list"
  n_parent :: "nid option"
  n_handlers :: "'l handler_slot list"

record 'l dom =
  d_nodes :: "nid \<rightharpoonup> 'l node"
  d_next :: nid
  d_root :: nid
  d_head :: nid
  d_body :: nid

definition blank_node :: "string \<Rightarrow> 'l node" where
  "blank_node t = \<lparr>n_tag = t, n_classes = [], n_attrs = [], n_text = [], n_kids = [],
                   n_parent = None, n_handlers = []\<rparr>"

definition map_node :: "nid \<Rightarrow> ('l node \<Rightarrow> 'l node) \<Rightarrow> ('l, 'z) dom_scheme \<Rightarrow> ('l, 'z) dom_scheme" where
  "map_node n f d =
     (case d_nodes d n of None \<Rightarrow> d | Some x \<Rightarrow> d\<lparr>d_nodes := (d_nodes d)(n \<mapsto> f x)\<rparr>)"

text \<open>\<open>document.createElement(t)\<close>: a fresh, detached element.\<close>

definition create_element :: "string \<Rightarrow> ('l, 'z) dom_scheme \<Rightarrow> nid \<times> ('l, 'z) dom_scheme" where
  "create_element t d =
     (d_next d, d\<lparr>d_nodes := (d_nodes d)(d_next d \<mapsto> blank_node t), d_next := Suc (d_next d)\<rparr>)"

section \<open>Attributes, classes, text, listeners\<close>

definition get_attribute :: "('l, 'z) dom_scheme \<Rightarrow> nid \<Rightarrow> string \<Rightarrow> string option" where
  "get_attribute d n k = (case d_nodes d n of None \<Rightarrow> None | Some x \<Rightarrow> map_of (n_attrs x) k)"

definition set_attribute :: "nid \<Rightarrow> string \<Rightarrow> string \<Rightarrow> ('l, 'z) dom_scheme \<Rightarrow> ('l, 'z) dom_scheme" where
  "set_attribute n k v = map_node n (\<lambda>x. x\<lparr>n_attrs := AList.update k v (n_attrs x)\<rparr>)"

definition class_add :: "nid \<Rightarrow> string \<Rightarrow> ('l, 'z) dom_scheme \<Rightarrow> ('l, 'z) dom_scheme" where
  "class_add n c = map_node n (\<lambda>x. x\<lparr>n_classes := cl_add c (n_classes x)\<rparr>)"

definition class_remove :: "nid \<Rightarrow> string \<Rightarrow> ('l, 'z) dom_scheme \<Rightarrow> ('l, 'z) dom_scheme" where
  "class_remove n c = map_node n (\<lambda>x. x\<lparr>n_classes := cl_remove c (n_classes x)\<rparr>)"

definition class_toggle ::
  "nid \<Rightarrow> string \<Rightarrow> bool option \<Rightarrow> ('l, 'z) dom_scheme \<Rightarrow> ('l, 'z) dom_scheme" where
  "class_toggle n c force = map_node n (\<lambda>x. x\<lparr>n_classes := snd (cl_toggle c force (n_classes x))\<rparr>)"

definition has_class :: "('l, 'z) dom_scheme \<Rightarrow> nid \<Rightarrow> string \<Rightarrow> bool" where
  "has_class d n c = (case d_nodes d n of None \<Rightarrow> False | Some x \<Rightarrow> c \<in> set (n_classes x))"

definition set_onclick :: "nid \<Rightarrow> 'l \<Rightarrow> ('l, 'z) dom_scheme \<Rightarrow> ('l, 'z) dom_scheme" where
  "set_onclick n l = map_node n (\<lambda>x. x\<lparr>n_handlers :=
     (if list_ex (\<lambda>h. case h of OnClick _ \<Rightarrow> True | Listener _ \<Rightarrow> False) (n_handlers x)
      then map (\<lambda>h. case h of OnClick _ \<Rightarrow> OnClick l | Listener m \<Rightarrow> Listener m) (n_handlers x)
      else n_handlers x @ [OnClick l])\<rparr>)"

definition add_listener :: "nid \<Rightarrow> 'l \<Rightarrow> ('l, 'z) dom_scheme \<Rightarrow> ('l, 'z) dom_scheme" where
  "add_listener n l = map_node n (\<lambda>x. x\<lparr>n_handlers := n_handlers x @ [Listener l]\<rparr>)"

section \<open>Tree edits\<close>

text \<open>\<open>node.remove()\<close>: detach from the parent, if any.\<close>

definition detach :: "nid \<Rightarrow> ('l, 'z) dom_scheme \<Rightarrow> ('l, 'z) dom_scheme" where
  "detach c d =
     (case d_nodes d c of None \<Rightarrow> d
      | Some x \<Rightarrow> (case n_parent x of None \<Rightarrow> d
         | Some p \<Rightarrow> map_node c (\<lambda>y. y\<lparr>n_parent := None\<rparr>)
                      (map_node p (\<lambda>y. y\<lparr>n_kids := removeAll c (n_kids y)\<rparr>) d)))"

text \<open>
  Setting \<open>textContent\<close>, \<open>innerText\<close> or \<open>innerHTML\<close> replaces the children by
  the new content; the old children are detached. Markup written through
  \<open>innerHTML\<close> is kept as the node's content string, not parsed into nodes.
\<close>

definition set_text :: "nid \<Rightarrow> string \<Rightarrow> ('l, 'z) dom_scheme \<Rightarrow> ('l, 'z) dom_scheme" where
  "set_text n s d =
     (case d_nodes d n of None \<Rightarrow> d
      | Some x \<Rightarrow> map_node n (\<lambda>y. y\<lparr>n_text := s\<rparr>) (fold detach (n_kids x) d))"

definition append_child :: "nid \<Rightarrow> nid \<Rightarrow> ('l, 'z) dom_scheme \<Rightarrow> ('l, 'z) dom_scheme" where
  "append_child p c d =
     (if d_nodes d p = None \<or> d_nodes d c = None then d
      else map_node c (\<lambda>y. y\<lparr>n_parent := Some p\<rparr>)
             (map_node p (\<lambda>y. y\<lparr>n_kids := n_kids y @ [c]\<rparr>) (detach c d)))"

definition prepend_child :: "nid \<Rightarrow> nid \<Rightarrow> ('l, 'z) dom_scheme \<Rightarrow> ('l, 'z) dom_scheme" where
  "prepend_child p c d =
     (if d_nodes d p = None \<or> d_nodes d c = None then d
      else map_node c (\<lambda>y. y\<lparr>n_parent := Some p\<rparr>)
             (map_node p (\<lambda>y. y\<lparr>n_kids := c # n_kids y\<rparr>) (detach c d)))"

section \<open>Document order and selectors\<close>

text \<open>
  Preorder traversal of the subtree at \<open>n\<close> (document order), with fuel: each
  level spends one unit, so any fuel above the depth of the tree gives the whole
  subtree. \<open>doc_order\<close> starts at the document element with fuel
  \<open>Suc (d_next d)\<close>, more than the depth of any acyclic tree of allocated nodes.
\<close>

fun walk :: "nat \<Rightarrow> ('l, 'z) dom_scheme \<Rightarrow> nid \<Rightarrow> nid list" where
  "walk 0 d n = []"
| "walk (Suc f) d n =
     (case d_nodes d n of None \<Rightarrow> [] | Some x \<Rightarrow> n # concat (map (walk f d) (n_kids x)))"

fun ancestors :: "nat \<Rightarrow> ('l, 'z) dom_scheme \<Rightarrow> nid \<Rightarrow> nid list" where
  "ancestors 0 d n = []"
| "ancestors (Suc f) d n =
     (case d_nodes d n of None \<Rightarrow> []
      | Some x \<Rightarrow> (case n_parent x of None \<Rightarrow> [] | Some p \<Rightarrow> p # ancestors f d p))"

definition doc_order :: "('l, 'z) dom_scheme \<Rightarrow> nid list" where
  "doc_order d = walk (Suc (d_next d)) d (d_root d)"

text \<open>
  The selectors the scripts use: compound selectors (an optional tag, classes and
  attribute tests, \<open>[k]\<close> or \<open>[k=v]\<close>) joined by the descendant combinator
  (a space) and the child combinator (\<open>>\<close>).
\<close>

datatype compound = Compound (c_tag: "string option") (c_classes: "string list")
  (c_attrs: "(string \<times> string option) list")

datatype selector = Sel compound | Desc selector compound | Child selector compound

definition node_matches :: "'l node \<Rightarrow> compound \<Rightarrow> bool" where
  "node_matches x c =
     ((case c_tag c of None \<Rightarrow> True | Some t \<Rightarrow> n_tag x = t)
      \<and> list_all (\<lambda>k. k \<in> set (n_classes x)) (c_classes c)
      \<and> list_all (\<lambda>(k, v). case v of None \<Rightarrow> map_of (n_attrs x) k \<noteq> None
                                  | Some w \<Rightarrow> map_of (n_attrs x) k = Some w) (c_attrs c))"

definition matches_at :: "('l, 'z) dom_scheme \<Rightarrow> compound \<Rightarrow> nid \<Rightarrow> bool" where
  "matches_at d c n = (case d_nodes d n of None \<Rightarrow> False | Some x \<Rightarrow> node_matches x c)"

primrec sel_matches :: "('l, 'z) dom_scheme \<Rightarrow> selector \<Rightarrow> nid \<Rightarrow> bool" where
  "sel_matches d (Sel c) n = matches_at d c n"
| "sel_matches d (Desc s c) n =
     (matches_at d c n \<and> list_ex (sel_matches d s) (ancestors (d_next d) d n))"
| "sel_matches d (Child s c) n =
     (matches_at d c n \<and> (case ancestors (d_next d) d n of [] \<Rightarrow> False | p # _ \<Rightarrow> sel_matches d s p))"

text \<open>\<open>document.querySelectorAll\<close> and \<open>document.querySelector\<close>.\<close>

definition query_all :: "('l, 'z) dom_scheme \<Rightarrow> selector \<Rightarrow> nid list" where
  "query_all d s = filter (sel_matches d s) (doc_order d)"

definition query :: "('l, 'z) dom_scheme \<Rightarrow> selector \<Rightarrow> nid option" where
  "query d s = (case query_all d s of [] \<Rightarrow> None | n # _ \<Rightarrow> Some n)"

text \<open>\<open>element.querySelector\<close>: the first matching proper descendant.\<close>

definition query_in :: "('l, 'z) dom_scheme \<Rightarrow> nid \<Rightarrow> selector \<Rightarrow> nid option" where
  "query_in d e s =
     (case filter (sel_matches d s) (tl (walk (Suc (d_next d)) d e)) of [] \<Rightarrow> None | n # _ \<Rightarrow> Some n)"

text \<open>Selector shorthands: \<open>.c\<close>, \<open>t\<close>, \<open>t.c\<close>, \<open>[k=v]\<close>.\<close>

definition by_class :: "string \<Rightarrow> selector" where
  "by_class c = Sel (Compound None [c] [])"

definition by_tag :: "string \<Rightarrow> selector" where
  "by_tag t = Sel (Compound (Some t) [] [])"

definition by_attr :: "string \<Rightarrow> string \<Rightarrow> selector" where
  "by_attr k v = Sel (Compound None [] [(k, Some v)])"

text \<open>The classes a selector tests; class edits outside them cannot change a match.\<close>

fun sel_classes :: "selector \<Rightarrow> string list" where
  "sel_classes (Sel c) = c_classes c"
| "sel_classes (Desc s c) = sel_classes s @ c_classes c"
| "sel_classes (Child s c) = sel_classes s @ c_classes c"

text \<open>A sequence of plain \<open>classList.toggle\<close> calls, one per (node, class) pair.\<close>

definition toggle_all :: "(nid \<times> string) list \<Rightarrow> ('l, 'z) dom_scheme \<Rightarrow> ('l, 'z) dom_scheme" where
  "toggle_all ts d = fold (\<lambda>(n, c). class_toggle n c None) ts d"

section \<open>Store lemmas\<close>

named_theorems dom_frame "operations that keep the tree shape of the store"

lemma d_nodes_map_node:
  "d_nodes (map_node n f d) m =
     (if m = n then map_option f (d_nodes d n) else d_nodes d m)"
  by (auto simp: map_node_def split: option.splits)

lemma d_next_map_node [simp]: "d_next (map_node n f d) = d_next d"
  and d_root_map_node [simp]: "d_root (map_node n f d) = d_root d"
  by (simp_all add: map_node_def split: option.splits)

lemma map_node_absent [simp]: "d_nodes d n = None \<Longrightarrow> map_node n f d = d"
  by (simp add: map_node_def)

text \<open>
  An edit that leaves every node's children alone leaves every traversal alone;
  and an edit that leaves parents alone leaves ancestors alone.
\<close>

lemma walk_cong:
  assumes "\<And>m. map_option n_kids (d_nodes d' m) = map_option n_kids (d_nodes d m)"
  shows "walk f d' n = walk f d n"
proof (induction f arbitrary: n)
  case 0
  then show ?case by simp
next
  case (Suc f)
  have k: "map_option n_kids (d_nodes d' n) = map_option n_kids (d_nodes d n)"
    by (rule assms)
  have "walk f d' = walk f d"
    by (simp add: fun_eq_iff Suc.IH)
  then show ?case
    using k by (cases "d_nodes d n"; cases "d_nodes d' n") simp_all
qed

lemma ancestors_cong:
  assumes "\<And>m. map_option n_parent (d_nodes d' m) = map_option n_parent (d_nodes d m)"
  shows "ancestors f d' n = ancestors f d n"
proof (induction f arbitrary: n)
  case 0
  then show ?case by simp
next
  case (Suc f)
  have k: "map_option n_parent (d_nodes d' n) = map_option n_parent (d_nodes d n)"
    by (rule assms)
  show ?case
    using k by (cases "d_nodes d n"; cases "d_nodes d' n") (simp_all add: Suc.IH split: option.splits)
qed

lemma map_node_kids_cong:
  "(\<And>x. n_kids (f x) = n_kids x) \<Longrightarrow>
   map_option n_kids (d_nodes (map_node n f d) m) = map_option n_kids (d_nodes d m)"
  by (cases "d_nodes d n") (auto simp: d_nodes_map_node option.map_comp o_def)

lemma map_node_parent_cong:
  "(\<And>x. n_parent (f x) = n_parent x) \<Longrightarrow>
   map_option n_parent (d_nodes (map_node n f d) m) = map_option n_parent (d_nodes d m)"
  by (cases "d_nodes d n") (auto simp: d_nodes_map_node option.map_comp o_def)

lemma walk_map_node [dom_frame]:
  "(\<And>x. n_kids (f x) = n_kids x) \<Longrightarrow> walk k (map_node n f d) m = walk k d m"
  by (rule walk_cong) (rule map_node_kids_cong)

lemma ancestors_map_node [dom_frame]:
  "(\<And>x. n_parent (f x) = n_parent x) \<Longrightarrow> ancestors k (map_node n f d) m = ancestors k d m"
  by (rule ancestors_cong) (rule map_node_parent_cong)

lemma doc_order_map_node [dom_frame]:
  "(\<And>x. n_kids (f x) = n_kids x) \<Longrightarrow> doc_order (map_node n f d) = doc_order d"
  unfolding doc_order_def d_next_map_node d_root_map_node by (rule walk_map_node)

text \<open>
  DOM operations touch the store only: whatever a record extending \<open>dom\<close> keeps
  besides (the script globals of a page) is left alone.
\<close>

named_theorems more_frame "DOM operations keep the extension of the store"

lemma more_map_node [simp, more_frame]: "dom.more (map_node n f d) = dom.more d"
  by (simp add: map_node_def split: option.splits)

lemma more_detach [simp, more_frame]: "dom.more (detach c d) = dom.more d"
  by (simp add: detach_def split: option.splits)

lemma more_fold_detach [simp, more_frame]: "dom.more (fold detach cs d) = dom.more d"
  by (induction cs arbitrary: d) simp_all

lemma more_create_element [simp, more_frame]: "dom.more (snd (create_element t d)) = dom.more d"
  by (simp add: create_element_def)

lemma more_set_text [simp, more_frame]: "dom.more (set_text n s d) = dom.more d"
  by (simp add: set_text_def split: option.splits)

lemma more_append_child [simp, more_frame]: "dom.more (append_child p c d) = dom.more d"
  and more_prepend_child [simp, more_frame]: "dom.more (prepend_child p c d) = dom.more d"
  by (simp_all add: append_child_def prepend_child_def)

lemma more_attr_class_ops [simp, more_frame]:
  "dom.more (set_attribute n k v d) = dom.more d"
  "dom.more (class_add n c d) = dom.more d"
  "dom.more (class_remove n c d) = dom.more d"
  "dom.more (class_toggle n c force d) = dom.more d"
  "dom.more (set_onclick n l d) = dom.more d"
  "dom.more (add_listener n l d) = dom.more d"
  by (simp_all add: set_attribute_def class_add_def class_remove_def class_toggle_def
      set_onclick_def add_listener_def)

text \<open>The rules that evaluate DOM operations on a concrete store.\<close>

lemmas dom_eval = create_element_def class_add_def class_remove_def class_toggle_def
  set_attribute_def get_attribute_def append_child_def prepend_child_def detach_def
  map_node_def blank_node_def set_onclick_def add_listener_def set_text_def has_class_def
  query_def query_all_def query_in_def doc_order_def by_class_def by_tag_def by_attr_def
  matches_at_def node_matches_def cl_add_def cl_remove_def cl_toggle_def eval_nat_numeral

section \<open>Attribute lemmas\<close>

lemma map_node_map_node [simp]: "map_node n f (map_node n g d) = map_node n (f \<circ> g) d"
  by (simp add: map_node_def split: option.splits)

lemma map_node_id: "d_nodes d n = Some x \<Longrightarrow> f x = x \<Longrightarrow> map_node n f d = d"
  by (simp add: map_node_def fun_upd_idem)

lemma get_set_attribute:
  "get_attribute (set_attribute n k v d) m j =
     (if m = n \<and> j = k \<and> d_nodes d n \<noteq> None then Some v else get_attribute d m j)"
  by (auto simp: get_attribute_def set_attribute_def d_nodes_map_node split: option.splits)

lemma set_attribute_twice [simp]:
  "set_attribute n k v (set_attribute n k w d) = set_attribute n k v d"
  by (simp add: set_attribute_def o_def)

lemma set_attribute_present:
  "get_attribute d n k = Some v \<Longrightarrow> set_attribute n k v d = d"
  by (auto simp: get_attribute_def set_attribute_def alist_update_present
      intro: map_node_id split: option.splits)

lemma get_attribute_present: "get_attribute d n k = Some v \<Longrightarrow> d_nodes d n \<noteq> None"
  by (simp add: get_attribute_def split: option.splits)

section \<open>Class edits and selectors\<close>

lemma d_nodes_class_toggle_exists [simp]:
  "(d_nodes (class_toggle n c f d) m = None) = (d_nodes d m = None)"
  by (simp add: class_toggle_def d_nodes_map_node)

lemma ancestors_class_toggle [simp]: "ancestors k (class_toggle n c f d) m = ancestors k d m"
  by (simp add: class_toggle_def ancestors_map_node)

lemma doc_order_class_toggle [simp]: "doc_order (class_toggle n c f d) = doc_order d"
  by (simp add: class_toggle_def doc_order_map_node)

lemma d_next_class_toggle [simp]: "d_next (class_toggle n c f d) = d_next d"
  by (simp add: class_toggle_def)

lemma matches_at_class_toggle:
  "c \<notin> set (c_classes cmp) \<Longrightarrow> matches_at (class_toggle n c f d) cmp m = matches_at d cmp m"
  by (cases "d_nodes d m")
     (auto simp: class_toggle_def matches_at_def d_nodes_map_node node_matches_def list_all_iff
        set_cl_toggle split: option.splits bool.splits)

lemma sel_matches_class_toggle:
  "c \<notin> set (sel_classes s) \<Longrightarrow> sel_matches (class_toggle n c f d) s = sel_matches d s"
proof (induction s)
  case (Sel cmp)
  then show ?case by (intro ext) (simp add: matches_at_class_toggle)
next
  case (Desc s cmp)
  then show ?case by (intro ext) (simp add: matches_at_class_toggle)
next
  case (Child s cmp)
  then show ?case by (intro ext) (simp add: matches_at_class_toggle split: list.splits)
qed

lemma query_all_class_toggle:
  "c \<notin> set (sel_classes s) \<Longrightarrow> query_all (class_toggle n c f d) s = query_all d s"
  by (simp add: query_all_def sel_matches_class_toggle)

lemma query_class_toggle:
  "c \<notin> set (sel_classes s) \<Longrightarrow> query (class_toggle n c f d) s = query d s"
  by (simp add: query_def query_all_class_toggle)

lemma query_all_fold_class_toggle:
  "c \<notin> set (sel_classes s) \<Longrightarrow> query_all (fold (\<lambda>e. class_toggle e c f) xs d) s = query_all d s"
  by (induction xs arbitrary: d) (simp_all add: query_all_class_toggle)

lemma query_fold_class_toggle:
  "c \<notin> set (sel_classes s) \<Longrightarrow> query (fold (\<lambda>e. class_toggle e c f) xs d) s = query d s"
  by (simp add: query_def query_all_fold_class_toggle)

section \<open>Parity of plain toggles\<close>

lemma has_class_class_toggle_None:
  "has_class (class_toggle n c None d) m k =
     (if m = n \<and> k = c then d_nodes d n \<noteq> None \<and> \<not> has_class d m k else has_class d m k)"
  by (auto simp: has_class_def class_toggle_def d_nodes_map_node cl_toggle_def split: option.splits)

lemma toggle_all_Nil [simp]: "toggle_all [] d = d"
  and toggle_all_Cons [simp]: "toggle_all ((n, c) # ts) d = toggle_all ts (class_toggle n c None d)"
  and toggle_all_append: "toggle_all (ts @ us) d = toggle_all us (toggle_all ts d)"
  by (simp_all add: toggle_all_def)

lemma d_nodes_toggle_all_exists [simp]:
  "(d_nodes (toggle_all ts d) m = None) = (d_nodes d m = None)"
proof (induction ts arbitrary: d)
  case Nil
  then show ?case by simp
next
  case (Cons t ts)
  then show ?case by (cases t) simp
qed

text \<open>A token is present after plain toggles iff it was, flipped once per toggle of it.\<close>

lemma has_class_toggle_all:
  "has_class (toggle_all ts d) m k =
     (has_class d m k \<noteq> (d_nodes d m \<noteq> None \<and> odd (count_list ts (m, k))))"
proof (induction ts arbitrary: d)
  case Nil
  then show ?case by simp
next
  case (Cons t ts)
  obtain n c where t: "t = (n, c)" by (cases t)
  have abs: "d_nodes d m = None \<Longrightarrow> \<not> has_class d m k"
    by (simp add: has_class_def)
  show ?case
    using abs by (auto simp: t Cons.IH has_class_class_toggle_None)
qed

lemma toggle_all_twice_has_class:
  "has_class (toggle_all ts (toggle_all ts d)) m k = has_class d m k"
  by (simp add: toggle_all_append [symmetric] has_class_toggle_all count_list_append)

section \<open>Forced toggles\<close>

lemma has_class_class_toggle_Some:
  "has_class (class_toggle n c (Some b) d) m k =
     (if m = n \<and> k = c \<and> d_nodes d n \<noteq> None then b else has_class d m k)"
  by (auto simp: has_class_def class_toggle_def d_nodes_map_node cl_toggle_def split: option.splits)

lemma has_class_fold_toggle_other:
  "e \<notin> set xs \<or> k \<noteq> c \<Longrightarrow>
   has_class (fold (\<lambda>x. class_toggle x c (Some b)) xs d) e k = has_class d e k"
proof (induction xs arbitrary: d)
  case Nil
  then show ?case by simp
next
  case (Cons x xs)
  then have "e \<notin> set xs \<or> k \<noteq> c" and "\<not> (e = x \<and> k = c)" by auto
  then show ?case by (simp add: Cons.IH has_class_class_toggle_Some) blast
qed

lemma d_nodes_fold_class_toggle_exists [simp]:
  "(d_nodes (fold (\<lambda>x. class_toggle x c f) xs d) m = None) = (d_nodes d m = None)"
  by (induction xs arbitrary: d) simp_all

lemma has_class_fold_toggle_member:
  "e \<in> set xs \<Longrightarrow> d_nodes d e \<noteq> None \<Longrightarrow>
   has_class (fold (\<lambda>x. class_toggle x c (Some b)) xs d) e c = b"
proof (induction xs arbitrary: d)
  case Nil
  then show ?case by simp
next
  case (Cons x xs)
  show ?case
  proof (cases "e \<in> set xs")
    case True
    have "d_nodes (class_toggle x c (Some b) d) e \<noteq> None"
      using Cons.prems(2) by simp
    with True show ?thesis by (simp add: Cons.IH)
  next
    case False
    with Cons.prems have "e = x" by simp
    with False Cons.prems show ?thesis
      by (simp add: has_class_fold_toggle_other has_class_class_toggle_Some)
  qed
qed

lemma sel_matches_exists: "sel_matches d s m \<Longrightarrow> d_nodes d m \<noteq> None"
  by (cases s) (auto simp: matches_at_def split: option.splits)

lemma query_all_exists: "e \<in> set (query_all d s) \<Longrightarrow> d_nodes d e \<noteq> None"
  by (auto simp: query_all_def dest: sel_matches_exists)

lemma query_exists: "query d s = Some e \<Longrightarrow> d_nodes d e \<noteq> None"
proof -
  assume "query d s = Some e"
  then obtain xs where "query_all d s = e # xs"
    by (auto simp: query_def split: list.splits)
  then have "e \<in> set (query_all d s)" by simp
  then show ?thesis by (rule query_all_exists)
qed

section \<open>Frames of attributes and allocation\<close>

named_theorems attr_frame "operations that keep every attribute"

lemma get_attribute_map_node:
  "(\<And>x. n_attrs (f x) = n_attrs x) \<Longrightarrow> get_attribute (map_node n f d) m k = get_attribute d m k"
  by (cases "d_nodes d n") (auto simp: get_attribute_def d_nodes_map_node split: option.splits)

lemma get_attribute_detach [simp, attr_frame]: "get_attribute (detach c d) m k = get_attribute d m k"
  by (simp add: detach_def get_attribute_map_node split: option.splits)

lemma get_attribute_fold_detach [simp, attr_frame]:
  "get_attribute (fold detach cs d) m k = get_attribute d m k"
  by (induction cs arbitrary: d) simp_all

lemma get_attribute_tree_ops [simp, attr_frame]:
  "get_attribute (set_text n s d) m k = get_attribute d m k"
  "get_attribute (append_child p c d) m k = get_attribute d m k"
  "get_attribute (prepend_child p c d) m k = get_attribute d m k"
  "get_attribute (class_add n cl d) m k = get_attribute d m k"
  "get_attribute (class_remove n cl d) m k = get_attribute d m k"
  "get_attribute (class_toggle n cl f d) m k = get_attribute d m k"
  "get_attribute (set_onclick n l d) m k = get_attribute d m k"
  "get_attribute (add_listener n l d) m k = get_attribute d m k"
  by (simp_all add: set_text_def append_child_def prepend_child_def class_add_def class_remove_def
      class_toggle_def set_onclick_def add_listener_def get_attribute_map_node split: option.splits)

lemma get_attribute_create_element [attr_frame]:
  "get_attribute (snd (create_element t d)) m k = (if m = d_next d then None else get_attribute d m k)"
  by (simp add: create_element_def get_attribute_def blank_node_def)

named_theorems next_frame "the allocation counter after an operation"

lemma d_next_detach [simp, next_frame]: "d_next (detach c d) = d_next d"
  by (simp add: detach_def split: option.splits)

lemma d_next_fold_detach [simp, next_frame]: "d_next (fold detach cs d) = d_next d"
  by (induction cs arbitrary: d) simp_all

lemma d_next_ops [simp, next_frame]:
  "d_next (set_text n s d) = d_next d"
  "d_next (append_child p c d) = d_next d"
  "d_next (prepend_child p c d) = d_next d"
  "d_next (set_attribute n k v d) = d_next d"
  "d_next (class_add n cl d) = d_next d"
  "d_next (class_remove n cl d) = d_next d"
  "d_next (set_onclick n l d) = d_next d"
  "d_next (add_listener n l d) = d_next d"
  "d_next (snd (create_element t d)) = Suc (d_next d)"
  "fst (create_element t d) = d_next d"
  by (simp_all add: set_text_def append_child_def prepend_child_def set_attribute_def
       class_add_def class_remove_def set_onclick_def add_listener_def create_element_def
      split: option.splits)

end
