(* ===== verification/Page.thy ===== *)
theory Page
  imports Dom
begin

text \<open>
  The state of a documentation page running \<open>loaders.js\<close>: the DOM store, the
  script globals \<open>mode\<close> (the active colour mode) and \<open>loadedSvgs\<close> (the icon
  cache), and the fetches in flight with the continuation each \<open>.then\<close> chain
  runs when its response arrives. The closures the script installs as event
  listeners are named by the constructors of \<open>listener\<close>, the continuations of
  its fetches by those of \<open>task\<close>. A minimal model of JavaScript values covers the
  property reads \<open>preloadColorModeIcons\<close> performs.
\<close>

section \<open>JavaScript values and property reads\<close>

datatype jsval = JUndefined | JStr string | JNum nat | JObj "(string \<times> jsval) list"

text \<open>
  \<open>v[k]\<close>: an object's own property or \<open>undefined\<close>; a string primitive has
  \<open>length\<close> (its index properties are not read by the scripts and not modelled)
  and no property \<open>value\<close>. Reading a property of \<open>undefined\<close> throws a
  \<open>TypeError\<close>, so the read returns a sum.
\<close>

fun get_prop :: "jsval \<Rightarrow> string \<Rightarrow> js_error + jsval" where
  "get_prop JUndefined k = Inl (TypeError k)"
| "get_prop (JStr s) k = Inr (if k = ''length'' then JNum (length s) else JUndefined)"
| "get_prop (JNum n) k = Inr JUndefined"
| "get_prop (JObj fs) k = Inr (case map_of fs k of None \<Rightarrow> JUndefined | Some v \<Rightarrow> v)"

fun dec_string :: "nat \<Rightarrow> string" where
  "dec_string n =
     (if n < 10 then [char_of (48 + n)] else dec_string (n div 10) @ [char_of (48 + n mod 10)])"

text \<open>\<open>String(v)\<close>, which is also the property key \<open>obj[v]\<close> uses.\<close>

fun js_to_string :: "jsval \<Rightarrow> string" where
  "js_to_string JUndefined = ''undefined''"
| "js_to_string (JStr s) = s"
| "js_to_string (JNum n) = dec_string n"
| "js_to_string (JObj fs) = ''[object Object]''"

text \<open>\<open>xs[i]\<close> on an array: \<open>undefined\<close> out of range.\<close>

definition js_index :: "jsval list \<Rightarrow> nat \<Rightarrow> jsval" where
  "js_index xs i = (if i < length xs then xs ! i else JUndefined)"

section \<open>Listeners, fetch continuations, page state\<close>

text \<open>
  The closures of \<open>buildHeader\<close>: \<open>toggleDropdown\<close> on the nav dropdown button
  (line 183), the theme item handler that captures the item's mode \<open>value\<close> (line
  247), the theme button handler that captures \<open>dropdownMenu\<close> (line 260), and
  \<open>toggleMenu\<close> on the mobile menu button (line 271).
\<close>

datatype listener =
    ToggleDropdown
  | ThemeItemClick string
  | ThemeButtonClick nid
  | MobileMenuClick

text \<open>
  \<open>StoreIcon icons idx\<close> is the continuation \<open>data => { loadedSvgs[icons[idx].value]
  = data }\<close> of \<open>preloadColorModeIcons\<close>, with the captured array and index.
  \<open>AppendSvg path el cls\<close> is the continuation of the helper \<open>appendSvg\<close>, which
  inserts the fetched markup into \<open>el\<close> as a child of class \<open>cls\<close>.
\<close>

datatype task = StoreIcon "jsval list" nat | AppendSvg string nid string

text \<open>
  What a fetch delivers: a network failure rejects the promise, any HTTP response
  (also a 404) resolves it with its status and body text.
\<close>

datatype fetch_outcome = NetworkError | Response nat string

record page = "listener dom" +
  mode :: string
  loadedSvgs :: "string \<rightharpoonup> string"
  inflight :: "(string \<times> task) list"

text \<open>\<open>fetch(url).then(...)\<close>: a request in flight with its continuation.\<close>

definition start_fetch :: "string \<Rightarrow> task \<Rightarrow> page \<Rightarrow> page" where
  "start_fetch url t p = p\<lparr>inflight := inflight p @ [(url, t)]\<rparr>"

text \<open>
  A freshly loaded document as the scripts find it before they run: \<open><html>\<close>
  with an empty \<open><head>\<close> and \<open><body>\<close>, the active mode \<open>m\<close>, an empty
  icon cache and no fetch in flight.
\<close>

definition empty_page :: "string \<Rightarrow> page" where
  "empty_page m =
     \<lparr>d_nodes = [0 \<mapsto> (blank_node ''html'')\<lparr>n_kids := [1, 2]\<rparr>,
                 1 \<mapsto> (blank_node ''head'')\<lparr>n_parent := Some 0\<rparr>,
                 2 \<mapsto> (blank_node ''body'')\<lparr>n_parent := Some 0\<rparr>],
      d_next = 3, d_root = 0, d_head = 1, d_body = 2,
      mode = m, loadedSvgs = Map.empty, inflight = []\<rparr>"

text \<open>The script globals live in the extension of the DOM store.\<close>

lemma page_globals_more:
  assumes "dom.more p = dom.more (q :: page)"
  shows "mode p = mode q" "loadedSvgs p = loadedSvgs q" "inflight p = inflight q"
  using assms by (cases p; cases q; simp)+

end
