(* ===== verification/Theme.thy ===== *)
theory Theme
  imports Page
begin

text \<open>
  The colour-mode controller of \<open>loaders.js\<close>: the icon prefetch
  \<open>preloadColorModeIcons\<close> (lines 55--64) with the completion of its fetches in
  any order, the theme menu built by \<open>buildHeader\<close> (lines 216--263) with its two
  click handlers, and the helpers the handlers call that live in the other
  scripts of the theme (\<open>setColorMode\<close>, \<open>closeThemeMenu\<close>, \<open>appendSvg\<close>,
  \<open>getIconFromMode\<close>, the configuration \<open>COLOR_MODES\<close>), which are modelled from
  the specification.
\<close>

section \<open>Configuration\<close>

record color_mode =
  cm_name :: string
  cm_icon :: string
  cm_value :: string

text \<open>The specification's example configuration (its section 8).\<close>

definition COLOR_MODES :: "color_mode list" where
  "COLOR_MODES =
     [\<lparr>cm_name = ''Light'', cm_icon = ''/icons/sun.svg'', cm_value = ''light''\<rparr>,
      \<lparr>cm_name = ''Dark'', cm_icon = ''/icons/moon.svg'', cm_value = ''dark''\<rparr>]"

definition THEME_DROPDOWN_MENU_CLASS :: string where
  "THEME_DROPDOWN_MENU_CLASS = ''theme-dropdown-menu''"

definition THEME_BUTTON_CLASS :: string where
  "THEME_BUTTON_CLASS = ''theme-button''"

definition THEME_BUTTON_WRAPPER_CLASS :: string where
  "THEME_BUTTON_WRAPPER_CLASS = ''theme-button-wrapper''"

definition COLOR_TOGGLE_ICON_CLASS :: string where
  "COLOR_TOGGLE_ICON_CLASS = ''color-toggle-icon''"

definition mode_values :: "color_mode list \<Rightarrow> string list" where
  "mode_values modes = map cm_value modes"

section \<open>Icon prefetch and fetch completion\<close>

text \<open>
  \<open>icons = COLOR_MODES.map(({ icon }) => icon)\<close> is an array of path strings;
  each element starts a fetch whose continuation captures \<open>icons\<close> and \<open>idx\<close>.
\<close>

definition preloadColorModeIcons :: "color_mode list \<Rightarrow> page \<Rightarrow> page" where
  "preloadColorModeIcons modes p =
     (let icons = map (\<lambda>m. JStr (cm_icon m)) modes
      in fold (\<lambda>idx. start_fetch (js_to_string (icons ! idx)) (StoreIcon icons idx))
              [0..<length icons] p)"

text \<open>
  The continuation \<open>loadedSvgs[icons[idx].value] = data\<close>: the key is the
  property \<open>value\<close> of \<open>icons[idx]\<close>, turned into a string. A \<open>TypeError\<close>
  inside the continuation rejects its promise and changes nothing.
\<close>

definition store_icon :: "jsval list \<Rightarrow> nat \<Rightarrow> string \<Rightarrow> page \<Rightarrow> page" where
  "store_icon icons idx data p =
     (case get_prop (js_index icons idx) ''value'' of
        Inl _ \<Rightarrow> p
      | Inr key \<Rightarrow> p\<lparr>loadedSvgs := (loadedSvgs p)(js_to_string key \<mapsto> data)\<rparr>)"

text \<open>
  \<open>appendSvg(path, el, className)\<close> (not in the sources; from the specification's
  mount-point contract): the fetched markup becomes the content of a new element of
  class \<open>className\<close> appended to \<open>el\<close>.
\<close>

definition append_svg_markup :: "nid \<Rightarrow> string \<Rightarrow> string \<Rightarrow> page \<Rightarrow> page" where
  "append_svg_markup el cls data p =
     (let (n, p1) = create_element ''svg'' p
      in append_child el n (class_add n cls (set_text n data p1)))"

definition appendSvg :: "string \<Rightarrow> nid \<Rightarrow> string \<Rightarrow> page \<Rightarrow> page" where
  "appendSvg path el cls = start_fetch path (AppendSvg path el cls)"

definition run_task :: "task \<Rightarrow> string \<Rightarrow> page \<Rightarrow> page" where
  "run_task t data p =
     (case t of StoreIcon icons idx \<Rightarrow> store_icon icons idx data p
              | AppendSvg path el cls \<Rightarrow> append_svg_markup el cls data p)"

text \<open>
  The response to the \<open>i\<close>-th fetch in flight arrives: the fetch leaves the list,
  and a response of any status runs the continuation with its body (the code never
  looks at \<open>response.ok\<close>); a network error rejects the chain, which has no
  \<open>catch\<close>. Responses arrive in any order, so \<open>i\<close> is free.
\<close>

definition complete :: "nat \<Rightarrow> fetch_outcome \<Rightarrow> page \<Rightarrow> page" where
  "complete i r p =
     (if i < length (inflight p) then
        (let t = snd (inflight p ! i);
             p' = p\<lparr>inflight := take i (inflight p) @ drop (Suc i) (inflight p)\<rparr>
         in case r of NetworkError \<Rightarrow> p' | Response status body \<Rightarrow> run_task t body p')
      else p)"

definition complete_all :: "(nat \<times> fetch_outcome) list \<Rightarrow> page \<Rightarrow> page" where
  "complete_all cs p = fold (\<lambda>(i, r). complete i r) cs p"

text \<open>\<open>getIcon(value)\<close>: the cached markup, \<open>None\<close> while not loaded.\<close>

definition getIcon :: "page \<Rightarrow> string \<Rightarrow> string option" where
  "getIcon p v = loadedSvgs p v"

section \<open>The theme menu and its handlers\<close>

definition menu_expanded :: "page \<Rightarrow> nid \<Rightarrow> bool" where
  "menu_expanded p m = (get_attribute p m ''aria-expanded'' = Some ''true'')"

text \<open>Lines 260--263: the theme button's click listener, closing over \<open>dropdownMenu\<close>.\<close>

definition theme_button_click :: "nid \<Rightarrow> page \<Rightarrow> page" where
  "theme_button_click menu p =
     (let isExpanded = (get_attribute p menu ''aria-expanded'' = Some ''true'')
      in set_attribute menu ''aria-expanded'' (js_bool_string (\<not> isExpanded)) p)"

text \<open>
  \<open>getIconFromMode\<close>, \<open>setColorMode\<close> and \<open>closeThemeMenu\<close> are not in the
  sources; they follow the specification: an unknown mode raises
  \<open>InvalidModeError\<close> and changes nothing; a known one becomes active and is
  rendered into the theme button (its cached icon, blank while not loaded); a
  missing mount point skips the render; closing the menu sets its
  \<open>aria-expanded\<close> to \<open>false\<close>, and a missing menu is \<open>MissingMountPointError\<close>.
\<close>

definition getIconFromMode :: "color_mode list \<Rightarrow> string \<Rightarrow> string" where
  "getIconFromMode modes v =
     (case filter (\<lambda>m. cm_value m = v) modes of [] \<Rightarrow> [] | m # _ \<Rightarrow> cm_icon m)"

definition render_mode_icon :: "page \<Rightarrow> page" where
  "render_mode_icon p =
     (case query p (by_class THEME_BUTTON_CLASS) of
        None \<Rightarrow> p
      | Some b \<Rightarrow> set_text b (case getIcon p (mode p) of None \<Rightarrow> [] | Some s \<Rightarrow> s) p)"

definition setColorMode :: "color_mode list \<Rightarrow> string \<Rightarrow> page \<Rightarrow> (page, unit) js_result" where
  "setColorMode modes v p =
     (if v \<in> set (mode_values modes) then (Inr (), render_mode_icon (p\<lparr>mode := v\<rparr>))
      else (Inl (InvalidModeError v), p))"

definition closeThemeMenu :: "page \<Rightarrow> (page, unit) js_result" where
  "closeThemeMenu p =
     (case query p (by_class THEME_DROPDOWN_MENU_CLASS) of
        None \<Rightarrow> (Inl (MissingMountPointError THEME_DROPDOWN_MENU_CLASS), p)
      | Some m \<Rightarrow> (Inr (), set_attribute m ''aria-expanded'' ''false'' p))"

text \<open>
  Lines 247--250: the item's \<open>onclick\<close>, \<open>setColorMode(value)\<close> then
  \<open>closeThemeMenu()\<close>; an exception of the first skips the second.
\<close>

definition theme_item_click :: "color_mode list \<Rightarrow> string \<Rightarrow> page \<Rightarrow> (page, unit) js_result" where
  "theme_item_click modes v = js_bind (setColorMode modes v) (\<lambda>_. closeThemeMenu)"

section \<open>Invariant of the fetches in flight\<close>

text \<open>
  A value without an own property \<open>value\<close>: reading \<open>.value\<close> of it gives
  \<open>undefined\<close> (or throws, for \<open>undefined\<close> itself).
\<close>

fun no_value_prop :: "jsval \<Rightarrow> bool" where
  "no_value_prop (JObj fs) = (map_of fs ''value'' = None)"
| "no_value_prop v = True"

definition icon_task_ok :: "task \<Rightarrow> bool" where
  "icon_task_ok t =
     (case t of StoreIcon icons idx \<Rightarrow> no_value_prop (js_index icons idx) | AppendSvg _ _ _ \<Rightarrow> True)"

definition icon_tasks_ok :: "page \<Rightarrow> bool" where
  "icon_tasks_ok p = list_all (\<lambda>(u, t). icon_task_ok t) (inflight p)"

section \<open>Lemmas: prefetch and completion\<close>

lemma fold_start_fetch:
  "fold (\<lambda>i. start_fetch (u i) (t i)) xs p = p\<lparr>inflight := inflight p @ map (\<lambda>i. (u i, t i)) xs\<rparr>"
  by (induction xs arbitrary: p) (simp_all add: start_fetch_def)

lemma preload_inflight:
  "preloadColorModeIcons modes p =
     p\<lparr>inflight := inflight p @
        map (\<lambda>i. (cm_icon (modes ! i), StoreIcon (map (\<lambda>m. JStr (cm_icon m)) modes) i))
            [0..<length modes]\<rparr>"
  by (simp add: preloadColorModeIcons_def fold_start_fetch Let_def)

lemma preload_loadedSvgs [simp]: "loadedSvgs (preloadColorModeIcons modes p) = loadedSvgs p"
  by (simp add: preload_inflight)

lemma preload_icon_tasks_ok: "icon_tasks_ok p \<Longrightarrow> icon_tasks_ok (preloadColorModeIcons modes p)"
proof -
  assume "icon_tasks_ok p"
  moreover have "icon_task_ok (StoreIcon (map (\<lambda>m. JStr (cm_icon m)) modes) i)" if "i < length modes" for i
    using that by (simp add: icon_task_ok_def js_index_def)
  ultimately show ?thesis by (auto simp: preload_inflight icon_tasks_ok_def list_all_iff)
qed

text \<open>What one continuation of the prefetch writes, by the value it reads \<open>.value\<close> of.\<close>

lemma store_icon_undefined_key:
  "no_value_prop (js_index icons idx) \<Longrightarrow> js_index icons idx \<noteq> JUndefined \<Longrightarrow>
   loadedSvgs (store_icon icons idx data p) = (loadedSvgs p)(''undefined'' \<mapsto> data)"
  by (cases "js_index icons idx") (simp_all add: store_icon_def)

lemma store_icon_other_keys:
  "no_value_prop (js_index icons idx) \<Longrightarrow> k \<noteq> ''undefined'' \<Longrightarrow>
   loadedSvgs (store_icon icons idx data p) k = loadedSvgs p k"
  by (cases "js_index icons idx") (simp_all add: store_icon_def)

lemma store_icon_inflight [simp]: "inflight (store_icon icons idx data p) = inflight p"
  by (simp add: store_icon_def split: sum.splits)

lemma more_append_svg_markup: "dom.more (append_svg_markup el cls data p) = dom.more p"
  by (simp add: append_svg_markup_def split_def Let_def)

lemma append_svg_markup_globals [simp]:
  "loadedSvgs (append_svg_markup el cls data p) = loadedSvgs p"
  "inflight (append_svg_markup el cls data p) = inflight p"
  "mode (append_svg_markup el cls data p) = mode p"
  by (rule page_globals_more [OF more_append_svg_markup])+

lemma run_task_inflight [simp]: "inflight (run_task t data p) = inflight p"
  by (simp add: run_task_def split: task.splits)

lemma run_task_other_keys:
  "icon_task_ok t \<Longrightarrow> k \<noteq> ''undefined'' \<Longrightarrow> loadedSvgs (run_task t data p) k = loadedSvgs p k"
  by (auto simp: run_task_def icon_task_ok_def store_icon_other_keys split: task.splits)

lemma complete_inflight:
  "inflight (complete i r p) =
     (if i < length (inflight p) then take i (inflight p) @ drop (Suc i) (inflight p) else inflight p)"
  by (simp add: complete_def Let_def split: fetch_outcome.split)

lemma complete_icon_tasks_ok: "icon_tasks_ok p \<Longrightarrow> icon_tasks_ok (complete i r p)"
  by (auto simp: icon_tasks_ok_def complete_inflight list_all_iff dest: in_set_takeD in_set_dropD)

lemma complete_other_keys:
  assumes "icon_tasks_ok p" "k \<noteq> ''undefined''"
  shows "loadedSvgs (complete i r p) k = loadedSvgs p k"
proof (cases "i < length (inflight p)")
  case True
  then have ok: "icon_task_ok (snd (inflight p ! i))"
    using assms(1) by (simp add: icon_tasks_ok_def list_all_length split_beta)
  show ?thesis
  proof (cases r)
    case NetworkError
    with True show ?thesis by (simp add: complete_def Let_def)
  next
    case (Response st b)
    with True show ?thesis
      by (simp add: complete_def Let_def run_task_other_keys [OF ok assms(2)])
  qed
next
  case False
  then show ?thesis by (simp add: complete_def)
qed

lemma complete_all_Nil [simp]: "complete_all [] p = p"
  and complete_all_Cons [simp]: "complete_all ((i, r) # cs) p = complete_all cs (complete i r p)"
  by (simp_all add: complete_all_def)

lemma complete_all_other_keys:
  "icon_tasks_ok p \<Longrightarrow> k \<noteq> ''undefined'' \<Longrightarrow> loadedSvgs (complete_all cs p) k = loadedSvgs p k"
proof (induction cs arbitrary: p)
  case Nil
  then show ?case by simp
next
  case (Cons c cs)
  obtain i r where c: "c = (i, r)" by (cases c)
  have "loadedSvgs (complete_all cs (complete i r p)) k = loadedSvgs (complete i r p) k"
    using Cons.prems by (intro Cons.IH complete_icon_tasks_ok)
  also have "\<dots> = loadedSvgs p k"
    using Cons.prems by (rule complete_other_keys)
  finally show ?case by (simp add: c)
qed

section \<open>Lemmas: handlers\<close>

lemma more_render_mode_icon: "dom.more (render_mode_icon p) = dom.more p"
  by (simp add: render_mode_icon_def split: option.splits)

lemma more_closeThemeMenu: "dom.more (snd (closeThemeMenu p)) = dom.more p"
  by (simp add: closeThemeMenu_def split: option.splits)

lemma mode_render_mode_icon [simp]: "mode (render_mode_icon p) = mode p"
  by (rule page_globals_more [OF more_render_mode_icon])

lemma mode_closeThemeMenu [simp]: "mode (snd (closeThemeMenu p)) = mode p"
  by (rule page_globals_more [OF more_closeThemeMenu])

lemma setColorMode_valid:
  "v \<in> set (mode_values modes) \<Longrightarrow> setColorMode modes v p = (Inr (), render_mode_icon (p\<lparr>mode := v\<rparr>))"
  by (simp add: setColorMode_def)

lemma setColorMode_invalid:
  "v \<notin> set (mode_values modes) \<Longrightarrow> setColorMode modes v p = (Inl (InvalidModeError v), p)"
  by (simp add: setColorMode_def)

lemma theme_button_click_attr:
  "d_nodes p menu \<noteq> None \<Longrightarrow>
   get_attribute (theme_button_click menu p) menu ''aria-expanded'' =
     Some (js_bool_string (\<not> menu_expanded p menu))"
  by (simp add: theme_button_click_def menu_expanded_def get_set_attribute)

lemmas theme_eval = dom_eval empty_page_def COLOR_MODES_def THEME_DROPDOWN_MENU_CLASS_def
  THEME_BUTTON_CLASS_def preload_inflight complete_def Let_def run_task_def store_icon_def
  js_index_def

section \<open>Properties of the colour-mode controller\<close>

text \<open>
  C1. The icon prefetch never fills the cache entry of any mode: whatever the
  order and outcome of the responses, every key other than \<open>"undefined"\<close> keeps
  the value it had before \<open>preloadColorModeIcons\<close> ran (the continuation reads
  \<open>icons[idx].value\<close> of a path string, which is \<open>undefined\<close>).
\<close>

theorem preload_caches_only_undefined:
  assumes "icon_tasks_ok p" and "k \<noteq> ''undefined''"
  shows "loadedSvgs (complete_all cs (preloadColorModeIcons modes p)) k = loadedSvgs p k"
proof -
  have "icon_tasks_ok (preloadColorModeIcons modes p)"
    using assms(1) by (rule preload_icon_tasks_ok)
  then have "loadedSvgs (complete_all cs (preloadColorModeIcons modes p)) k =
             loadedSvgs (preloadColorModeIcons modes p) k"
    using assms(2) by (rule complete_all_other_keys)
  then show ?thesis by simp
qed

theorem preload_caches_only_undefined_witness:
  "icon_tasks_ok (empty_page ''light'') \<and> ''dark'' \<noteq> ''undefined'' \<and>
   loadedSvgs (complete_all [(0, Response 200 ''<sun/>''), (0, Response 200 ''<moon/>'')]
     (preloadColorModeIcons COLOR_MODES (empty_page ''light''))) ''dark'' = None"
proof -
  have ok: "icon_tasks_ok (empty_page ''light'')"
    by (simp add: icon_tasks_ok_def empty_page_def)
  have "loadedSvgs (complete_all [(0, Response 200 ''<sun/>''), (0, Response 200 ''<moon/>'')]
     (preloadColorModeIcons COLOR_MODES (empty_page ''light''))) ''dark'' =
     loadedSvgs (empty_page ''light'') ''dark''"
    by (rule preload_caches_only_undefined [OF ok]) simp
  then show ?thesis
    using ok by (simp add: empty_page_def)
qed

text \<open>
  C2. A response to one prefetch request, of any HTTP status, overwrites the single
  cache entry \<open>"undefined"\<close> with its body and changes no other entry.
\<close>

theorem icon_response_overwrites_undefined:
  assumes "i < length (inflight p)" and "snd (inflight p ! i) = StoreIcon icons idx"
    and "js_index icons idx = JStr s"
  shows "loadedSvgs (complete i (Response status body) p) = (loadedSvgs p)(''undefined'' \<mapsto> body)"
proof -
  have "no_value_prop (js_index icons idx)" and "js_index icons idx \<noteq> JUndefined"
    using assms(3) by simp_all
  then show ?thesis
    using assms(1,2) by (simp add: complete_def Let_def run_task_def store_icon_undefined_key)
qed

theorem icon_response_overwrites_undefined_witness:
  "let p = preloadColorModeIcons COLOR_MODES (empty_page ''light'')
   in 1 < length (inflight p) \<and>
      snd (inflight p ! 1) = StoreIcon [JStr ''/icons/sun.svg'', JStr ''/icons/moon.svg''] 1 \<and>
      js_index [JStr ''/icons/sun.svg'', JStr ''/icons/moon.svg''] 1 = JStr ''/icons/moon.svg'' \<and>
      loadedSvgs (complete 1 (Response 404 ''Not Found'') p) = [''undefined'' \<mapsto> ''Not Found'']"
proof -
  let ?p = "preloadColorModeIcons COLOR_MODES (empty_page ''light'')"
  have h: "1 < length (inflight ?p)"
    "snd (inflight ?p ! 1) = StoreIcon [JStr ''/icons/sun.svg'', JStr ''/icons/moon.svg''] 1"
    "js_index [JStr ''/icons/sun.svg'', JStr ''/icons/moon.svg''] 1 = JStr ''/icons/moon.svg''"
    by (simp_all add: theme_eval)
  show ?thesis
    using icon_response_overwrites_undefined [OF h, of 404 "''Not Found''"] h
    by (simp add: Let_def empty_page_def)
qed

text \<open>
  C3. The theme button's click handler refines the abstract menu toggle: reading
  the menu's \<open>aria-expanded\<close> attribute as the menu state, one click negates it,
  whatever the attribute held before (a missing attribute reads as collapsed).
\<close>

theorem theme_button_click_toggles:
  assumes "d_nodes p menu \<noteq> None"
  shows "menu_expanded (theme_button_click menu p) menu = (\<not> menu_expanded p menu)"
  using theme_button_click_attr [OF assms] by (simp add: menu_expanded_def)

theorem theme_button_click_toggles_witness:
  "d_nodes (empty_page ''light'') 2 \<noteq> None \<and>
   menu_expanded (theme_button_click 2 (empty_page ''light'')) 2"
proof -
  have h: "d_nodes (empty_page ''light'') 2 \<noteq> None" by (simp add: empty_page_def)
  have "\<not> menu_expanded (empty_page ''light'') 2"
    by (simp add: menu_expanded_def get_attribute_def empty_page_def blank_node_def)
  then show ?thesis
    using theme_button_click_toggles [OF h] h by simp
qed

text \<open>
  C4. Whenever the menu's \<open>aria-expanded\<close> holds \<open>"true"\<close> or \<open>"false"\<close> (as it
  does from the moment \<open>buildHeader\<close> sets it), one click on the theme button writes
  the other of the two strings, and two clicks restore the whole page exactly: the
  handler changes nothing but that attribute, and the toggle is its own inverse.
\<close>

theorem theme_button_click_twice:
  assumes "get_attribute p menu ''aria-expanded'' \<in> {Some ''true'', Some ''false''}"
  shows "get_attribute (theme_button_click menu p) menu ''aria-expanded'' =
           Some (if get_attribute p menu ''aria-expanded'' = Some ''true'' then ''false'' else ''true'') \<and>
         theme_button_click menu (theme_button_click menu p) = p"
proof -
  have ex: "d_nodes p menu \<noteq> None"
    using assms by (auto dest: get_attribute_present)
  have "get_attribute p menu ''aria-expanded'' = Some (js_bool_string True) \<or>
        get_attribute p menu ''aria-expanded'' = Some (js_bool_string False)"
    using assms by (simp add: js_bool_string_def)
  then obtain b where b: "get_attribute p menu ''aria-expanded'' = Some (js_bool_string b)"
    by blast
  have one: "get_attribute (theme_button_click menu p) menu ''aria-expanded'' =
           Some (if get_attribute p menu ''aria-expanded'' = Some ''true'' then ''false'' else ''true'')"
    using ex by (simp add: theme_button_click_def get_set_attribute js_bool_string_def)
  have "theme_button_click menu (theme_button_click menu p) =
        set_attribute menu ''aria-expanded'' (js_bool_string b)
          (set_attribute menu ''aria-expanded'' (js_bool_string (\<not> b)) p)"
    using ex b by (simp add: theme_button_click_def get_set_attribute)
  also have "\<dots> = p"
    using b by (simp add: set_attribute_present)
  finally show ?thesis using one by simp
qed

theorem theme_button_click_twice_witness:
  "let p = set_attribute 2 ''aria-expanded'' ''false'' (empty_page ''light'')
   in get_attribute p 2 ''aria-expanded'' \<in> {Some ''true'', Some ''false''} \<and>
      get_attribute (theme_button_click 2 p) 2 ''aria-expanded'' = Some ''true'' \<and>
      theme_button_click 2 (theme_button_click 2 p) = p"
proof -
  let ?p = "set_attribute 2 ''aria-expanded'' ''false'' (empty_page ''light'')"
  have h: "get_attribute ?p 2 ''aria-expanded'' \<in> {Some ''true'', Some ''false''}"
    by (simp add: get_set_attribute empty_page_def)
  have f: "get_attribute ?p 2 ''aria-expanded'' = Some ''false''"
    by (simp add: get_set_attribute empty_page_def)
  show ?thesis
    using theme_button_click_twice [OF h] h f by (simp add: Let_def)
qed

text \<open>
  Closing a menu that is already closed changes nothing: the helper succeeds and the
  page is the same value, so no attribute write is observable.
\<close>

theorem closeThemeMenu_closed_noop:
  assumes "query p (by_class THEME_DROPDOWN_MENU_CLASS) = Some m"
    and "get_attribute p m ''aria-expanded'' = Some ''false''"
  shows "closeThemeMenu p = (Inr (), p)"
  using assms by (simp add: closeThemeMenu_def set_attribute_present)

theorem closeThemeMenu_closed_noop_witness:
  "let p = append_child 2 3 (set_attribute 3 ''aria-expanded'' ''false''
             (class_add 3 THEME_DROPDOWN_MENU_CLASS (snd (create_element ''div'' (empty_page ''light'')))))
   in query p (by_class THEME_DROPDOWN_MENU_CLASS) = Some 3 \<and>
      get_attribute p 3 ''aria-expanded'' = Some ''false'' \<and>
      closeThemeMenu p = (Inr (), p)"
proof -
  define p where "p = append_child 2 3 (set_attribute 3 ''aria-expanded'' ''false''
             (class_add 3 THEME_DROPDOWN_MENU_CLASS (snd (create_element ''div'' (empty_page ''light'')))))"
  have h1: "query p (by_class THEME_DROPDOWN_MENU_CLASS) = Some 3"
    by (simp add: p_def theme_eval)
  have h2: "get_attribute p 3 ''aria-expanded'' = Some ''false''"
    by (simp add: p_def theme_eval)
  have "query p (by_class THEME_DROPDOWN_MENU_CLASS) = Some 3 \<and>
        get_attribute p 3 ''aria-expanded'' = Some ''false'' \<and> closeThemeMenu p = (Inr (), p)"
    using closeThemeMenu_closed_noop [OF h1 h2] h1 h2 by simp
  then show ?thesis by (simp only: Let_def p_def)
qed

end
