(* ===== verification/MobileMenu.thy ===== *)
theory MobileMenu
  imports Page
begin

text \<open>
  The mobile menu toggle \<open>toggleMenu\<close> of \<open>loaders.js\<close> (lines 281--296): it
  toggles the class \<open>MOBILE_MENU_TOGGLE_CLASS\<close> on every element with
  \<open>data-toggle="rst-versions"\<close>, then on every element with
  \<open>data-toggle="wy-nav-shift"\<close>, then the class \<open>menu-open\<close> on the first
  element of class \<open>WRAPPER_CLASS\<close>; with \<open>options.force\<close> given, each toggle
  is forced. The wrapper lookup is not null-checked: without a wrapper the call
  raises a \<open>TypeError\<close> after the first two loops have run.
\<close>

section \<open>Definitions\<close>

text \<open>The class names live in the theme's constants script, outside the sources.\<close>

definition MOBILE_MENU_TOGGLE_CLASS :: string where
  "MOBILE_MENU_TOGGLE_CLASS = ''shift''"

definition WRAPPER_CLASS :: string where
  "WRAPPER_CLASS = ''unified-wrapper''"

definition rst_versions_sel :: selector where
  "rst_versions_sel = by_attr ''data-toggle'' ''rst-versions''"

definition nav_shift_sel :: selector where
  "nav_shift_sel = by_attr ''data-toggle'' ''wy-nav-shift''"

text \<open>
  The inner arrow function \<open>handleClassToggle({ classList }, className)\<close>:
  destructuring \<open>null\<close> raises a \<open>TypeError\<close>; \<open>force\<close> is \<open>options.force\<close>,
  \<open>None\<close> when it is \<open>undefined\<close>.
\<close>

definition handleClassToggle ::
  "bool option \<Rightarrow> nid option \<Rightarrow> string \<Rightarrow> page \<Rightarrow> (page, unit) js_result" where
  "handleClassToggle force el className p =
     (case el of None \<Rightarrow> (Inl (TypeError ''null''), p)
      | Some e \<Rightarrow> (Inr (), class_toggle e className force p))"

definition toggleMenu :: "bool option \<Rightarrow> page \<Rightarrow> (page, unit) js_result" where
  "toggleMenu force =
     js_bind (\<lambda>p. js_forEach (\<lambda>e. handleClassToggle force (Some e) MOBILE_MENU_TOGGLE_CLASS)
                     (query_all p rst_versions_sel) p)
      (\<lambda>_. js_bind (\<lambda>p. js_forEach (\<lambda>e. handleClassToggle force (Some e) MOBILE_MENU_TOGGLE_CLASS)
                           (query_all p nav_shift_sel) p)
        (\<lambda>_ p. handleClassToggle force (query p (by_class WRAPPER_CLASS)) ''menu-open'' p))"

text \<open>
  The class toggles one plain call performs, in order: the first two loops, then the
  wrapper's \<open>menu-open\<close> if there is a wrapper.
\<close>

definition menu_toggles :: "page \<Rightarrow> (nid \<times> string) list" where
  "menu_toggles p =
     map (\<lambda>e. (e, MOBILE_MENU_TOGGLE_CLASS)) (query_all p rst_versions_sel @ query_all p nav_shift_sel) @
     (case query p (by_class WRAPPER_CLASS) of None \<Rightarrow> [] | Some w \<Rightarrow> [(w, ''menu-open'')])"

section \<open>Lemmas\<close>

lemma menu_selector_classes [simp]:
  "sel_classes rst_versions_sel = []"
  "sel_classes nav_shift_sel = []"
  "sel_classes (by_class WRAPPER_CLASS) = [WRAPPER_CLASS]"
  by (simp_all add: rst_versions_sel_def nav_shift_sel_def by_attr_def by_class_def)

lemma menu_class_names [simp]:
  "MOBILE_MENU_TOGGLE_CLASS \<noteq> WRAPPER_CLASS" "''menu-open'' \<noteq> WRAPPER_CLASS"
  by (simp_all add: MOBILE_MENU_TOGGLE_CLASS_def WRAPPER_CLASS_def)

lemma forEach_handleClassToggle:
  "js_forEach (\<lambda>e. handleClassToggle f (Some e) c) xs p = (Inr (), fold (\<lambda>e. class_toggle e c f) xs p)"
  by (induction xs arbitrary: p) (simp_all add: handleClassToggle_def js_bind_def)

text \<open>What one call does, for any \<open>force\<close>.\<close>

lemma toggleMenu_eq:
  "toggleMenu force p =
     (let p2 = fold (\<lambda>e. class_toggle e MOBILE_MENU_TOGGLE_CLASS force)
                 (query_all p rst_versions_sel @ query_all p nav_shift_sel) p
      in case query p (by_class WRAPPER_CLASS) of
           None \<Rightarrow> (Inl (TypeError ''null''), p2)
         | Some w \<Rightarrow> (Inr (), class_toggle w ''menu-open'' force p2))"
  by (simp add: toggleMenu_def js_bind_def forEach_handleClassToggle query_all_fold_class_toggle
      query_fold_class_toggle handleClassToggle_def Let_def split: option.splits)

lemma fold_class_toggle_None:
  "fold (\<lambda>e. class_toggle e c None) xs d = toggle_all (map (\<lambda>e. (e, c)) xs) d"
  by (induction xs arbitrary: d) simp_all

lemma toggleMenu_None_state: "snd (toggleMenu None p) = toggle_all (menu_toggles p) p"
  by (simp add: toggleMenu_eq menu_toggles_def Let_def fold_class_toggle_None toggle_all_append
      split: option.splits)

lemma query_all_toggle_all:
  "list_all (\<lambda>(n, c). c \<notin> set (sel_classes s)) ts \<Longrightarrow> query_all (toggle_all ts d) s = query_all d s"
proof (induction ts arbitrary: d)
  case Nil
  then show ?case by simp
next
  case (Cons t ts)
  then show ?case by (cases t) (simp add: query_all_class_toggle)
qed

lemma menu_toggles_classes:
  "list_all (\<lambda>(n, c). c \<in> {MOBILE_MENU_TOGGLE_CLASS, ''menu-open''}) (menu_toggles p)"
  by (auto simp: menu_toggles_def list_all_iff split: option.splits)

lemma menu_toggles_toggle_all:
  assumes "list_all (\<lambda>(n, c). c \<in> {MOBILE_MENU_TOGGLE_CLASS, ''menu-open''}) ts"
  shows "menu_toggles (toggle_all ts p) = menu_toggles p"
proof -
  have r: "query_all (toggle_all ts p) s = query_all p s"
    if "s \<in> {rst_versions_sel, nav_shift_sel, by_class WRAPPER_CLASS}" for s
  proof (rule query_all_toggle_all)
    show "list_all (\<lambda>(n, c). c \<notin> set (sel_classes s)) ts"
      using assms that by (auto simp: list_all_iff)
  qed
  show ?thesis
    by (simp add: menu_toggles_def query_def r)
qed

lemma toggleMenu_None_twice_state:
  "snd (toggleMenu None (snd (toggleMenu None p))) = toggle_all (menu_toggles p) (toggle_all (menu_toggles p) p)"
  by (simp add: toggleMenu_None_state menu_toggles_toggle_all [OF menu_toggles_classes])

lemmas menu_eval = dom_eval empty_page_def WRAPPER_CLASS_def MOBILE_MENU_TOGGLE_CLASS_def
  rst_versions_sel_def nav_shift_sel_def

section \<open>Properties of the mobile menu toggle\<close>

text \<open>
  C5. Two plain calls of \<open>toggleMenu\<close> (as the menu button's click listener makes
  them, the event having no \<open>force\<close>) give every element back the class set it had,
  with or without a wrapper in the page: each call flips the same classes on the same
  elements, so every class is flipped an even number of times.
\<close>

theorem toggleMenu_twice_restores_classes:
  "has_class (snd (toggleMenu None (snd (toggleMenu None p)))) n c = has_class p n c"
  by (simp add: toggleMenu_None_twice_state toggle_all_twice_has_class)

text \<open>
  C6. Without an element of class \<open>WRAPPER_CLASS\<close> the call raises a \<open>TypeError\<close>
  (the wrapper lookup is not null-checked), after both loops have already toggled
  \<open>MOBILE_MENU_TOGGLE_CLASS\<close> on the \<open>data-toggle\<close> elements: the exception leaves
  a half-applied toggle behind.
\<close>

theorem toggleMenu_missing_wrapper:
  assumes "query p (by_class WRAPPER_CLASS) = None"
  shows "toggleMenu force p =
           (Inl (TypeError ''null''),
            fold (\<lambda>e. class_toggle e MOBILE_MENU_TOGGLE_CLASS force)
              (query_all p rst_versions_sel @ query_all p nav_shift_sel) p)"
  using assms by (simp add: toggleMenu_eq)

theorem toggleMenu_missing_wrapper_witness:
  "let p = append_child 2 3 (set_attribute 3 ''data-toggle'' ''rst-versions''
             (snd (create_element ''div'' (empty_page ''light''))))
   in query p (by_class WRAPPER_CLASS) = None \<and>
      toggleMenu None p = (Inl (TypeError ''null''), class_toggle 3 MOBILE_MENU_TOGGLE_CLASS None p)"
proof -
  define p where "p = append_child 2 3 (set_attribute 3 ''data-toggle'' ''rst-versions''
             (snd (create_element ''div'' (empty_page ''light''))))"
  have h: "query p (by_class WRAPPER_CLASS) = None"
    by (simp add: p_def menu_eval)
  have q1: "query_all p rst_versions_sel = [3]" and q2: "query_all p nav_shift_sel = []"
    by (simp_all add: p_def menu_eval)
  have "query p (by_class WRAPPER_CLASS) = None \<and>
        toggleMenu None p = (Inl (TypeError ''null''), class_toggle 3 MOBILE_MENU_TOGGLE_CLASS None p)"
    using toggleMenu_missing_wrapper [OF h, of None] h by (simp add: q1 q2)
  then show ?thesis by (simp only: Let_def p_def)
qed

text \<open>
  C7. A forced call \<open>toggleMenu({ force: b })\<close> on a page with a wrapper
  succeeds and leaves the wrapper with \<open>menu-open\<close> exactly when \<open>b\<close>, and every
  \<open>data-toggle\<close> element with \<open>MOBILE_MENU_TOGGLE_CLASS\<close> exactly when \<open>b\<close>.
\<close>

theorem toggleMenu_forced:
  assumes "query p (by_class WRAPPER_CLASS) = Some w"
  shows "fst (toggleMenu (Some b) p) = Inr () \<and>
         has_class (snd (toggleMenu (Some b) p)) w ''menu-open'' = b \<and>
         (\<forall>e \<in> set (query_all p rst_versions_sel @ query_all p nav_shift_sel).
            has_class (snd (toggleMenu (Some b) p)) e MOBILE_MENU_TOGGLE_CLASS = b)"
proof -
  let ?xs = "query_all p rst_versions_sel @ query_all p nav_shift_sel"
  let ?p2 = "fold (\<lambda>e. class_toggle e MOBILE_MENU_TOGGLE_CLASS (Some b)) ?xs p"
  have st: "toggleMenu (Some b) p = (Inr (), class_toggle w ''menu-open'' (Some b) ?p2)"
    using assms by (simp add: toggleMenu_eq)
  have w: "d_nodes ?p2 w \<noteq> None"
    using query_exists [OF assms] by simp
  have "has_class ?p2 e MOBILE_MENU_TOGGLE_CLASS = b" if "e \<in> set ?xs" for e
  proof (rule has_class_fold_toggle_member [OF that])
    show "d_nodes p e \<noteq> None"
      using that query_all_exists [of e p rst_versions_sel] query_all_exists [of e p nav_shift_sel]
      by auto
  qed
  moreover have "MOBILE_MENU_TOGGLE_CLASS \<noteq> ''menu-open''"
    by (simp add: MOBILE_MENU_TOGGLE_CLASS_def)
  ultimately show ?thesis
    using w by (simp add: st has_class_class_toggle_Some)
qed

theorem toggleMenu_forced_witness:
  "let p = append_child 3 4 (set_attribute 4 ''data-toggle'' ''rst-versions''
             (snd (create_element ''div'' (append_child 2 3 (class_add 3 WRAPPER_CLASS
               (snd (create_element ''div'' (empty_page ''light''))))))))
   in query p (by_class WRAPPER_CLASS) = Some 3 \<and>
      has_class (snd (toggleMenu (Some True) p)) 3 ''menu-open'' \<and>
      has_class (snd (toggleMenu (Some True) p)) 4 MOBILE_MENU_TOGGLE_CLASS"
proof -
  define p where "p = append_child 3 4 (set_attribute 4 ''data-toggle'' ''rst-versions''
             (snd (create_element ''div'' (append_child 2 3 (class_add 3 WRAPPER_CLASS
               (snd (create_element ''div'' (empty_page ''light''))))))))"
  have h: "query p (by_class WRAPPER_CLASS) = Some 3"
    by (simp add: p_def menu_eval)
  have q1: "query_all p rst_versions_sel = [4]"
    by (simp add: p_def menu_eval)
  have "query p (by_class WRAPPER_CLASS) = Some 3 \<and>
        has_class (snd (toggleMenu (Some True) p)) 3 ''menu-open'' \<and>
        has_class (snd (toggleMenu (Some True) p)) 4 MOBILE_MENU_TOGGLE_CLASS"
    using toggleMenu_forced [OF h, of True] h by (simp add: q1)
  then show ?thesis by (simp only: Let_def p_def)
qed

end
