(* ===== verification/Tree.thy ===== *)
theory Tree
  imports Dom
begin

text \<open>
  The tree structure of the node store: the children and parent of a node as
  functions of the store, the tree edits the page scripts call beyond those of
  \<open>Dom\<close> (\<open>removeChild\<close>, \<open>insertBefore\<close>, \<open>nextSibling\<close>), and the
  well-formedness invariant \<open>wf_tree\<close> of the store: nodes lie below the allocation
  counter, no node is a child twice, and the parent and child links agree. Every
  edit is characterised by its effect on \<open>kids_of\<close> and \<open>parent_of\<close>, and the
  invariant is preserved by every edit.
\<close>

section \<open>Children, parents, the invariant\<close>

definition kids_of :: "('l, 'z) dom_scheme \<Rightarrow> nid \<Rightarrow> nid list" where
  "kids_of d n = (case d_nodes d n of None \<Rightarrow> [] | Some x \<Rightarrow> n_kids x)"

definition parent_of :: "('l, 'z) dom_scheme \<Rightarrow> nid \<Rightarrow> nid option" where
  "parent_of d n = (case d_nodes d n of None \<Rightarrow> None | Some x \<Rightarrow> n_parent x)"

text \<open>The store is allocated below its counter: \<open>createElement\<close> never overwrites a node.\<close>

definition ids_below :: "('l, 'z) dom_scheme \<Rightarrow> bool" where
  "ids_below d = (\<forall>n \<in> dom (d_nodes d). n < d_next d)"

definition wf_tree :: "('l, 'z) dom_scheme \<Rightarrow> bool" where
  "wf_tree d =
     (ids_below d \<and> (\<forall>n. distinct (kids_of d n))
      \<and> (\<forall>n k. k \<in> set (kids_of d n) \<longrightarrow> parent_of d k = Some n)
      \<and> (\<forall>n q. parent_of d n = Some q \<longrightarrow> n \<in> set (kids_of d q)))"

text \<open>\<open>textContent\<close> as far as the model keeps it: the node's own content.\<close>

definition text_of :: "('l, 'z) dom_scheme \<Rightarrow> nid \<Rightarrow> string option" where
  "text_of d n = map_option n_text (d_nodes d n)"

section \<open>Tree edits\<close>

text \<open>\<open>parent.removeChild(c)\<close>: a \<open>NotFoundError\<close> unless \<open>c\<close> is a child of \<open>parent\<close>.\<close>

definition remove_child :: "nid \<Rightarrow> nid \<Rightarrow> ('l, 'z) dom_scheme \<Rightarrow> (('l, 'z) dom_scheme, unit) js_result" where
  "remove_child par c d =
     (if parent_of d c = Some par then (Inr (), detach c d)
      else (Inl (NotFoundError ''removeChild''), d))"

text \<open>The element after \<open>n\<close> in a list of children.\<close>

fun next_in :: "nid \<Rightarrow> nid list \<Rightarrow> nid option" where
  "next_in n [] = None"
| "next_in n (x # xs) = (if x = n then (case xs of [] \<Rightarrow> None | y # _ \<Rightarrow> Some y) else next_in n xs)"

text \<open>\<open>n.nextSibling\<close>; text nodes are not modelled, so it is the next element.\<close>

definition next_sibling :: "('l, 'z) dom_scheme \<Rightarrow> nid \<Rightarrow> nid option" where
  "next_sibling d n = (case parent_of d n of None \<Rightarrow> None | Some par \<Rightarrow> next_in n (kids_of d par))"

text \<open>Insert \<open>c\<close> in front of the first occurrence of \<open>r\<close>.\<close>

definition ins_before :: "nid \<Rightarrow> nid \<Rightarrow> nid list \<Rightarrow> nid list" where
  "ins_before c r ks = takeWhile (\<lambda>k. k \<noteq> r) ks @ c # dropWhile (\<lambda>k. k \<noteq> r) ks"

text \<open>
  \<open>parent.insertBefore(c, r)\<close>: a \<open>null\<close> reference appends; a reference that is
  not a child of \<open>parent\<close> is a \<open>NotFoundError\<close>; otherwise \<open>c\<close> leaves its old
  place and is inserted in front of \<open>r\<close>.
\<close>

definition insert_before ::
  "nid \<Rightarrow> nid \<Rightarrow> nid option \<Rightarrow> ('l, 'z) dom_scheme \<Rightarrow> (('l, 'z) dom_scheme, unit) js_result" where
  "insert_before par c r d =
     (case r of None \<Rightarrow> (Inr (), append_child par c d)
      | Some r' \<Rightarrow>
          if parent_of d r' \<noteq> Some par then (Inl (NotFoundError ''insertBefore''), d)
          else if d_nodes d par = None \<or> d_nodes d c = None then (Inr (), d)
          else (Inr (), map_node c (\<lambda>y. y\<lparr>n_parent := Some par\<rparr>)
                          (map_node par (\<lambda>y. y\<lparr>n_kids := ins_before c r' (n_kids y)\<rparr>) (detach c d))))"

section \<open>Existence and the allocation counter\<close>

lemma d_nodes_map_node_None [simp]:
  "(d_nodes (map_node n f d) m = None) = (d_nodes d m = None)"
  by (simp add: d_nodes_map_node)

lemma dom_map_node [simp]: "dom (d_nodes (map_node n f d)) = dom (d_nodes d)"
  by (auto simp: d_nodes_map_node split: if_splits)

lemma d_nodes_detach_None [simp]: "(d_nodes (detach c d) m = None) = (d_nodes d m = None)"
  by (simp add: detach_def split: option.splits)

lemma append_child_exists [simp]:
  "(d_nodes (append_child p c d) n = None) = (d_nodes d n = None)"
  by (simp add: append_child_def)

lemma ids_below_map_node [simp]: "ids_below (map_node n f d) = ids_below d"
  by (simp add: ids_below_def)

lemma ids_below_detach [simp]: "ids_below (detach c d) = ids_below d"
  by (simp add: detach_def split: option.splits)

lemma ids_below_lt: "ids_below d \<Longrightarrow> d_nodes d n = Some y \<Longrightarrow> n < d_next d"
  by (auto simp: ids_below_def)

lemma ids_below_fresh: "ids_below d \<Longrightarrow> d_nodes d (d_next d) = None"
  by (auto simp: ids_below_def)

lemma d_nodes_attr_ops_None [simp]:
  "(d_nodes (set_attribute n k v d) m = None) = (d_nodes d m = None)"
  "(d_nodes (class_add n cl d) m = None) = (d_nodes d m = None)"
  "(d_nodes (class_remove n cl d) m = None) = (d_nodes d m = None)"
  "(d_nodes (class_toggle n cl f d) m = None) = (d_nodes d m = None)"
  "(d_nodes (set_onclick n l d) m = None) = (d_nodes d m = None)"
  "(d_nodes (add_listener n l d) m = None) = (d_nodes d m = None)"
  by (simp_all add: set_attribute_def class_add_def class_remove_def class_toggle_def
      set_onclick_def add_listener_def)

lemma d_head_ops [simp]:
  "d_head (map_node n f d) = d_head d" "d_head (detach c d) = d_head d"
  "d_head (snd (create_element t d)) = d_head d" "d_head (append_child p c d) = d_head d"
  "d_head (set_attribute n k v d) = d_head d" "d_head (class_add n cl d) = d_head d"
  by (simp_all add: map_node_def detach_def create_element_def append_child_def set_attribute_def
      class_add_def split: option.splits)

section \<open>Children and parents after each edit\<close>

lemma kids_of_map_node:
  "kids_of (map_node n f d) m =
     (if m = n then (case d_nodes d n of None \<Rightarrow> [] | Some x \<Rightarrow> n_kids (f x)) else kids_of d m)"
  by (simp add: kids_of_def d_nodes_map_node split: option.splits)

lemma parent_of_map_node:
  "parent_of (map_node n f d) m =
     (if m = n then (case d_nodes d n of None \<Rightarrow> None | Some x \<Rightarrow> n_parent (f x)) else parent_of d m)"
  by (simp add: parent_of_def d_nodes_map_node split: option.splits)

lemma kids_of_map_node_keep: "(\<And>x. n_kids (f x) = n_kids x) \<Longrightarrow> kids_of (map_node n f d) = kids_of d"
  by (auto simp: fun_eq_iff kids_of_def d_nodes_map_node split: option.splits)

lemma parent_of_map_node_keep:
  "(\<And>x. n_parent (f x) = n_parent x) \<Longrightarrow> parent_of (map_node n f d) = parent_of d"
  by (auto simp: fun_eq_iff parent_of_def d_nodes_map_node split: option.splits)

named_theorems tree_frame "edits that keep every child list and every parent"

lemma tree_frame_attr_ops [simp, tree_frame]:
  "kids_of (set_attribute n k v d) = kids_of d" "parent_of (set_attribute n k v d) = parent_of d"
  "kids_of (class_add n cl d) = kids_of d" "parent_of (class_add n cl d) = parent_of d"
  "kids_of (class_remove n cl d) = kids_of d" "parent_of (class_remove n cl d) = parent_of d"
  "kids_of (class_toggle n cl f d) = kids_of d" "parent_of (class_toggle n cl f d) = parent_of d"
  "kids_of (set_onclick n l d) = kids_of d" "parent_of (set_onclick n l d) = parent_of d"
  "kids_of (add_listener n l d) = kids_of d" "parent_of (add_listener n l d) = parent_of d"
  unfolding set_attribute_def class_add_def class_remove_def class_toggle_def set_onclick_def
    add_listener_def
  by (simp_all add: kids_of_map_node_keep parent_of_map_node_keep)

lemma ids_below_attr_ops [simp, tree_frame]:
  "ids_below (set_attribute n k v d) = ids_below d" "ids_below (class_add n cl d) = ids_below d"
  "ids_below (class_remove n cl d) = ids_below d" "ids_below (class_toggle n cl f d) = ids_below d"
  "ids_below (set_onclick n l d) = ids_below d" "ids_below (add_listener n l d) = ids_below d"
  by (simp_all add: set_attribute_def class_add_def class_remove_def class_toggle_def
      set_onclick_def add_listener_def)

lemma wf_tree_cong:
  "ids_below d' = ids_below d \<Longrightarrow> kids_of d' = kids_of d \<Longrightarrow> parent_of d' = parent_of d \<Longrightarrow>
   wf_tree d' = wf_tree d"
  by (simp add: wf_tree_def)

lemma wf_tree_attr_ops [simp]:
  "wf_tree (set_attribute n k v d) = wf_tree d" "wf_tree (class_add n cl d) = wf_tree d"
  "wf_tree (class_remove n cl d) = wf_tree d" "wf_tree (class_toggle n cl f d) = wf_tree d"
  "wf_tree (set_onclick n l d) = wf_tree d" "wf_tree (add_listener n l d) = wf_tree d"
  by (simp_all add: wf_tree_def)

lemma wf_tree_ids_below [intro]: "wf_tree d \<Longrightarrow> ids_below d"
  unfolding wf_tree_def by blast

lemma wf_tree_parent: "wf_tree d \<Longrightarrow> k \<in> set (kids_of d n) \<Longrightarrow> parent_of d k = Some n"
  unfolding wf_tree_def by blast

lemma wf_tree_kid: "wf_tree d \<Longrightarrow> parent_of d k = Some n \<Longrightarrow> k \<in> set (kids_of d n)"
  unfolding wf_tree_def by blast

lemma wf_tree_distinct: "wf_tree d \<Longrightarrow> distinct (kids_of d n)"
  unfolding wf_tree_def by blast

lemma parent_of_detach [simp]: "parent_of (detach c d) n = (if n = c then None else parent_of d n)"
  by (auto simp: detach_def parent_of_map_node parent_of_def d_nodes_map_node split: option.splits)

lemma kids_of_detach:
  assumes wf: "wf_tree d"
  shows "kids_of (detach c d) n = removeAll c (kids_of d n)"
proof (cases "d_nodes d c")
  case None
  then have "c \<notin> set (kids_of d n)"
    using wf_tree_parent [OF wf] by (fastforce simp: parent_of_def)
  with None show ?thesis by (simp add: detach_def)
next
  case (Some x)
  show ?thesis
  proof (cases "n_parent x")
    case None
    then have "c \<notin> set (kids_of d n)"
      using wf_tree_parent [OF wf] Some by (fastforce simp: parent_of_def)
    with Some None show ?thesis by (simp add: detach_def)
  next
    case (Some q)
    have nq: "c \<notin> set (kids_of d n)" if "n \<noteq> q"
      using wf_tree_parent [OF wf] \<open>d_nodes d c = Some x\<close> Some that by (fastforce simp: parent_of_def)
    have e: "detach c d = map_node c (\<lambda>y. y\<lparr>n_parent := None\<rparr>)
        (map_node q (\<lambda>y. y\<lparr>n_kids := removeAll c (n_kids y)\<rparr>) d)"
      using \<open>d_nodes d c = Some x\<close> Some by (simp add: detach_def)
    have "kids_of (detach c d) n = kids_of (map_node q (\<lambda>y. y\<lparr>n_kids := removeAll c (n_kids y)\<rparr>) d) n"
      unfolding e by (simp add: kids_of_map_node_keep)
    also have "\<dots> = removeAll c (kids_of d n)"
      unfolding kids_of_map_node using nq by (auto simp: kids_of_def split: option.splits)
    finally show ?thesis .
  qed
qed

lemma wf_tree_detach [simp]:
  assumes wf: "wf_tree d"
  shows "wf_tree (detach c d)"
  unfolding wf_tree_def
proof (intro conjI allI impI)
  show "ids_below (detach c d)" using wf by auto
next
  fix n
  show "distinct (kids_of (detach c d) n)"
    using wf_tree_distinct [OF wf] by (simp add: kids_of_detach [OF wf] distinct_removeAll)
next
  fix n k
  assume "k \<in> set (kids_of (detach c d) n)"
  then show "parent_of (detach c d) k = Some n"
    using wf_tree_parent [OF wf] by (auto simp: kids_of_detach [OF wf])
next
  fix n q
  assume "parent_of (detach c d) n = Some q"
  then show "n \<in> set (kids_of (detach c d) q)"
    using wf_tree_kid [OF wf] by (auto simp: kids_of_detach [OF wf] split: if_splits)
qed

lemma wf_tree_orphan: "wf_tree d \<Longrightarrow> parent_of d c = None \<Longrightarrow> c \<notin> set (kids_of d n)"
  using wf_tree_parent by fastforce

text \<open>Attaching a detached node \<open>c\<close> to \<open>p\<close>, with \<open>g\<close> placing it in the children.\<close>

lemma attach_kids_parent:
  fixes g :: "nid list \<Rightarrow> nid list"
  assumes p: "d_nodes d p \<noteq> None" and c: "d_nodes d c \<noteq> None"
  defines "d' \<equiv> map_node c (\<lambda>y. y\<lparr>n_parent := Some p\<rparr>) (map_node p (\<lambda>y. y\<lparr>n_kids := g (n_kids y)\<rparr>) d)"
  shows "kids_of d' n = (if n = p then g (kids_of d p) else kids_of d n)"
    and "parent_of d' n = (if n = c then Some p else parent_of d n)"
proof -
  show "kids_of d' n = (if n = p then g (kids_of d p) else kids_of d n)"
    unfolding d'_def kids_of_map_node_keep [of "n_parent_update (\<lambda>_. Some p)", simplified]
    unfolding kids_of_map_node using p by (auto simp: kids_of_def split: option.splits)
  show "parent_of d' n = (if n = c then Some p else parent_of d n)"
  proof -
    have X: "parent_of (map_node p (\<lambda>y. y\<lparr>n_kids := g (n_kids y)\<rparr>) d) = parent_of d"
      by (rule parent_of_map_node_keep) simp
    show ?thesis
      unfolding d'_def parent_of_map_node [of c] X using c by (auto split: option.splits)
  qed
qed

lemma attach_wf_tree:
  assumes wf: "wf_tree d" and p: "d_nodes d p \<noteq> None" and c: "d_nodes d c \<noteq> None"
    and orphan: "parent_of d c = None"
    and g: "\<And>ks. c \<notin> set ks \<Longrightarrow> distinct ks \<Longrightarrow> distinct (g ks) \<and> set (g ks) = insert c (set ks)"
  shows "wf_tree (map_node c (\<lambda>y. y\<lparr>n_parent := Some p\<rparr>) (map_node p (\<lambda>y. y\<lparr>n_kids := g (n_kids y)\<rparr>) d))"
    (is "wf_tree ?d'")
  unfolding wf_tree_def
proof (intro conjI allI impI)
  note K = attach_kids_parent(1) [OF p c, of g] and P = attach_kids_parent(2) [OF p c, of g]
  have nc: "c \<notin> set (kids_of d n)" for n using wf_tree_orphan [OF wf orphan] .
  show "ids_below ?d'" using wf by auto
next
  fix n
  show "distinct (kids_of ?d' n)"
    using g [OF wf_tree_orphan [OF wf orphan] wf_tree_distinct [OF wf]] wf_tree_distinct [OF wf]
    by (simp add: attach_kids_parent(1) [OF p c])
next
  fix n k
  assume "k \<in> set (kids_of ?d' n)"
  then show "parent_of ?d' k = Some n"
    using g [OF wf_tree_orphan [OF wf orphan] wf_tree_distinct [OF wf]] wf_tree_parent [OF wf]
      wf_tree_orphan [OF wf orphan]
    by (auto simp: attach_kids_parent [OF p c] split: if_splits)
next
  fix n q
  assume "parent_of ?d' n = Some q"
  then show "n \<in> set (kids_of ?d' q)"
    using g [OF wf_tree_orphan [OF wf orphan] wf_tree_distinct [OF wf]] wf_tree_kid [OF wf]
    by (auto simp: attach_kids_parent [OF p c] split: if_splits)
qed

lemma append_child_eq:
  "d_nodes d p \<noteq> None \<Longrightarrow> d_nodes d c \<noteq> None \<Longrightarrow>
   append_child p c d = map_node c (\<lambda>y. y\<lparr>n_parent := Some p\<rparr>)
     (map_node p (\<lambda>y. y\<lparr>n_kids := (\<lambda>ks. ks @ [c]) (n_kids y)\<rparr>) (detach c d))"
proof -
  assume "d_nodes d p \<noteq> None" "d_nodes d c \<noteq> None"
  then have "\<not> (d_nodes d p = None \<or> d_nodes d c = None)" by blast
  then show ?thesis unfolding append_child_def by (simp only: if_False)
qed

lemma append_child_kids_parent:
  assumes wf: "wf_tree d" and p: "d_nodes d p \<noteq> None" and c: "d_nodes d c \<noteq> None"
  shows "kids_of (append_child p c d) n =
           (if n = p then removeAll c (kids_of d p) @ [c] else removeAll c (kids_of d n))"
    and "parent_of (append_child p c d) n = (if n = c then Some p else parent_of d n)"
  using attach_kids_parent [of "detach c d" p c "\<lambda>ks. ks @ [c]" n] p c
  by (simp_all add: append_child_eq kids_of_detach [OF wf])

lemma wf_tree_append_child [simp]:
  assumes wf: "wf_tree d"
  shows "wf_tree (append_child p c d)"
proof (cases "d_nodes d p = None \<or> d_nodes d c = None")
  case True
  then show ?thesis using wf by (auto simp: append_child_def)
next
  case False
  then show ?thesis
    using attach_wf_tree [OF wf_tree_detach [OF wf], where p = p and c = c and g = "\<lambda>ks. ks @ [c]"]
    by (simp add: append_child_eq)
qed

lemma wf_tree_prepend_child [simp]:
  assumes wf: "wf_tree d"
  shows "wf_tree (prepend_child p c d)"
proof (cases "d_nodes d p = None \<or> d_nodes d c = None")
  case True
  then show ?thesis using wf by (auto simp: prepend_child_def)
next
  case False
  then have "(d_nodes d p = None \<or> d_nodes d c = None) = False" by blast
  then have "prepend_child p c d = map_node c (\<lambda>y. y\<lparr>n_parent := Some p\<rparr>)
     (map_node p (\<lambda>y. y\<lparr>n_kids := (\<lambda>ks. c # ks) (n_kids y)\<rparr>) (detach c d))"
    unfolding prepend_child_def by (simp only: if_False)
  then show ?thesis
    using False attach_wf_tree [OF wf_tree_detach [OF wf], where p = p and c = c and g = "\<lambda>ks. c # ks"]
    by simp
qed

lemma takeWhile_dropWhile_parts:
  "set (takeWhile P ks) \<union> set (dropWhile P ks) = set ks"
  "distinct (takeWhile P ks @ dropWhile P ks) = distinct ks"
  by (metis set_append takeWhile_dropWhile_id)+

lemma set_ins_before [simp]: "set (ins_before c r ks) = insert c (set ks)"
  unfolding ins_before_def using takeWhile_dropWhile_parts(1) [of "\<lambda>k. k \<noteq> r" ks] by auto

lemma distinct_ins_before [simp]: "distinct (ins_before c r ks) = (c \<notin> set ks \<and> distinct ks)"
  unfolding ins_before_def
  using takeWhile_dropWhile_parts [of "\<lambda>k. k \<noteq> r" ks] by (auto simp del: takeWhile_dropWhile_id)

lemma wf_tree_parent_exists:
  assumes wf: "wf_tree d" and r: "parent_of d r = Some par"
  shows "d_nodes d par \<noteq> None"
  using wf_tree_kid [OF wf r] by (cases "d_nodes d par") (auto simp: kids_of_def)

lemma insert_before_Some:
  assumes wf: "wf_tree d" and r: "parent_of d r = Some par" and c: "d_nodes d c \<noteq> None"
  shows "insert_before par c (Some r) d =
     (Inr (), map_node c (\<lambda>y. y\<lparr>n_parent := Some par\<rparr>)
        (map_node par (\<lambda>y. y\<lparr>n_kids := ins_before c r (n_kids y)\<rparr>) (detach c d)))"
proof -
  have "(d_nodes d par = None \<or> d_nodes d c = None) = False"
    using wf_tree_parent_exists [OF wf r] c by blast
  then show ?thesis by (simp only: insert_before_def option.case r simp_thms if_False)
qed

lemma insert_before_kids_parent:
  assumes wf: "wf_tree d" and r: "parent_of d r = Some par" and c: "d_nodes d c \<noteq> None"
  shows "kids_of (snd (insert_before par c (Some r) d)) n =
           (if n = par then ins_before c r (removeAll c (kids_of d par)) else removeAll c (kids_of d n))"
    and "parent_of (snd (insert_before par c (Some r) d)) n = (if n = c then Some par else parent_of d n)"
  using attach_kids_parent [of "detach c d" par c "ins_before c r" n] wf_tree_parent_exists [OF wf r] c
  by (simp_all add: insert_before_Some [OF wf r c] kids_of_detach [OF wf])

lemma wf_tree_insert_before [simp]:
  assumes wf: "wf_tree d"
  shows "wf_tree (snd (insert_before par c r d))"
proof (cases "r = None \<or> (\<exists>r'. r = Some r' \<and> (parent_of d r' \<noteq> Some par \<or> d_nodes d c = None))")
  case True
  then show ?thesis using wf by (auto simp: insert_before_def)
next
  case False
  then obtain r' where r: "r = Some r'" "parent_of d r' = Some par" "d_nodes d c \<noteq> None" by auto
  then show ?thesis
    using attach_wf_tree [OF wf_tree_detach [OF wf], where p = par and c = c and g = "ins_before c r'"]
      wf_tree_parent_exists [OF wf r(2)]
    by (simp add: insert_before_Some [OF wf r(2,3)])
qed

lemma remove_child_ok: "parent_of d c = Some par \<Longrightarrow> remove_child par c d = (Inr (), detach c d)"
  and remove_child_err:
    "parent_of d c \<noteq> Some par \<Longrightarrow> remove_child par c d = (Inl (NotFoundError ''removeChild''), d)"
  by (simp_all add: remove_child_def)

lemma wf_tree_remove_child [simp]: "wf_tree d \<Longrightarrow> wf_tree (snd (remove_child par c d))"
  by (simp add: remove_child_def)

lemma prepend_child_eq:
  "d_nodes d p \<noteq> None \<Longrightarrow> d_nodes d c \<noteq> None \<Longrightarrow>
   prepend_child p c d = map_node c (\<lambda>y. y\<lparr>n_parent := Some p\<rparr>)
     (map_node p (\<lambda>y. y\<lparr>n_kids := (\<lambda>ks. c # ks) (n_kids y)\<rparr>) (detach c d))"
proof -
  assume "d_nodes d p \<noteq> None" "d_nodes d c \<noteq> None"
  then have "\<not> (d_nodes d p = None \<or> d_nodes d c = None)" by blast
  then show ?thesis unfolding prepend_child_def by (simp only: if_False)
qed

lemma prepend_child_kids_parent:
  assumes wf: "wf_tree d" and p: "d_nodes d p \<noteq> None" and c: "d_nodes d c \<noteq> None"
  shows "kids_of (prepend_child p c d) n =
           (if n = p then c # removeAll c (kids_of d p) else removeAll c (kids_of d n))"
    and "parent_of (prepend_child p c d) n = (if n = c then Some p else parent_of d n)"
  using attach_kids_parent [of "detach c d" p c "\<lambda>ks. c # ks" n] p c
  by (simp_all add: prepend_child_eq kids_of_detach [OF wf])

lemma create_element_kids_parent:
  assumes "ids_below d"
  shows "kids_of (snd (create_element t d)) = kids_of d"
    and "parent_of (snd (create_element t d)) = parent_of d"
  using ids_below_fresh [OF assms]
  by (auto simp: fun_eq_iff create_element_def kids_of_def parent_of_def blank_node_def)

lemma ids_below_create_element [simp]:
  assumes "ids_below d"
  shows "ids_below (snd (create_element t d))"
  using ids_below_lt [OF assms] unfolding ids_below_def create_element_def by (auto intro: less_SucI)

lemma wf_tree_create_element [simp]:
  assumes wf: "wf_tree d"
  shows "wf_tree (snd (create_element t d))"
proof -
  have i: "ids_below d" using wf ..
  then have "ids_below (snd (create_element t d))" by simp
  then show ?thesis using wf unfolding wf_tree_def create_element_kids_parent [OF i] by blast
qed

lemma fold_detach_tree:
  "wf_tree d \<Longrightarrow>
     wf_tree (fold detach cs d) \<and>
     kids_of (fold detach cs d) n = filter (\<lambda>k. k \<notin> set cs) (kids_of d n) \<and>
     parent_of (fold detach cs d) m = (if m \<in> set cs then None else parent_of d m)"
proof (induction cs arbitrary: d)
  case Nil
  then show ?case by simp
next
  case (Cons c cs)
  have wf': "wf_tree (detach c d)" using Cons.prems by simp
  show ?case
    using Cons.IH [OF wf']
    by (auto simp: kids_of_detach [OF Cons.prems] removeAll_filter_not_eq filter_filter intro!: filter_cong)
qed

lemma wf_tree_map_node_keep:
  "(\<And>x. n_kids (f x) = n_kids x) \<Longrightarrow> (\<And>x. n_parent (f x) = n_parent x) \<Longrightarrow>
   wf_tree (map_node n f d) = wf_tree d"
  by (simp add: wf_tree_def kids_of_map_node_keep parent_of_map_node_keep)

lemma set_text_tree:
  assumes wf: "wf_tree d"
  shows "wf_tree (set_text n s d) \<and>
         kids_of (set_text n s d) m = filter (\<lambda>k. k \<notin> set (kids_of d n)) (kids_of d m) \<and>
         parent_of (set_text n s d) k = (if k \<in> set (kids_of d n) then None else parent_of d k)"
proof (cases "d_nodes d n")
  case None
  then show ?thesis using wf by (simp add: set_text_def kids_of_def)
next
  case (Some x)
  have e: "set_text n s d = map_node n (\<lambda>y. y\<lparr>n_text := s\<rparr>) (fold detach (n_kids x) d)"
    using Some by (simp add: set_text_def)
  have k: "kids_of d n = n_kids x" using Some by (simp add: kids_of_def)
  show ?thesis
    unfolding e k
    using fold_detach_tree [OF wf, of "n_kids x" m k]
    by (simp add: wf_tree_map_node_keep kids_of_map_node_keep parent_of_map_node_keep)
qed

lemma wf_tree_set_text [simp]: "wf_tree d \<Longrightarrow> wf_tree (set_text n s d)"
  using set_text_tree by blast

lemma kids_of_set_text_self: "wf_tree d \<Longrightarrow> kids_of (set_text n s d) n = []"
  using set_text_tree [of d n s n] by (simp add: filter_empty_conv)

section \<open>Sibling order\<close>

lemma ins_before_Cons:
  "ins_before c r (x # xs) = (if x = r then c # x # xs else x # ins_before c r xs)"
  by (simp add: ins_before_def)

lemma next_in_ins_before_self:
  "c \<notin> set ks \<Longrightarrow> r \<in> set ks \<Longrightarrow> next_in c (ins_before c r ks) = Some r"
  by (induction ks) (auto simp: ins_before_Cons)

lemma next_in_ins_before_after:
  "distinct ks \<Longrightarrow> next_in n ks = Some r \<Longrightarrow> c \<notin> set ks \<Longrightarrow>
   next_in n (ins_before c r ks) = Some c"
proof (induction ks)
  case Nil
  then show ?case by simp
next
  case (Cons x xs)
  show ?case
  proof (cases "x = n")
    case True
    with Cons.prems obtain ys where "xs = r # ys" "r \<noteq> n"
      by (auto split: list.splits)
    with True Cons.prems show ?thesis by (simp add: ins_before_Cons)
  next
    case False
    have "r \<in> set xs" using Cons.prems False
      by (induction xs arbitrary: x) (auto split: if_splits list.splits)
    then have "x \<noteq> r" using Cons.prems(1) by auto
    with False Cons show ?thesis by (simp add: ins_before_Cons)
  qed
qed

lemma next_in_None_append:
  "n \<in> set ks \<Longrightarrow> next_in n ks = None \<Longrightarrow> c \<noteq> n \<Longrightarrow> next_in n (ks @ [c]) = Some c"
  by (induction ks) (auto split: if_splits list.splits)

lemma next_in_mem: "next_in n ks = Some r \<Longrightarrow> r \<in> set ks"
  by (induction ks) (auto split: if_splits list.splits)

section \<open>Selectors over the edited store\<close>

lemma class_add_toggle: "class_add n c d = class_toggle n c (Some True) d"
  unfolding class_add_def class_toggle_def
  by (rule arg_cong [where f = "\<lambda>f. map_node n f d"]) (simp add: fun_eq_iff cl_add_def cl_toggle_def)

lemma class_remove_toggle: "class_remove n c d = class_toggle n c (Some False) d"
  unfolding class_remove_def class_toggle_def
  by (rule arg_cong [where f = "\<lambda>f. map_node n f d"]) (simp add: fun_eq_iff cl_remove_def cl_toggle_def)

lemma query_in_matches:
  assumes "query_in d e s = Some n"
  shows "sel_matches d s n"
proof -
  obtain rest where "filter (sel_matches d s) (tl (walk (Suc (d_next d)) d e)) = n # rest"
    using assms by (auto simp: query_in_def split: list.splits)
  then have "n \<in> set (filter (sel_matches d s) (tl (walk (Suc (d_next d)) d e)))" by simp
  then show ?thesis by simp
qed

lemma query_matches:
  assumes "query d s = Some n"
  shows "n \<in> set (query_all d s)"
  using assms by (auto simp: query_def split: list.splits)

lemma query_all_class_remove_self:
  "query_all (class_remove r c d) (by_class c) = filter (\<lambda>n. n \<noteq> r) (query_all d (by_class c))"
proof -
  have "sel_matches (class_remove r c d) (by_class c) n = (n \<noteq> r \<and> sel_matches d (by_class c) n)" for n
    by (cases "d_nodes d n")
       (auto simp: class_remove_def by_class_def matches_at_def node_matches_def d_nodes_map_node
          cl_remove_def)
  then show ?thesis
    unfolding query_all_def class_remove_toggle doc_order_class_toggle
    unfolding class_remove_toggle [symmetric] by (auto intro: filter_cong)
qed

section \<open>Content and classes across tree edits\<close>

lemma wf_tree_missing_not_kid: "wf_tree d \<Longrightarrow> d_nodes d c = None \<Longrightarrow> c \<notin> set (kids_of d n)"
  using wf_tree_parent by (fastforce simp: parent_of_def)

lemma text_of_map_node_keep: "(\<And>x. n_text (f x) = n_text x) \<Longrightarrow> text_of (map_node n f d) = text_of d"
  by (auto simp: fun_eq_iff text_of_def d_nodes_map_node option.map_comp o_def)

lemma has_class_map_node_keep:
  "(\<And>x. n_classes (f x) = n_classes x) \<Longrightarrow> has_class (map_node n f d) = has_class d"
  by (auto simp: fun_eq_iff has_class_def d_nodes_map_node split: option.splits)

lemma content_detach [simp]:
  "text_of (detach c d) = text_of d" "has_class (detach c d) = has_class d"
  by (simp_all add: detach_def text_of_map_node_keep has_class_map_node_keep split: option.splits)

lemma content_fold_detach [simp]:
  "text_of (fold detach cs d) = text_of d" "has_class (fold detach cs d) = has_class d"
  by (induction cs arbitrary: d) simp_all

lemma d_nodes_fold_detach_None [simp]:
  "(d_nodes (fold detach cs d) m = None) = (d_nodes d m = None)"
  by (induction cs arbitrary: d) simp_all

lemma d_nodes_set_text_None [simp]: "(d_nodes (set_text n s d) m = None) = (d_nodes d m = None)"
  by (simp add: set_text_def split: option.splits)

lemma d_nodes_create_element_None [simp]:
  "(d_nodes (snd (create_element t d)) m = None) = (d_nodes d m = None \<and> m \<noteq> d_next d)"
  by (simp add: create_element_def)

lemma content_tree_edits [simp]:
  "text_of (append_child p c d) = text_of d" "has_class (append_child p c d) = has_class d"
  "text_of (prepend_child p c d) = text_of d" "has_class (prepend_child p c d) = has_class d"
  "text_of (snd (insert_before p c r d)) = text_of d" "has_class (snd (insert_before p c r d)) = has_class d"
  by (simp_all add: append_child_def prepend_child_def insert_before_def text_of_map_node_keep
      has_class_map_node_keep split: option.splits)

lemma text_of_attr_ops [simp]:
  "text_of (set_attribute n k v d) = text_of d" "text_of (class_add n cl d) = text_of d"
  "text_of (class_remove n cl d) = text_of d" "text_of (class_toggle n cl f d) = text_of d"
  "text_of (set_onclick n l d) = text_of d" "text_of (add_listener n l d) = text_of d"
  by (simp_all add: set_attribute_def class_add_def class_remove_def class_toggle_def
      set_onclick_def add_listener_def text_of_map_node_keep)

lemma has_class_set_text [simp]: "has_class (set_text n s d) = has_class d"
  by (simp add: set_text_def has_class_map_node_keep split: option.splits)

lemma text_of_set_text:
  "text_of (set_text n s d) m = (if m = n then map_option (\<lambda>_. s) (d_nodes d n) else text_of d m)"
proof (cases "d_nodes d n")
  case (Some x)
  have "text_of (fold detach (n_kids x) d) m = text_of d m" by simp
  moreover have "d_nodes (fold detach (n_kids x) d) n \<noteq> None" using Some by simp
  ultimately show ?thesis using Some
    by (auto simp: set_text_def d_nodes_map_node text_of_def simp del: content_fold_detach)
qed (simp add: set_text_def text_of_def)

lemma content_create_element:
  "text_of (snd (create_element t d)) m = (if m = d_next d then Some [] else text_of d m)"
  "has_class (snd (create_element t d)) m c = (m \<noteq> d_next d \<and> has_class d m c)"
  by (simp_all add: create_element_def text_of_def has_class_def blank_node_def)

lemma has_class_class_add:
  "has_class (class_add n c d) m k = (if m = n \<and> k = c \<and> d_nodes d n \<noteq> None then True else has_class d m k)"
  unfolding class_add_toggle by (rule has_class_class_toggle_Some)

section \<open>Selectors across content writes\<close>

lemma matches_at_map_node_keep:
  assumes "\<And>x. n_tag (f x) = n_tag x" "\<And>x. n_classes (f x) = n_classes x" "\<And>x. n_attrs (f x) = n_attrs x"
  shows "matches_at (map_node n f d) c m = matches_at d c m"
  by (auto simp: matches_at_def d_nodes_map_node node_matches_def assms o_def split: option.splits)

lemma sel_matches_map_node_keep:
  assumes "\<And>x. n_tag (f x) = n_tag x" "\<And>x. n_classes (f x) = n_classes x" "\<And>x. n_attrs (f x) = n_attrs x"
    and "\<And>x. n_parent (f x) = n_parent x"
  shows "sel_matches (map_node n f d) s = sel_matches d s"
proof (induction s)
  case (Sel cmp)
  then show ?case by (intro ext) (simp add: matches_at_map_node_keep assms(1-3))
next
  case (Desc s cmp)
  then show ?case by (intro ext) (simp add: matches_at_map_node_keep assms ancestors_map_node)
next
  case (Child s cmp)
  then show ?case
    by (intro ext) (simp add: matches_at_map_node_keep assms ancestors_map_node split: list.splits)
qed

lemma set_text_leaf: "kids_of d n = [] \<Longrightarrow> set_text n s d = map_node n (\<lambda>y. y\<lparr>n_text := s\<rparr>) d"
  by (cases "d_nodes d n") (simp_all add: set_text_def kids_of_def)

lemma query_in_set_text_leaf:
  assumes "kids_of d n = []"
  shows "query_in (set_text n s d) e sel = query_in d e sel"
proof -
  have w: "walk (Suc (d_next d)) (map_node n (\<lambda>y. y\<lparr>n_text := s\<rparr>) d) e = walk (Suc (d_next d)) d e"
    by (rule walk_map_node) simp
  have m: "sel_matches (map_node n (\<lambda>y. y\<lparr>n_text := s\<rparr>) d) sel = sel_matches d sel"
    by (rule sel_matches_map_node_keep) simp_all
  show ?thesis
    unfolding set_text_leaf [OF assms] query_in_def d_next_map_node w m ..
qed

lemma query_in_exists: "query_in d e s = Some n \<Longrightarrow> d_nodes d n \<noteq> None"
  using query_in_matches sel_matches_exists by blast

section \<open>Appending detached nodes in turn\<close>

lemma fold_append_child_fresh:
  assumes "wf_tree d" and "d_nodes d nb \<noteq> None" and "nb \<notin> set cs" and "distinct cs"
    and "\<forall>c \<in> set cs. d_nodes d c \<noteq> None \<and> parent_of d c = None"
  shows "wf_tree (fold (append_child nb) cs d) \<and>
         kids_of (fold (append_child nb) cs d) m = (if m = nb then kids_of d nb @ cs else kids_of d m)"
  using assms
proof (induction cs arbitrary: d)
  case Nil
  then show ?case by simp
next
  case (Cons c cs)
  have c: "d_nodes d c \<noteq> None" "parent_of d c = None" using Cons.prems(5) by auto
  note K = append_child_kids_parent [OF Cons.prems(1) Cons.prems(2) c(1)]
  have nk: "c \<notin> set (kids_of d n)" for n using wf_tree_orphan [OF Cons.prems(1) c(2)] .
  let ?d' = "append_child nb c d"
  have wf': "wf_tree ?d'" using Cons.prems(1) by simp
  have nb': "d_nodes ?d' nb \<noteq> None" using Cons.prems(2) by simp
  have rest: "\<forall>c' \<in> set cs. d_nodes ?d' c' \<noteq> None \<and> parent_of ?d' c' = None"
    using Cons.prems(4,5) K(2) by auto
  have kd: "kids_of ?d' n = (if n = nb then kids_of d nb @ [c] else kids_of d n)" for n
    using K(1) nk by simp
  show ?case
    using Cons.IH [OF wf' nb' _ _ rest] Cons.prems(3,4) kd by simp
qed

end
