(* ===== verification/Header.thy ===== *)
theory Header
  imports Theme MobileMenu Tree
begin

text \<open>
  The header built by \<open>buildHeader\<close> (lines 120--274): so far its theme part, the
  button wrapper with the theme button and the theme dropdown menu with one item per
  colour mode (lines 216--263), which sets up the state the theme handlers of
  \<open>Theme\<close> work on.
\<close>

section \<open>Definitions\<close>

text \<open>One iteration of \<open>COLOR_MODES.forEach\<close> (lines 235--254).\<close>

definition build_theme_item :: "nid \<Rightarrow> color_mode \<Rightarrow> page \<Rightarrow> page" where
  "build_theme_item dropdownMenu m p0 =
     (let (dropdownItem, p1) = create_element ''button'' p0;
          p2 = class_add dropdownItem ''theme-dropdown-item'' p1;
          (label, p3) = create_element ''span'' p2;
          p4 = set_text label (cm_name m) p3;
          p5 = append_child dropdownItem label p4;
          (iconContainer, p6) = create_element ''div'' p5;
          p7 = appendSvg (cm_icon m) iconContainer ''mode-choice-icon'' p6;
          p8 = append_child dropdownItem iconContainer p7;
          p9 = set_onclick dropdownItem (ThemeItemClick (cm_value m)) p8;
          p10 = set_attribute dropdownItem ''key'' (cm_value m) p9
      in append_child dropdownMenu dropdownItem p10)"

text \<open>
  Lines 216--263, with the navigation's button container \<open>navButtonContainer\<close>
  given; the result names the theme button and the dropdown menu.
\<close>

definition build_theme_menu ::
  "color_mode list \<Rightarrow> string \<Rightarrow> nid \<Rightarrow> page \<Rightarrow> nid \<times> nid \<times> page" where
  "build_theme_menu modes md navButtonContainer p0 =
     (let (themeButtonWrapper, p1) = create_element ''div'' p0;
          p2 = class_add themeButtonWrapper THEME_BUTTON_WRAPPER_CLASS p1;
          p3 = append_child navButtonContainer themeButtonWrapper p2;
          (themeDropdownButton, p4) = create_element ''button'' p3;
          p5 = class_add themeDropdownButton THEME_BUTTON_CLASS p4;
          p6 = set_attribute themeDropdownButton ''type'' ''button'' p5;
          p7 = set_attribute themeDropdownButton ''aria-label'' ''Theme menu button'' p6;
          p8 = appendSvg (getIconFromMode modes md) themeDropdownButton COLOR_TOGGLE_ICON_CLASS p7;
          p9 = append_child themeButtonWrapper themeDropdownButton p8;
          (dropdownMenu, p10) = create_element ''div'' p9;
          p11 = class_add dropdownMenu THEME_DROPDOWN_MENU_CLASS p10;
          p12 = set_attribute dropdownMenu ''aria-expanded'' ''false'' p11;
          p13 = set_attribute dropdownMenu ''aria-label'' ''Toggle theme menu'' p12;
          p14 = fold (build_theme_item dropdownMenu) modes p13;
          p15 = append_child themeButtonWrapper dropdownMenu p14;
          p16 = add_listener themeDropdownButton (ThemeButtonClick dropdownMenu) p15
      in (themeDropdownButton, dropdownMenu, p16))"

definition handlers_of :: "page \<Rightarrow> nid \<Rightarrow> listener handler_slot list" where
  "handlers_of p n = (case d_nodes p n of None \<Rightarrow> [] | Some x \<Rightarrow> n_handlers x)"

section \<open>Lemmas\<close>

lemma build_theme_item_nodes:
  assumes "ids_below p" and "d_nodes p menu = Some mx"
  shows "d_nodes (build_theme_item menu m p) =
    (d_nodes p)(menu \<mapsto> mx\<lparr>n_kids := n_kids mx @ [d_next p]\<rparr>,
      d_next p \<mapsto> (blank_node ''button'')\<lparr>n_classes := [''theme-dropdown-item''],
         n_attrs := [(''key'', cm_value m)], n_kids := [Suc (d_next p), Suc (Suc (d_next p))],
         n_parent := Some menu, n_handlers := [OnClick (ThemeItemClick (cm_value m))]\<rparr>,
      Suc (d_next p) \<mapsto> (blank_node ''span'')\<lparr>n_text := cm_name m, n_parent := Some (d_next p)\<rparr>,
      Suc (Suc (d_next p)) \<mapsto> (blank_node ''div'')\<lparr>n_parent := Some (d_next p)\<rparr>)"
proof -
  have lt: "menu < d_next p"
    using assms by (auto simp: ids_below_def)
  then show ?thesis
    using assms(2)
    by (simp add: build_theme_item_def dom_eval appendSvg_def start_fetch_def fun_eq_iff)
qed

lemma build_theme_item_next [simp]: "d_next (build_theme_item menu m p) = d_next p + 3"
  by (simp add: build_theme_item_def appendSvg_def start_fetch_def split_def Let_def)

lemma build_theme_item_ids_below:
  assumes "ids_below p" and "d_nodes p menu = Some mx"
  shows "ids_below (build_theme_item menu m p)"
proof -
  have b: "d_nodes p n \<noteq> None \<Longrightarrow> n < d_next p + 3" for n
    using ids_below_lt [OF assms(1)] by fastforce
  show ?thesis
    unfolding ids_below_def using assms(2) b by (auto simp: build_theme_item_nodes [OF assms])
qed

text \<open>After the items loop: the menu gained one child per mode, three nodes apart.\<close>

lemma fold_build_theme_items:
  assumes "ids_below p" and "d_nodes p menu = Some mx"
  shows "d_nodes (fold (build_theme_item menu) ms p) menu =
           Some (mx\<lparr>n_kids := n_kids mx @ map (\<lambda>j. d_next p + 3 * j) [0..<length ms]\<rparr>) \<and>
         d_next (fold (build_theme_item menu) ms p) = d_next p + 3 * length ms \<and>
         ids_below (fold (build_theme_item menu) ms p) \<and>
         (\<forall>n. n < d_next p \<longrightarrow> n \<noteq> menu \<longrightarrow> d_nodes (fold (build_theme_item menu) ms p) n = d_nodes p n) \<and>
         (\<forall>j < length ms. get_attribute (fold (build_theme_item menu) ms p) (d_next p + 3 * j) ''key'' =
                             Some (cm_value (ms ! j)) \<and>
                          handlers_of (fold (build_theme_item menu) ms p) (d_next p + 3 * j) =
                             [OnClick (ThemeItemClick (cm_value (ms ! j)))])"
  using assms
proof (induction ms arbitrary: p mx)
  case Nil
  then show ?case by simp
next
  case (Cons m ms)
  let ?p' = "build_theme_item menu m p"
  let ?mx' = "mx\<lparr>n_kids := n_kids mx @ [d_next p]\<rparr>"
  note nodes = build_theme_item_nodes [OF Cons.prems, of m]
  have lt: "menu < d_next p"
    using Cons.prems by (auto simp: ids_below_def)
  have m': "d_nodes ?p' menu = Some ?mx'"
    using lt by (simp add: nodes)
  have ok': "ids_below ?p'"
    by (rule build_theme_item_ids_below [OF Cons.prems])
  note IH = Cons.IH [OF ok' m']
  have item: "get_attribute ?p' (d_next p) ''key'' = Some (cm_value m) \<and>
              handlers_of ?p' (d_next p) = [OnClick (ThemeItemClick (cm_value m))]"
    using lt by (simp add: nodes get_attribute_def handlers_of_def blank_node_def)
  have keep: "d_nodes (fold (build_theme_item menu) ms ?p') (d_next p) = d_nodes ?p' (d_next p)"
    using IH lt by simp
  have map_shift: "map (\<lambda>j. d_next p + 3 * j) [0..<Suc (length ms)] =
                   d_next p # map (\<lambda>j. d_next p + 3 + 3 * j) [0..<length ms]"
    by (simp only: upt_conv_Cons zero_less_Suc map_Suc_upt [symmetric] map_map list.map o_def) simp
  show ?case
  proof (intro conjI)
    show "d_nodes (fold (build_theme_item menu) (m # ms) p) menu =
      Some (mx\<lparr>n_kids := n_kids mx @ map (\<lambda>j. d_next p + 3 * j) [0..<length (m # ms)]\<rparr>)"
      using IH by (simp add: map_shift del: upt_Suc)
  next
    show "d_next (fold (build_theme_item menu) (m # ms) p) = d_next p + 3 * length (m # ms)"
      using IH by simp
  next
    show "ids_below (fold (build_theme_item menu) (m # ms) p)"
      using IH by simp
  next
    show "\<forall>n. n < d_next p \<longrightarrow> n \<noteq> menu \<longrightarrow>
            d_nodes (fold (build_theme_item menu) (m # ms) p) n = d_nodes p n"
      using IH by (simp add: nodes)
  next
    show "\<forall>j < length (m # ms). get_attribute (fold (build_theme_item menu) (m # ms) p) (d_next p + 3 * j) ''key'' =
            Some (cm_value ((m # ms) ! j)) \<and>
          handlers_of (fold (build_theme_item menu) (m # ms) p) (d_next p + 3 * j) =
            [OnClick (ThemeItemClick (cm_value ((m # ms) ! j)))]"
  proof (intro allI impI)
    fix j assume j: "j < length (m # ms)"
    show "get_attribute (fold (build_theme_item menu) (m # ms) p) (d_next p + 3 * j) ''key'' =
            Some (cm_value ((m # ms) ! j)) \<and>
          handlers_of (fold (build_theme_item menu) (m # ms) p) (d_next p + 3 * j) =
            [OnClick (ThemeItemClick (cm_value ((m # ms) ! j)))]"
    proof (cases j)
      case 0
      then show ?thesis
        using item keep by (simp add: get_attribute_def handlers_of_def)
    next
      case (Suc j')
      then have "d_next p + 3 * j = d_next p + 3 + 3 * j'" by simp
      then show ?thesis
        using IH j Suc by (simp add: add.assoc)
    qed
  qed
  qed
qed

lemma fold_build_theme_item_next [simp]:
  "d_next (fold (build_theme_item menu) ms p) = d_next p + 3 * length ms"
  by (induction ms arbitrary: p) simp_all

text \<open>The theme part of the header, with the steps before the items loop spelled out.\<close>

lemma build_theme_menu_eq:
  "build_theme_menu modes md c p =
     (Suc (d_next p), Suc (Suc (d_next p)),
      add_listener (Suc (d_next p)) (ThemeButtonClick (Suc (Suc (d_next p))))
       (append_child (d_next p) (Suc (Suc (d_next p)))
        (fold (build_theme_item (Suc (Suc (d_next p)))) modes
         (set_attribute (Suc (Suc (d_next p))) ''aria-label'' ''Toggle theme menu''
          (set_attribute (Suc (Suc (d_next p))) ''aria-expanded'' ''false''
           (class_add (Suc (Suc (d_next p))) THEME_DROPDOWN_MENU_CLASS
            (snd (create_element ''div''
             (append_child (d_next p) (Suc (d_next p))
              (appendSvg (getIconFromMode modes md) (Suc (d_next p)) COLOR_TOGGLE_ICON_CLASS
               (set_attribute (Suc (d_next p)) ''aria-label'' ''Theme menu button''
                (set_attribute (Suc (d_next p)) ''type'' ''button''
                 (class_add (Suc (d_next p)) THEME_BUTTON_CLASS
                  (snd (create_element ''button''
                   (append_child c (d_next p)
                    (class_add (d_next p) THEME_BUTTON_WRAPPER_CLASS
                     (snd (create_element ''div'' p)))))))))))))))))))"
  by (simp add: build_theme_menu_def Let_def split_def appendSvg_def start_fetch_def)

lemma detach_orphan: "d_nodes d c = Some x \<Longrightarrow> n_parent x = None \<Longrightarrow> detach c d = d"
  by (simp add: detach_def)

lemma handlers_of_append_child [simp]: "handlers_of (append_child p c d) n = handlers_of d n"
  by (cases "d_nodes d c")
     (auto simp: handlers_of_def append_child_def detach_def d_nodes_map_node split: option.splits)

lemma handlers_of_add_listener:
  "handlers_of (add_listener b l d) n =
     (if n = b \<and> d_nodes d b \<noteq> None then handlers_of d n @ [Listener l] else handlers_of d n)"
  by (auto simp: handlers_of_def add_listener_def d_nodes_map_node split: option.splits)

lemma kids_of_add_listener [simp]: "kids_of (add_listener b l d) n = kids_of d n"
  by (auto simp: kids_of_def add_listener_def d_nodes_map_node split: option.splits)

lemma kids_of_append_child_other:
  "n \<noteq> p \<Longrightarrow> d_nodes d c = Some x \<Longrightarrow> n_parent x = None \<Longrightarrow>
   kids_of (append_child p c d) n = kids_of d n"
  by (auto simp: kids_of_def append_child_def detach_orphan d_nodes_map_node split: option.splits)

text \<open>The store before the items loop, for a page allocated below its counter.\<close>

lemma theme_menu_prefix:
  fixes modes :: "color_mode list" and md :: string
  assumes "d_nodes p c = Some cx" and "c < d_next p"
  defines "w \<equiv> d_next p"
  defines "P \<equiv> set_attribute (Suc (Suc w)) ''aria-label'' ''Toggle theme menu''
          (set_attribute (Suc (Suc w)) ''aria-expanded'' ''false''
           (class_add (Suc (Suc w)) THEME_DROPDOWN_MENU_CLASS
            (snd (create_element ''div''
             (append_child w (Suc w)
              (appendSvg (getIconFromMode modes md) (Suc w) COLOR_TOGGLE_ICON_CLASS
               (set_attribute (Suc w) ''aria-label'' ''Theme menu button''
                (set_attribute (Suc w) ''type'' ''button''
                 (class_add (Suc w) THEME_BUTTON_CLASS
                  (snd (create_element ''button''
                   (append_child c w
                    (class_add w THEME_BUTTON_WRAPPER_CLASS
                     (snd (create_element ''div'' p)))))))))))))))"
  shows "d_nodes P =
           (d_nodes p)(c \<mapsto> cx\<lparr>n_kids := n_kids cx @ [w]\<rparr>,
             w \<mapsto> (blank_node ''div'')\<lparr>n_classes := [THEME_BUTTON_WRAPPER_CLASS], n_kids := [Suc w],
                    n_parent := Some c\<rparr>,
             Suc w \<mapsto> (blank_node ''button'')\<lparr>n_classes := [THEME_BUTTON_CLASS],
                    n_attrs := [(''type'', ''button''), (''aria-label'', ''Theme menu button'')],
                    n_parent := Some w\<rparr>,
             Suc (Suc w) \<mapsto> (blank_node ''div'')\<lparr>n_classes := [THEME_DROPDOWN_MENU_CLASS],
                    n_attrs := [(''aria-expanded'', ''false''), (''aria-label'', ''Toggle theme menu'')]\<rparr>)"
    and "d_next P = w + 3"
  using assms(1,2) unfolding P_def w_def
  by (simp_all add: dom_eval appendSvg_def start_fetch_def fun_eq_iff)

text \<open>Everything the claims about the theme menu use, in one statement.\<close>

lemma theme_menu_built:
  assumes ok: "ids_below p" and c: "d_nodes p c = Some cx"
    and res: "build_theme_menu modes md c p = (b, m, q)"
  shows "b = Suc (d_next p) \<and> m = Suc (Suc (d_next p)) \<and>
         get_attribute q m ''aria-expanded'' = Some ''false'' \<and>
         kids_of q m = map (\<lambda>j. d_next p + 3 + 3 * j) [0..<length modes] \<and>
         (\<forall>j < length modes. get_attribute q (d_next p + 3 + 3 * j) ''key'' = Some (cm_value (modes ! j)) \<and>
             handlers_of q (d_next p + 3 + 3 * j) = [OnClick (ThemeItemClick (cm_value (modes ! j)))]) \<and>
         handlers_of q b = [Listener (ThemeButtonClick m)]"
proof -
  let ?w = "d_next p"
  let ?P = "set_attribute (Suc (Suc ?w)) ''aria-label'' ''Toggle theme menu''
          (set_attribute (Suc (Suc ?w)) ''aria-expanded'' ''false''
           (class_add (Suc (Suc ?w)) THEME_DROPDOWN_MENU_CLASS
            (snd (create_element ''div''
             (append_child ?w (Suc ?w)
              (appendSvg (getIconFromMode modes md) (Suc ?w) COLOR_TOGGLE_ICON_CLASS
               (set_attribute (Suc ?w) ''aria-label'' ''Theme menu button''
                (set_attribute (Suc ?w) ''type'' ''button''
                 (class_add (Suc ?w) THEME_BUTTON_CLASS
                  (snd (create_element ''button''
                   (append_child c ?w
                    (class_add ?w THEME_BUTTON_WRAPPER_CLASS
                     (snd (create_element ''div'' p)))))))))))))))"
  let ?mrec = "(blank_node ''div'')\<lparr>n_classes := [THEME_DROPDOWN_MENU_CLASS],
                 n_attrs := [(''aria-expanded'', ''false''), (''aria-label'', ''Toggle theme menu'')]\<rparr> :: listener node"
  let ?F = "fold (build_theme_item (Suc (Suc ?w))) modes ?P"
  have clt: "c < ?w" using ids_below_lt [OF ok c] .
  note pre = theme_menu_prefix [OF c clt, of modes md]
  have lt3: "d_nodes p n = Some y \<Longrightarrow> n < ?w + 3" for n y
    using ids_below_lt [OF ok] by fastforce
  have okP: "ids_below ?P"
    unfolding ids_below_def pre(1) pre(2) using clt by (auto dest: lt3)
  have mP: "d_nodes ?P (Suc (Suc ?w)) = Some ?mrec"
    using pre by simp
  note F = fold_build_theme_items [OF okP mP, of modes]
  have "(b, m, q) = (Suc ?w, Suc (Suc ?w), add_listener (Suc ?w) (ThemeButtonClick (Suc (Suc ?w)))
                 (append_child ?w (Suc (Suc ?w)) ?F))"
    using trans [OF sym [OF res] build_theme_menu_eq] .
  then have bm: "b = Suc ?w" "m = Suc (Suc ?w)"
    and q: "q = add_listener (Suc ?w) (ThemeButtonClick (Suc (Suc ?w))) (append_child ?w (Suc (Suc ?w)) ?F)"
    by (simp_all only: prod.inject)
  have Fm: "d_nodes ?F (Suc (Suc ?w)) =
              Some (?mrec\<lparr>n_kids := map (\<lambda>j. ?w + 3 + 3 * j) [0..<length modes]\<rparr>)"
    using F pre by (simp add: blank_node_def)
  have "\<forall>n. n < ?w + 3 \<longrightarrow> n \<noteq> Suc (Suc ?w) \<longrightarrow> d_nodes ?F n = d_nodes ?P n"
    using F unfolding pre(2) by blast
  then have Fb: "d_nodes ?F (Suc ?w) = d_nodes ?P (Suc ?w)"
    by simp
  have "get_attribute q (Suc (Suc ?w)) ''aria-expanded'' = get_attribute ?F (Suc (Suc ?w)) ''aria-expanded''"
    by (simp only: q get_attribute_tree_ops)
  also have "\<dots> = Some ''false''"
    using Fm by (simp add: get_attribute_def)
  finally have attr: "get_attribute q (Suc (Suc ?w)) ''aria-expanded'' = Some ''false''" .
  have "kids_of q (Suc (Suc ?w)) = kids_of (append_child ?w (Suc (Suc ?w)) ?F) (Suc (Suc ?w))"
    by (simp only: q kids_of_add_listener)
  also have "\<dots> = kids_of ?F (Suc (Suc ?w))"
    by (rule kids_of_append_child_other [OF _ Fm]) (simp_all add: blank_node_def)
  also have "\<dots> = map (\<lambda>j. ?w + 3 + 3 * j) [0..<length modes]"
    using Fm by (simp add: kids_of_def)
  finally have kids: "kids_of q (Suc (Suc ?w)) = map (\<lambda>j. ?w + 3 + 3 * j) [0..<length modes]" .
  have Fi: "\<forall>j < length modes. get_attribute ?F (?w + 3 + 3 * j) ''key'' = Some (cm_value (modes ! j)) \<and>
             handlers_of ?F (?w + 3 + 3 * j) = [OnClick (ThemeItemClick (cm_value (modes ! j)))]"
    using F unfolding pre(2) by blast
  have items: "\<forall>j < length modes. get_attribute q (?w + 3 + 3 * j) ''key'' = Some (cm_value (modes ! j)) \<and>
             handlers_of q (?w + 3 + 3 * j) = [OnClick (ThemeItemClick (cm_value (modes ! j)))]"
  proof (intro allI impI)
    fix j assume j: "j < length modes"
    have "get_attribute q (?w + 3 + 3 * j) ''key'' = get_attribute ?F (?w + 3 + 3 * j) ''key''"
      by (simp only: q get_attribute_tree_ops)
    moreover have "handlers_of q (?w + 3 + 3 * j) = handlers_of ?F (?w + 3 + 3 * j)"
      by (simp add: q handlers_of_add_listener)
    ultimately show "get_attribute q (?w + 3 + 3 * j) ''key'' = Some (cm_value (modes ! j)) \<and>
             handlers_of q (?w + 3 + 3 * j) = [OnClick (ThemeItemClick (cm_value (modes ! j)))]"
      using Fi j by simp
  qed
  have Fb': "d_nodes ?F (Suc ?w) \<noteq> None"
    using Fb pre(1) by simp
  have ex: "d_nodes (append_child ?w (Suc (Suc ?w)) ?F) (Suc ?w) \<noteq> None"
    using Fb' by (simp add: append_child_exists)
  have "handlers_of q (Suc ?w) =
        handlers_of (append_child ?w (Suc (Suc ?w)) ?F) (Suc ?w) @ [Listener (ThemeButtonClick (Suc (Suc ?w)))]"
    unfolding q handlers_of_add_listener using ex by simp
  also have "\<dots> = handlers_of ?F (Suc ?w) @ [Listener (ThemeButtonClick (Suc (Suc ?w)))]"
    by (simp only: handlers_of_append_child)
  also have "\<dots> = [Listener (ThemeButtonClick (Suc (Suc ?w)))]"
    using Fb pre(1) by (simp add: handlers_of_def blank_node_def)
  finally have button: "handlers_of q (Suc ?w) = [Listener (ThemeButtonClick (Suc (Suc ?w)))]" .
  show ?thesis
    using attr kids items button bm by simp
qed

lemma build_theme_menu_ids:
  "build_theme_menu modes md c p =
     (Suc (d_next p), Suc (Suc (d_next p)), snd (snd (build_theme_menu modes md c p)))"
  by (simp only: build_theme_menu_eq snd_conv)

lemma ids_below_empty_page [simp]: "ids_below (empty_page md)"
  by (auto simp: ids_below_def empty_page_def split: if_splits)

lemma d_next_empty_page [simp]: "d_next (empty_page md) = 3"
  by (simp add: empty_page_def)

lemma get_attribute_exists: "get_attribute d n k = Some v \<Longrightarrow> d_nodes d n \<noteq> None"
  by (auto simp: get_attribute_def split: option.splits)

section \<open>Properties of the theme menu\<close>

text \<open>
  C8. The theme menu is mounted collapsed (its \<open>aria-expanded\<close> is \<open>"false"\<close>),
  so the first click on the theme button opens it.
\<close>

theorem build_theme_menu_collapsed:
  assumes "ids_below p" and "d_nodes p c \<noteq> None"
    and "build_theme_menu modes md c p = (b, m, q)"
  shows "\<not> menu_expanded q m \<and> menu_expanded (theme_button_click m q) m"
proof -
  obtain cx where c: "d_nodes p c = Some cx" using assms(2) by blast
  have a: "get_attribute q m ''aria-expanded'' = Some ''false''"
    using theme_menu_built [OF assms(1) c assms(3)] by blast
  show ?thesis
    using a theme_button_click_attr [OF get_attribute_exists [OF a]]
    by (simp add: menu_expanded_def)
qed

theorem build_theme_menu_collapsed_witness:
  "ids_below (empty_page ''light'') \<and> d_nodes (empty_page ''light'') 2 \<noteq> None \<and>
   build_theme_menu COLOR_MODES ''light'' 2 (empty_page ''light'') =
     (4, 5, snd (snd (build_theme_menu COLOR_MODES ''light'' 2 (empty_page ''light'')))) \<and>
   \<not> menu_expanded (snd (snd (build_theme_menu COLOR_MODES ''light'' 2 (empty_page ''light'')))) 5 \<and>
   menu_expanded (theme_button_click 5
     (snd (snd (build_theme_menu COLOR_MODES ''light'' 2 (empty_page ''light''))))) 5"
proof -
  have ok: "ids_below (empty_page ''light'')" by simp
  have c: "d_nodes (empty_page ''light'') 2 \<noteq> None" by (simp add: empty_page_def)
  have res: "build_theme_menu COLOR_MODES ''light'' 2 (empty_page ''light'') =
     (4, 5, snd (snd (build_theme_menu COLOR_MODES ''light'' 2 (empty_page ''light''))))"
    by (subst build_theme_menu_ids) (simp add: eval_nat_numeral)
  show ?thesis
    by (rule conjI [OF ok conjI [OF c conjI [OF res build_theme_menu_collapsed [OF ok c res]]]])
qed

text \<open>
  C9. The menu has one item per colour mode, in the order of the modes and
  with no item twice; the item of a mode carries its value as \<open>key\<close> and one
  click handler, the closure selecting that mode.
\<close>

theorem build_theme_menu_items:
  assumes "ids_below p" and "d_nodes p c \<noteq> None"
    and "build_theme_menu modes md c p = (b, m, q)"
  shows "length (kids_of q m) = length modes \<and> distinct (kids_of q m) \<and>
         (\<forall>j < length modes.
            get_attribute q (kids_of q m ! j) ''key'' = Some (cm_value (modes ! j)) \<and>
            handlers_of q (kids_of q m ! j) = [OnClick (ThemeItemClick (cm_value (modes ! j)))])"
proof -
  obtain cx where c: "d_nodes p c = Some cx" using assms(2) by blast
  note B = theme_menu_built [OF assms(1) c assms(3)]
  have k: "kids_of q m = map (\<lambda>j. d_next p + 3 + 3 * j) [0..<length modes]"
    using B by blast
  have i: "\<forall>j < length modes. get_attribute q (d_next p + 3 + 3 * j) ''key'' = Some (cm_value (modes ! j)) \<and>
             handlers_of q (d_next p + 3 + 3 * j) = [OnClick (ThemeItemClick (cm_value (modes ! j)))]"
    using B by blast
  have "distinct (map (\<lambda>j. d_next p + 3 + 3 * j) [0..<length modes])"
    by (simp add: distinct_map inj_on_def)
  then show ?thesis
    using i unfolding k by simp
qed

theorem build_theme_menu_items_witness:
  "ids_below (empty_page ''light'') \<and> d_nodes (empty_page ''light'') 2 \<noteq> None \<and>
   build_theme_menu COLOR_MODES ''light'' 2 (empty_page ''light'') =
     (4, 5, snd (snd (build_theme_menu COLOR_MODES ''light'' 2 (empty_page ''light'')))) \<and>
   (let q = snd (snd (build_theme_menu COLOR_MODES ''light'' 2 (empty_page ''light'')))
    in length (kids_of q 5) = length COLOR_MODES \<and> distinct (kids_of q 5) \<and>
       (\<forall>j < length COLOR_MODES.
          get_attribute q (kids_of q 5 ! j) ''key'' = Some (cm_value (COLOR_MODES ! j)) \<and>
          handlers_of q (kids_of q 5 ! j) = [OnClick (ThemeItemClick (cm_value (COLOR_MODES ! j)))]))"
proof -
  have ok: "ids_below (empty_page ''light'')" by simp
  have c: "d_nodes (empty_page ''light'') 2 \<noteq> None" by (simp add: empty_page_def)
  have res: "build_theme_menu COLOR_MODES ''light'' 2 (empty_page ''light'') =
     (4, 5, snd (snd (build_theme_menu COLOR_MODES ''light'' 2 (empty_page ''light''))))"
    by (subst build_theme_menu_ids) (simp add: eval_nat_numeral)
  show ?thesis
    unfolding Let_def
    by (rule conjI [OF ok conjI [OF c conjI [OF res build_theme_menu_items [OF ok c res]]]])
qed

text \<open>
  C10. The theme button carries exactly one listener, the closure that toggles
  the menu built with it.
\<close>

theorem build_theme_menu_button:
  assumes "ids_below p" and "d_nodes p c \<noteq> None"
    and "build_theme_menu modes md c p = (b, m, q)"
  shows "b \<noteq> m \<and> handlers_of q b = [Listener (ThemeButtonClick m)]"
proof -
  obtain cx where c: "d_nodes p c = Some cx" using assms(2) by blast
  note B = theme_menu_built [OF assms(1) c assms(3)]
  have "b = Suc (d_next p)" "m = Suc (Suc (d_next p))" using B by blast+
  then have "b \<noteq> m" by simp
  moreover have "handlers_of q b = [Listener (ThemeButtonClick m)]" using B by blast
  ultimately show ?thesis ..
qed

theorem build_theme_menu_button_witness:
  "ids_below (empty_page ''light'') \<and> d_nodes (empty_page ''light'') 2 \<noteq> None \<and>
   build_theme_menu COLOR_MODES ''light'' 2 (empty_page ''light'') =
     (4, 5, snd (snd (build_theme_menu COLOR_MODES ''light'' 2 (empty_page ''light'')))) \<and>
   4 \<noteq> (5::nat) \<and>
   handlers_of (snd (snd (build_theme_menu COLOR_MODES ''light'' 2 (empty_page ''light'')))) 4 =
     [Listener (ThemeButtonClick 5)]"
proof -
  have ok: "ids_below (empty_page ''light'')" by simp
  have c: "d_nodes (empty_page ''light'') 2 \<noteq> None" by (simp add: empty_page_def)
  have res: "build_theme_menu COLOR_MODES ''light'' 2 (empty_page ''light'') =
     (4, 5, snd (snd (build_theme_menu COLOR_MODES ''light'' 2 (empty_page ''light''))))"
    by (subst build_theme_menu_ids) (simp add: eval_nat_numeral)
  show ?thesis
    by (rule conjI [OF ok conjI [OF c conjI [OF res build_theme_menu_button [OF ok c res]]]])
qed

end
