(* ===== verification/Assembly.thy ===== *)
theory Assembly
  imports Header
begin

text \<open>
  The one-shot page-assembly functions of \<open>loaders.js\<close> that edit the documentation
  page outside the header: \<open>preloadFonts\<close> (lines 4--16),
  \<open>updateEditButtonLabel\<close> (46--50), \<open>cleanSearchInput\<close> (69--78),
  \<open>addHrUnderSearchForm\<close> (83--87), \<open>addFooterNote\<close> (92--99),
  \<open>updateFooterButtonIcons\<close> (104--115) and \<open>updateFlyoverMenu\<close> (301--315),
  over the tree edits of \<open>Tree\<close>.
\<close>

section \<open>Guarded steps\<close>

text \<open>Running a step on an element only when a query found one (\<open>if (el) ...\<close>).\<close>

definition when_some :: "nid option \<Rightarrow> (nid \<Rightarrow> page \<Rightarrow> (page, unit) js_result) \<Rightarrow> page \<Rightarrow> (page, unit) js_result" where
  "when_some e f p = (case e of None \<Rightarrow> (Inr (), p) | Some n \<Rightarrow> f n p)"

section \<open>Fonts\<close>

text \<open>One iteration of \<open>fonts.forEach\<close> (lines 9--14); the link properties reflect attributes.\<close>

definition preload_font :: "string \<Rightarrow> page \<Rightarrow> page" where
  "preload_font filename p0 =
     (let (link, p1) = create_element ''link'' p0;
          p2 = set_attribute link ''rel'' ''preload'' p1;
          p3 = set_attribute link ''as'' ''font'' p2;
          p4 = set_attribute link ''href'' (''_static/fonts/'' @ filename) p3;
          p5 = set_attribute link ''crossorigin'' [] p4
      in append_child (d_head p5) link p5)"

definition preloadFonts :: "page \<Rightarrow> page" where
  "preloadFonts p = fold preload_font [''Helvetica.ttc''] p"

section \<open>Edit button, search box, separator\<close>

definition edit_button_sel :: selector where
  "edit_button_sel = Desc (by_class ''wy-breadcrumbs-aside'') (Compound (Some ''a'') [] [])"

definition updateEditButtonLabel :: "page \<Rightarrow> page" where
  "updateEditButtonLabel p =
     (case query p edit_button_sel of None \<Rightarrow> p | Some e \<Rightarrow> set_text e ''Edit on GitHub'' p)"

definition version_sel :: selector where
  "version_sel = Sel (Compound (Some ''div'') [''version''] [])"

text \<open>
  Lines 69--78: both queries run before either removal; \<open>querySelector\<close> finds
  descendants at any depth, \<open>removeChild\<close> accepts only children.
\<close>

definition cleanSearchInput :: "page \<Rightarrow> (page, unit) js_result" where
  "cleanSearchInput p =
     (case query p (by_class ''wy-side-nav-search'') of
        None \<Rightarrow> (Inl (TypeError ''sideNavSearch''), p)
      | Some s \<Rightarrow>
          (let anchor = query_in p s (by_tag ''a'');
               versionDiv = query_in p s version_sel
           in js_bind (when_some anchor (remove_child s))
                (\<lambda>_. when_some versionDiv (remove_child s)) p))"

definition vertical_menu_sel :: selector where
  "vertical_menu_sel = Sel (Compound None [''wy-menu-vertical''] [(''role'', Some ''navigation'')])"

text \<open>Lines 83--87: the \<open>hr\<close> is created before the menu is dereferenced.\<close>

definition addHrUnderSearchForm :: "page \<Rightarrow> (page, unit) js_result" where
  "addHrUnderSearchForm p0 =
     (let verticalMenu = query p0 vertical_menu_sel;
          (hr, p1) = create_element ''hr'' p0
      in case verticalMenu of None \<Rightarrow> (Inl (TypeError ''verticalMenu''), p1)
         | Some v \<Rightarrow> (case parent_of p1 v of None \<Rightarrow> (Inl (TypeError ''parentNode''), p1)
                     | Some par \<Rightarrow> insert_before par hr (Some v) p1))"

section \<open>Footer\<close>

text \<open>The markup of line 97, with the heart emoji as its UTF-8 bytes.\<close>

definition footer_note_html :: string where
  "footer_note_html =
     ''Customized with '' @ map char_of [226, 157, 164, 239, 184, 143 :: nat] @
     '' by the <a href=\"https://ethereum.org/\" target=\"_blank\">ethereum.org</a> team.''"

definition content_info_sel :: selector where
  "content_info_sel = Sel (Compound (Some ''div'') [] [(''role'', Some ''contentinfo'')])"

definition addFooterNote :: "page \<Rightarrow> (page, unit) js_result" where
  "addFooterNote p0 =
     (let contentInfo = query p0 content_info_sel;
          (footerNote, p1) = create_element ''p'' p0;
          p2 = class_add footerNote ''footer-note'' p1;
          p3 = set_text footerNote footer_note_html p2
      in case contentInfo of None \<Rightarrow> (Inl (TypeError ''contentInfo''), p3)
         | Some ci \<Rightarrow> (case parent_of p3 ci of None \<Rightarrow> (Inl (TypeError ''parentNode''), p3)
                      | Some par \<Rightarrow> insert_before par footerNote (next_sibling p3 ci) p3))"

text \<open>One of the two guarded blocks of \<open>updateFooterButtonIcons\<close> (lines 105--109, 110--114).\<close>

definition swap_icon :: "string \<Rightarrow> string \<Rightarrow> page \<Rightarrow> page" where
  "swap_icon old new p =
     (case query p (by_class old) of None \<Rightarrow> p
      | Some e \<Rightarrow> class_remove e old (class_add e new p))"

definition updateFooterButtonIcons :: "page \<Rightarrow> page" where
  "updateFooterButtonIcons p =
     swap_icon ''fa-arrow-circle-left'' ''fa-caret-left''
       (swap_icon ''fa-arrow-circle-right'' ''fa-caret-right'' p)"

section \<open>Flyover menu\<close>

definition fa_book_sel :: selector where
  "fa_book_sel = Sel (Compound None [''fa'', ''fa-book''] [])"

definition fa_caret_sel :: selector where
  "fa_caret_sel = Sel (Compound None [''fa'', ''fa-caret-down''] [])"

text \<open>
  Lines 301--315. The caret is looked up after the label was relabelled; the
  \<open>innerHTML\<close> reset detaches the children of the version box; \<open>appendChild(null)\<close>
  is a \<open>TypeError\<close>.
\<close>

definition updateFlyoverMenu :: "page \<Rightarrow> (page, unit) js_result" where
  "updateFlyoverMenu p0 =
     (case query p0 (by_class ''rst-current-version'') of
        None \<Rightarrow> (Inl (TypeError ''rtdVersion''), p0)
      | Some rtdVersion \<Rightarrow>
          (case query_in p0 rtdVersion fa_book_sel of
             None \<Rightarrow> (Inl (TypeError ''rtdLabel''), p0)
           | Some rtdLabel \<Rightarrow>
               (let p1 = set_text rtdLabel ''RTD'' p0;
                    caretDown = query_in p1 rtdVersion fa_caret_sel;
                    p2 = set_text rtdVersion [] p1;
                    p3 = append_child rtdVersion rtdLabel p2
                in case caretDown of None \<Rightarrow> (Inl (TypeError ''appendChild''), p3)
                   | Some cd \<Rightarrow>
                       (let p4 = append_child rtdVersion cd p3;
                            (latestSpan, p5) = create_element ''span'' p4;
                            p6 = set_text latestSpan ''Latest'' p5
                        in (Inr (), append_child rtdVersion latestSpan p6)))))"

section \<open>Sample pages\<close>

text \<open>
  Small documents for the witnesses: a page given by its list of nodes, the first
  three being \<open><html>\<close>, \<open><head>\<close> and \<open><body>\<close>, and an executable check
  that the list describes a well-formed tree.
\<close>

definition mk_node ::
  "string \<Rightarrow> string list \<Rightarrow> (string \<times> string) list \<Rightarrow> nid list \<Rightarrow> nid option \<Rightarrow> listener node" where
  "mk_node t cs as ks par =
     (blank_node t)\<lparr>n_classes := cs, n_attrs := as, n_kids := ks, n_parent := par\<rparr>"

definition mk_page :: "(nid \<times> listener node) list \<Rightarrow> page" where
  "mk_page ns =
     \<lparr>d_nodes = map_of ns, d_next = length ns, d_root = 0, d_head = 1, d_body = 2,
      mode = ''light'', loadedSvgs = Map.empty, inflight = []\<rparr>"

definition tree_ok :: "(nid \<times> listener node) list \<Rightarrow> bool" where
  "tree_ok ns =
     list_all (\<lambda>n. case map_of ns n of None \<Rightarrow> True | Some x \<Rightarrow>
         n < length ns \<and> distinct (n_kids x)
         \<and> list_all (\<lambda>k. case map_of ns k of None \<Rightarrow> False | Some y \<Rightarrow> n_parent y = Some n) (n_kids x)
         \<and> (case n_parent x of None \<Rightarrow> True
            | Some q \<Rightarrow> (case map_of ns q of None \<Rightarrow> False | Some y \<Rightarrow> n \<in> set (n_kids y))))
       (map fst ns)"

text \<open>The side-nav search box of the Read-the-Docs theme: logo link, version, search form.\<close>

definition search_nodes :: "(nid \<times> listener node) list" where
  "search_nodes =
     [(0, mk_node ''html'' [] [] [1, 2] None), (1, mk_node ''head'' [] [] [] (Some 0)),
      (2, mk_node ''body'' [] [] [3] (Some 0)),
      (3, mk_node ''div'' [''wy-side-nav-search''] [] [4, 5, 6] (Some 2)),
      (4, mk_node ''a'' [] [(''href'', ''index.html'')] [] (Some 3)),
      (5, mk_node ''div'' [''version''] [] [] (Some 3)),
      (6, mk_node ''div'' [] [(''role'', ''search'')] [] (Some 3))]"

text \<open>The same box with the logo link wrapped in a \<open>div\<close>.\<close>

definition nested_search_nodes :: "(nid \<times> listener node) list" where
  "nested_search_nodes =
     [(0, mk_node ''html'' [] [] [1, 2] None), (1, mk_node ''head'' [] [] [] (Some 0)),
      (2, mk_node ''body'' [] [] [3] (Some 0)),
      (3, mk_node ''div'' [''wy-side-nav-search''] [] [4] (Some 2)),
      (4, mk_node ''div'' [] [] [5] (Some 3)),
      (5, mk_node ''a'' [] [(''href'', ''index.html'')] [] (Some 4))]"

text \<open>The side navigation: the search form followed by the vertical menu.\<close>

definition side_nav_nodes :: "(nid \<times> listener node) list" where
  "side_nav_nodes =
     [(0, mk_node ''html'' [] [] [1, 2] None), (1, mk_node ''head'' [] [] [] (Some 0)),
      (2, mk_node ''body'' [] [] [3] (Some 0)),
      (3, mk_node ''div'' [''wy-side-scroll''] [] [4, 5] (Some 2)),
      (4, mk_node ''div'' [] [(''role'', ''search'')] [] (Some 3)),
      (5, mk_node ''div'' [''wy-menu-vertical''] [(''role'', ''navigation'')] [] (Some 3))]"

text \<open>The page footer: the content-info block followed by the theme credit.\<close>

definition footer_nodes :: "(nid \<times> listener node) list" where
  "footer_nodes =
     [(0, mk_node ''html'' [] [] [1, 2] None), (1, mk_node ''head'' [] [] [] (Some 0)),
      (2, mk_node ''body'' [] [] [3] (Some 0)),
      (3, mk_node ''footer'' [] [] [4, 5] (Some 2)),
      (4, mk_node ''div'' [] [(''role'', ''contentinfo'')] [] (Some 3)),
      (5, mk_node ''div'' [] [] [] (Some 3))]"

text \<open>The Read-the-Docs flyover badge: the book icon, the caret, and a variant without caret.\<close>

definition flyover_nodes :: "(nid \<times> listener node) list" where
  "flyover_nodes =
     [(0, mk_node ''html'' [] [] [1, 2] None), (1, mk_node ''head'' [] [] [] (Some 0)),
      (2, mk_node ''body'' [] [] [3] (Some 0)),
      (3, mk_node ''div'' [''rst-versions''] [(''data-toggle'', ''rst-versions'')] [4] (Some 2)),
      (4, mk_node ''span'' [''rst-current-version''] [] [5, 6] (Some 3)),
      (5, mk_node ''span'' [''fa'', ''fa-book''] [] [] (Some 4)),
      (6, mk_node ''span'' [''fa'', ''fa-caret-down''] [] [] (Some 4))]"

definition flyover_no_caret_nodes :: "(nid \<times> listener node) list" where
  "flyover_no_caret_nodes =
     [(0, mk_node ''html'' [] [] [1, 2] None), (1, mk_node ''head'' [] [] [] (Some 0)),
      (2, mk_node ''body'' [] [] [3] (Some 0)),
      (3, mk_node ''div'' [''rst-versions''] [(''data-toggle'', ''rst-versions'')] [4] (Some 2)),
      (4, mk_node ''span'' [''rst-current-version''] [] [5, 6] (Some 3)),
      (5, mk_node ''span'' [''fa'', ''fa-book''] [] [] (Some 4)),
      (6, mk_node ''span'' [''version-label''] [] [] (Some 4))]"

text \<open>Previous/next buttons both above and below the content, as the theme can render them.\<close>

definition footer_buttons_nodes :: "(nid \<times> listener node) list" where
  "footer_buttons_nodes =
     [(0, mk_node ''html'' [] [] [1, 2] None), (1, mk_node ''head'' [] [] [] (Some 0)),
      (2, mk_node ''body'' [] [] [3, 6] (Some 0)),
      (3, mk_node ''div'' [''rst-footer-buttons''] [] [4, 5] (Some 2)),
      (4, mk_node ''span'' [''fa'', ''fa-arrow-circle-left''] [] [] (Some 3)),
      (5, mk_node ''span'' [''fa'', ''fa-arrow-circle-right''] [] [] (Some 3)),
      (6, mk_node ''div'' [''rst-footer-buttons''] [] [7, 8] (Some 2)),
      (7, mk_node ''span'' [''fa'', ''fa-arrow-circle-left''] [] [] (Some 6)),
      (8, mk_node ''span'' [''fa'', ''fa-arrow-circle-right''] [] [] (Some 6))]"

text \<open>The breadcrumbs bar with the theme's edit link.\<close>

definition breadcrumbs_nodes :: "(nid \<times> listener node) list" where
  "breadcrumbs_nodes =
     [(0, mk_node ''html'' [] [] [1, 2] None), (1, mk_node ''head'' [] [] [] (Some 0)),
      (2, mk_node ''body'' [] [] [3] (Some 0)),
      (3, mk_node ''li'' [''wy-breadcrumbs-aside''] [] [4] (Some 2)),
      (4, mk_node ''a'' [''fa'', ''fa-github''] [(''href'', ''https://github.com/ethereum/remix-project'')]
            [5] (Some 3)),
      (5, mk_node ''span'' [] [] [] (Some 4))]"

section \<open>The store stays a well-formed tree\<close>

lemma mk_page_simps [simp]:
  "d_nodes (mk_page ns) = map_of ns" "d_next (mk_page ns) = length ns"
  "d_root (mk_page ns) = 0" "d_head (mk_page ns) = 1" "d_body (mk_page ns) = 2"
  by (simp_all add: mk_page_def)

lemma tree_ok_wf_tree:
  assumes ok: "tree_ok ns"
  shows "wf_tree (mk_page ns)"
proof -
  have P: "map_of ns n = Some x \<Longrightarrow>
         n < length ns \<and> distinct (n_kids x)
         \<and> list_all (\<lambda>k. case map_of ns k of None \<Rightarrow> False | Some y \<Rightarrow> n_parent y = Some n) (n_kids x)
         \<and> (case n_parent x of None \<Rightarrow> True
            | Some q \<Rightarrow> (case map_of ns q of None \<Rightarrow> False | Some y \<Rightarrow> n \<in> set (n_kids y)))" for n x
  proof -
    assume m: "map_of ns n = Some x"
    then have "n \<in> set (map fst ns)" by (force dest: map_of_SomeD)
    then show ?thesis using ok m by (auto simp: tree_ok_def list_all_iff)
  qed
  show ?thesis
    unfolding wf_tree_def ids_below_def
  proof (intro conjI allI impI ballI)
    fix n assume "n \<in> dom (d_nodes (mk_page ns))"
    then obtain x where "map_of ns n = Some x" by auto
    from P [OF this] show "n < d_next (mk_page ns)" by simp
  next
    fix n show "distinct (kids_of (mk_page ns) n)"
    proof (cases "map_of ns n")
      case (Some x)
      from P [OF Some] show ?thesis using Some by (simp add: kids_of_def)
    qed (simp add: kids_of_def)
  next
    fix n k assume k: "k \<in> set (kids_of (mk_page ns) n)"
    then obtain x where x: "map_of ns n = Some x" and kx: "k \<in> set (n_kids x)"
      by (cases "map_of ns n") (auto simp: kids_of_def)
    have "case map_of ns k of None \<Rightarrow> False | Some y \<Rightarrow> n_parent y = Some n"
      using P [OF x] kx by (simp add: list_all_iff)
    then show "parent_of (mk_page ns) k = Some n"
      by (simp add: parent_of_def split: option.splits)
  next
    fix n q assume "parent_of (mk_page ns) n = Some q"
    then obtain x where x: "map_of ns n = Some x" and px: "n_parent x = Some q"
      by (auto simp: parent_of_def split: option.splits)
    have "case map_of ns q of None \<Rightarrow> False | Some y \<Rightarrow> n \<in> set (n_kids y)"
      using P [OF x] px by simp
    then show "n \<in> set (kids_of (mk_page ns) q)"
      by (simp add: kids_of_def split: option.splits)
  qed
qed

lemmas page_eval = dom_eval mk_node_def kids_of_def parent_of_def text_of_def



lemma wf_tree_page_updates [simp]:
  "wf_tree (p\<lparr>mode := v\<rparr>) = wf_tree p" "wf_tree (p\<lparr>loadedSvgs := l\<rparr>) = wf_tree p"
  "wf_tree (p\<lparr>inflight := f\<rparr>) = wf_tree p"
  by (simp_all add: wf_tree_def ids_below_def kids_of_def parent_of_def)

lemma wf_tree_when_some:
  "(\<And>n p. wf_tree p \<Longrightarrow> wf_tree (snd (f n p))) \<Longrightarrow> wf_tree p \<Longrightarrow> wf_tree (snd (when_some e f p))"
  by (simp add: when_some_def split: option.splits)

lemma wf_tree_preloadFonts: "wf_tree p \<Longrightarrow> wf_tree (preloadFonts p)"
  by (simp add: preloadFonts_def preload_font_def Let_def split_def)

lemma wf_tree_updateEditButtonLabel: "wf_tree p \<Longrightarrow> wf_tree (updateEditButtonLabel p)"
  by (simp add: updateEditButtonLabel_def split: option.splits)

lemma wf_tree_cleanSearchInput: "wf_tree p \<Longrightarrow> wf_tree (snd (cleanSearchInput p))"
  unfolding cleanSearchInput_def Let_def
  by (auto split: option.splits intro!: js_bind_preserve [where P = wf_tree] wf_tree_when_some)

lemma wf_tree_addHrUnderSearchForm: "wf_tree p \<Longrightarrow> wf_tree (snd (addHrUnderSearchForm p))"
  by (simp add: addHrUnderSearchForm_def Let_def split_def split: option.splits)

lemma wf_tree_addFooterNote: "wf_tree p \<Longrightarrow> wf_tree (snd (addFooterNote p))"
  by (simp add: addFooterNote_def Let_def split_def split: option.splits)

lemma wf_tree_updateFooterButtonIcons: "wf_tree p \<Longrightarrow> wf_tree (updateFooterButtonIcons p)"
  by (simp add: updateFooterButtonIcons_def swap_icon_def split: option.splits)

lemma wf_tree_updateFlyoverMenu: "wf_tree p \<Longrightarrow> wf_tree (snd (updateFlyoverMenu p))"
  by (simp add: updateFlyoverMenu_def Let_def split_def split: option.splits)

section \<open>Search box\<close>

lemma anchor_not_version: "sel_matches d (by_tag ''a'') n \<Longrightarrow> \<not> sel_matches d version_sel n"
  by (auto simp: by_tag_def version_sel_def matches_at_def node_matches_def split: option.splits)

lemma remove_child_kids:
  "wf_tree d \<Longrightarrow> parent_of d c = Some par \<Longrightarrow>
   remove_child par c d = (Inr (), detach c d) \<and> kids_of (detach c d) n = filter (\<lambda>k. c \<noteq> k) (kids_of d n)"
  by (simp add: remove_child_ok kids_of_detach removeAll_filter_not_eq)

text \<open>
  C11. On the theme's markup, where the logo link and the version box are children
  of the search box, \<open>cleanSearchInput\<close> succeeds and removes exactly them from the
  search box, keeping its other children in order.
\<close>

theorem cleanSearchInput_removes:
  assumes wf: "wf_tree p" and s: "query p (by_class ''wy-side-nav-search'') = Some s"
    and a: "pred_option (\<lambda>a. parent_of p a = Some s) (query_in p s (by_tag ''a''))"
    and v: "pred_option (\<lambda>v. parent_of p v = Some s) (query_in p s version_sel)"
  shows "fst (cleanSearchInput p) = Inr () \<and>
         kids_of (snd (cleanSearchInput p)) s =
           filter (\<lambda>k. query_in p s (by_tag ''a'') \<noteq> Some k \<and> query_in p s version_sel \<noteq> Some k)
             (kids_of p s)"
proof (cases "query_in p s (by_tag ''a'')")
  case None
  then show ?thesis
    using v remove_child_kids [OF wf]
    by (cases "query_in p s version_sel") (auto simp: cleanSearchInput_def s when_some_def)
next
  case (Some an)
  have pa: "parent_of p an = Some s" using a Some by simp
  show ?thesis
  proof (cases "query_in p s version_sel")
    case None
    then show ?thesis
      using Some remove_child_kids [OF wf pa] by (simp add: cleanSearchInput_def s when_some_def)
  next
    case (Some vn)
    have pv: "parent_of p vn = Some s" using v Some by simp
    have "an \<noteq> vn"
      using anchor_not_version query_in_matches \<open>query_in p s (by_tag ''a'') = Some an\<close> Some by blast
    then have pv': "parent_of (detach an p) vn = Some s" using pv by simp
    show ?thesis
      using \<open>query_in p s (by_tag ''a'') = Some an\<close> Some remove_child_kids [OF wf pa]
        remove_child_kids [OF wf_tree_detach [OF wf] pv']
      by (auto simp: cleanSearchInput_def s when_some_def intro!: filter_cong)
  qed
qed

theorem cleanSearchInput_removes_witness:
  "wf_tree (mk_page search_nodes) \<and>
   query (mk_page search_nodes) (by_class ''wy-side-nav-search'') = Some 3 \<and>
   pred_option (\<lambda>a. parent_of (mk_page search_nodes) a = Some 3)
     (query_in (mk_page search_nodes) 3 (by_tag ''a'')) \<and>
   pred_option (\<lambda>v. parent_of (mk_page search_nodes) v = Some 3)
     (query_in (mk_page search_nodes) 3 version_sel) \<and>
   fst (cleanSearchInput (mk_page search_nodes)) = Inr () \<and>
   kids_of (snd (cleanSearchInput (mk_page search_nodes))) 3 = [6]"
proof -
  have wf: "wf_tree (mk_page search_nodes)"
    by (rule tree_ok_wf_tree) (simp add: tree_ok_def search_nodes_def mk_node_def blank_node_def)
  have s: "query (mk_page search_nodes) (by_class ''wy-side-nav-search'') = Some 3"
    by (simp add: search_nodes_def page_eval)
  have qa: "query_in (mk_page search_nodes) 3 (by_tag ''a'') = Some 4"
    by (simp add: search_nodes_def page_eval)
  have qv: "query_in (mk_page search_nodes) 3 version_sel = Some 5"
    by (simp add: search_nodes_def page_eval version_sel_def)
  have a: "pred_option (\<lambda>a. parent_of (mk_page search_nodes) a = Some 3)
     (query_in (mk_page search_nodes) 3 (by_tag ''a''))"
    unfolding qa by (simp add: search_nodes_def page_eval)
  have v: "pred_option (\<lambda>v. parent_of (mk_page search_nodes) v = Some 3)
     (query_in (mk_page search_nodes) 3 version_sel)"
    unfolding qv by (simp add: search_nodes_def page_eval)
  have k: "kids_of (mk_page search_nodes) 3 = [4, 5, 6]"
    by (simp add: search_nodes_def page_eval)
  show ?thesis
    using cleanSearchInput_removes [OF wf s a v] wf s a v unfolding qa qv k by simp
qed

text \<open>
  C12. When the logo link sits deeper in the search box than a child, the
  descendant query still finds it and \<open>removeChild\<close> raises a \<open>NotFoundError\<close>:
  \<open>cleanSearchInput\<close> throws and removes nothing, not even the version box.
\<close>

theorem cleanSearchInput_nested_anchor:
  assumes "query p (by_class ''wy-side-nav-search'') = Some s"
    and "query_in p s (by_tag ''a'') = Some a" and "parent_of p a \<noteq> Some s"
  shows "cleanSearchInput p = (Inl (NotFoundError ''removeChild''), p)"
  using assms by (simp add: cleanSearchInput_def when_some_def remove_child_err)

theorem cleanSearchInput_nested_anchor_witness:
  "query (mk_page nested_search_nodes) (by_class ''wy-side-nav-search'') = Some 3 \<and>
   query_in (mk_page nested_search_nodes) 3 (by_tag ''a'') = Some 5 \<and>
   parent_of (mk_page nested_search_nodes) 5 \<noteq> Some 3 \<and>
   cleanSearchInput (mk_page nested_search_nodes) =
     (Inl (NotFoundError ''removeChild''), mk_page nested_search_nodes)"
proof -
  have s: "query (mk_page nested_search_nodes) (by_class ''wy-side-nav-search'') = Some 3"
    by (simp add: nested_search_nodes_def page_eval)
  have a: "query_in (mk_page nested_search_nodes) 3 (by_tag ''a'') = Some 5"
    by (simp add: nested_search_nodes_def page_eval)
  have p: "parent_of (mk_page nested_search_nodes) 5 \<noteq> Some 3"
    by (simp add: nested_search_nodes_def page_eval)
  show ?thesis using cleanSearchInput_nested_anchor [OF s a p] s a p by simp
qed

section \<open>Separator and footer note\<close>

lemma create_element_fresh:
  fixes t :: string
  assumes wf: "wf_tree p"
  shows "kids_of (snd (create_element t p)) = kids_of p"
    and "parent_of (snd (create_element t p)) = parent_of p"
    and "d_nodes (snd (create_element t p)) (d_next p) \<noteq> None"
    and "d_next p \<notin> set (kids_of p n)"
    and "kids_of p (d_next p) = []"
proof -
  have i: "ids_below p" using wf ..
  show "kids_of (snd (create_element t p)) = kids_of p" "parent_of (snd (create_element t p)) = parent_of p"
    using create_element_kids_parent [OF i] by simp_all
  show "d_nodes (snd (create_element t p)) (d_next p) \<noteq> None" by (simp add: create_element_def)
  show "d_next p \<notin> set (kids_of p n)" using wf_tree_missing_not_kid [OF wf ids_below_fresh [OF i]] .
  show "kids_of p (d_next p) = []" using ids_below_fresh [OF i] by (simp add: kids_of_def)
qed

text \<open>
  C13. When the vertical menu has a parent, \<open>addHrUnderSearchForm\<close> succeeds and puts
  the new rule in that parent immediately in front of the menu.
\<close>

theorem addHrUnderSearchForm_before_menu:
  assumes wf: "wf_tree p" and v: "query p vertical_menu_sel = Some v" and u: "parent_of p v = Some u"
  shows "fst (addHrUnderSearchForm p) = Inr () \<and>
         parent_of (snd (addHrUnderSearchForm p)) (d_next p) = Some u \<and>
         next_sibling (snd (addHrUnderSearchForm p)) (d_next p) = Some v"
proof -
  let ?p1 = "snd (create_element ''hr'' p)"
  note F = create_element_fresh [OF wf]
  have wf1: "wf_tree ?p1" using wf by simp
  have u1: "parent_of ?p1 v = Some u" using u F(2) by simp
  have e: "addHrUnderSearchForm p = insert_before u (d_next p) (Some v) ?p1"
    using u1 v by (simp add: addHrUnderSearchForm_def Let_def split_def)
  have vin: "v \<in> set (kids_of p u)" using wf_tree_kid [OF wf u] .
  have K: "kids_of (snd (insert_before u (d_next p) (Some v) ?p1)) u = ins_before (d_next p) v (kids_of p u)"
    using insert_before_kids_parent(1) [OF wf1 u1 F(3), of u] F(1,4) by simp
  have P: "parent_of (snd (insert_before u (d_next p) (Some v) ?p1)) (d_next p) = Some u"
    using insert_before_kids_parent(2) [OF wf1 u1 F(3)] by simp
  show ?thesis
    unfolding e using insert_before_Some [OF wf1 u1 F(3)] K P next_in_ins_before_self [OF F(4) vin]
    by (simp add: next_sibling_def)
qed

theorem addHrUnderSearchForm_before_menu_witness:
  "wf_tree (mk_page side_nav_nodes) \<and> query (mk_page side_nav_nodes) vertical_menu_sel = Some 5 \<and>
   parent_of (mk_page side_nav_nodes) 5 = Some 3 \<and>
   fst (addHrUnderSearchForm (mk_page side_nav_nodes)) = Inr () \<and>
   parent_of (snd (addHrUnderSearchForm (mk_page side_nav_nodes))) 6 = Some 3 \<and>
   next_sibling (snd (addHrUnderSearchForm (mk_page side_nav_nodes))) 6 = Some 5"
proof -
  have wf: "wf_tree (mk_page side_nav_nodes)"
    by (rule tree_ok_wf_tree) (simp add: tree_ok_def side_nav_nodes_def mk_node_def blank_node_def)
  have v: "query (mk_page side_nav_nodes) vertical_menu_sel = Some 5"
    by (simp add: side_nav_nodes_def page_eval vertical_menu_sel_def)
  have u: "parent_of (mk_page side_nav_nodes) 5 = Some 3"
    by (simp add: side_nav_nodes_def page_eval)
  have n: "d_next (mk_page side_nav_nodes) = 6" by (simp add: side_nav_nodes_def)
  show ?thesis using addHrUnderSearchForm_before_menu [OF wf v u] wf v u unfolding n by simp
qed

lemma footer_prefix:
  assumes wf: "wf_tree p"
  defines "p3 \<equiv> set_text (d_next p) footer_note_html
                  (class_add (d_next p) ''footer-note'' (snd (create_element ''p'' p)))"
  shows "wf_tree p3" "kids_of p3 = kids_of p" "parent_of p3 = parent_of p"
    "d_nodes p3 (d_next p) \<noteq> None" "text_of p3 (d_next p) = Some footer_note_html"
    "has_class p3 (d_next p) ''footer-note''"
proof -
  note F = create_element_fresh [OF wf]
  let ?p2 = "class_add (d_next p) ''footer-note'' (snd (create_element ''p'' p))"
  have wf2: "wf_tree ?p2" using wf by simp
  have k2: "kids_of ?p2 (d_next p) = []" using F(1,5) by simp
  note T = set_text_tree [OF wf2, of "d_next p" footer_note_html]
  show "wf_tree p3" unfolding p3_def using T by blast
  show "kids_of p3 = kids_of p" unfolding p3_def using T k2 F(1) by (simp add: fun_eq_iff)
  show "parent_of p3 = parent_of p" unfolding p3_def using T k2 F(2) by (simp add: fun_eq_iff)
  have ex2: "d_nodes ?p2 (d_next p) \<noteq> None" unfolding class_add_def using F(3)
    by (simp only: d_nodes_map_node_None not_False_eq_True)
  then show "d_nodes p3 (d_next p) \<noteq> None" unfolding p3_def
    by (simp only: d_nodes_set_text_None not_False_eq_True)
  from ex2 obtain z where "d_nodes ?p2 (d_next p) = Some z" by blast
  then show "text_of p3 (d_next p) = Some footer_note_html" unfolding p3_def
    by (simp add: text_of_set_text)
  show "has_class p3 (d_next p) ''footer-note''" unfolding p3_def using F(3)
    by (simp add: has_class_class_add)
qed

text \<open>
  C14. When the content-info block has a parent, \<open>addFooterNote\<close> succeeds and puts
  a paragraph of class \<open>footer-note\<close> with the credit markup immediately after the
  block, whether the block was the last child or had a next sibling.
\<close>

theorem addFooterNote_after_content_info:
  assumes wf: "wf_tree p" and ci: "query p content_info_sel = Some c" and u: "parent_of p c = Some u"
  shows "fst (addFooterNote p) = Inr () \<and>
         parent_of (snd (addFooterNote p)) (d_next p) = Some u \<and>
         next_sibling (snd (addFooterNote p)) c = Some (d_next p) \<and>
         text_of (snd (addFooterNote p)) (d_next p) = Some footer_note_html \<and>
         has_class (snd (addFooterNote p)) (d_next p) ''footer-note''"
proof -
  let ?fn = "d_next p"
  let ?p3 = "set_text ?fn footer_note_html (class_add ?fn ''footer-note'' (snd (create_element ''p'' p)))"
  note P = footer_prefix [OF wf]
  note F = create_element_fresh [OF wf]
  have e: "addFooterNote p = insert_before u ?fn (next_in c (kids_of p u)) ?p3"
    using ci u P(2,3) by (simp add: addFooterNote_def Let_def split_def next_sibling_def)
  have cin: "c \<in> set (kids_of p u)" using wf_tree_kid [OF wf u] .
  have cfn: "c \<noteq> ?fn" using cin F(4) by blast
  have u3: "parent_of ?p3 c = Some u" using u P(3) by simp
  have ex_u: "d_nodes ?p3 u \<noteq> None" using wf_tree_parent_exists [OF P(1) u3] .
  have place: "fst (addFooterNote p) = Inr () \<and> parent_of (snd (addFooterNote p)) ?fn = Some u \<and>
               next_in c (kids_of (snd (addFooterNote p)) u) = Some ?fn \<and>
               parent_of (snd (addFooterNote p)) c = Some u"
  proof (cases "next_in c (kids_of p u)")
    case None
    show ?thesis
      unfolding e None using append_child_kids_parent [OF P(1) ex_u P(4)] P(2,3) u cfn
        next_in_None_append [OF cin None cfn [symmetric]] F(4)
      by (simp add: insert_before_def)
  next
    case (Some r)
    have r3: "parent_of ?p3 r = Some u"
      using wf_tree_parent [OF wf next_in_mem [OF Some]] P(3) by simp
    show ?thesis
      unfolding e Some using insert_before_kids_parent [OF P(1) r3 P(4)] P(2,3) u cfn
        insert_before_Some [OF P(1) r3 P(4)]
        next_in_ins_before_after [OF wf_tree_distinct [OF wf] Some F(4)] removeAll_id [OF F(4)]
      by simp
  qed
  show ?thesis
    using place P(5,6) e by (simp add: next_sibling_def)
qed

theorem addFooterNote_after_content_info_witness:
  "wf_tree (mk_page footer_nodes) \<and> query (mk_page footer_nodes) content_info_sel = Some 4 \<and>
   parent_of (mk_page footer_nodes) 4 = Some 3 \<and>
   fst (addFooterNote (mk_page footer_nodes)) = Inr () \<and>
   parent_of (snd (addFooterNote (mk_page footer_nodes))) 6 = Some 3 \<and>
   next_sibling (snd (addFooterNote (mk_page footer_nodes))) 4 = Some 6 \<and>
   text_of (snd (addFooterNote (mk_page footer_nodes))) 6 = Some footer_note_html \<and>
   has_class (snd (addFooterNote (mk_page footer_nodes))) 6 ''footer-note''"
proof -
  have wf: "wf_tree (mk_page footer_nodes)"
    by (rule tree_ok_wf_tree) (simp add: tree_ok_def footer_nodes_def mk_node_def blank_node_def)
  have c: "query (mk_page footer_nodes) content_info_sel = Some 4"
    by (simp add: footer_nodes_def page_eval content_info_sel_def)
  have u: "parent_of (mk_page footer_nodes) 4 = Some 3"
    by (simp add: footer_nodes_def page_eval)
  have n: "d_next (mk_page footer_nodes) = 6" by (simp add: footer_nodes_def)
  show ?thesis using addFooterNote_after_content_info [OF wf c u] wf c u unfolding n by simp
qed

section \<open>Flyover menu\<close>

lemma flyover_prefix:
  assumes wf: "wf_tree p" and v: "d_nodes p v \<noteq> None" and l: "d_nodes p l \<noteq> None"
    and lk: "kids_of p l = []" and lv: "l \<noteq> v"
  defines "p3 \<equiv> append_child v l (set_text v [] (set_text l ''RTD'' p))"
  shows "wf_tree p3" "kids_of p3 v = [l]" "text_of p3 l = Some ''RTD''" "d_next p3 = d_next p"
    "\<And>m. (d_nodes p3 m = None) = (d_nodes p m = None)"
proof -
  let ?p1 = "set_text l ''RTD'' p" and ?p2 = "set_text v [] (set_text l ''RTD'' p)"
  have wf2: "wf_tree ?p2" using wf by simp
  have v2: "d_nodes ?p2 v \<noteq> None" and l2: "d_nodes ?p2 l \<noteq> None" using v l by simp_all
  have k2: "kids_of ?p2 v = []" using wf by (simp add: kids_of_set_text_self)
  have t2: "text_of ?p2 l = Some ''RTD''" using l lv by (auto simp: text_of_set_text)
  show "wf_tree p3" unfolding p3_def using wf2 by simp
  show "kids_of p3 v = [l]" unfolding p3_def using append_child_kids_parent(1) [OF wf2 v2 l2, of v] k2 by simp
  show "text_of p3 l = Some ''RTD''" unfolding p3_def using t2 by simp
  show "d_next p3 = d_next p" unfolding p3_def by simp
  show "\<And>m. (d_nodes p3 m = None) = (d_nodes p m = None)" unfolding p3_def by simp
qed

text \<open>
  C15. On a version box whose book icon has no element children and whose caret is
  another node, \<open>updateFlyoverMenu\<close> succeeds and leaves the box with exactly three
  children, the icon relabelled \<open>RTD\<close>, the caret, and a new span \<open>Latest\<close>.
\<close>

theorem updateFlyoverMenu_rebuilds:
  assumes wf: "wf_tree p" and v: "query p (by_class ''rst-current-version'') = Some v"
    and l: "query_in p v fa_book_sel = Some l" and lk: "kids_of p l = []"
    and c: "query_in p v fa_caret_sel = Some c" and lv: "l \<noteq> v" and cl: "c \<noteq> l"
  shows "fst (updateFlyoverMenu p) = Inr () \<and>
         kids_of (snd (updateFlyoverMenu p)) v = [l, c, d_next p] \<and>
         text_of (snd (updateFlyoverMenu p)) l = Some ''RTD'' \<and>
         text_of (snd (updateFlyoverMenu p)) (d_next p) = Some ''Latest''"
proof -
  have ve: "d_nodes p v \<noteq> None" using query_exists [OF v] .
  have le: "d_nodes p l \<noteq> None" using query_in_exists [OF l] .
  have ce: "d_nodes p c \<noteq> None" using query_in_exists [OF c] .
  let ?p3 = "append_child v l (set_text v [] (set_text l ''RTD'' p))"
  note P = flyover_prefix [OF wf ve le lk lv]
  let ?p4 = "append_child v c ?p3"
  let ?p5 = "snd (create_element ''span'' ?p4)"
  let ?sp = "d_next p"
  let ?p6 = "set_text ?sp ''Latest'' ?p5"
  have e: "updateFlyoverMenu p = (Inr (), append_child v ?sp ?p6)"
    using v l c query_in_set_text_leaf [OF lk] P(4)
    by (simp add: updateFlyoverMenu_def Let_def split_def)
  have wf4: "wf_tree ?p4" using P(1) by simp
  have v3: "d_nodes ?p3 v \<noteq> None" and c3: "d_nodes ?p3 c \<noteq> None" using ve ce P(5) by auto
  have k4: "kids_of ?p4 v = [l, c]"
    using append_child_kids_parent(1) [OF P(1) v3 c3, of v] P(2) cl by simp
  have n4: "d_next ?p4 = ?sp" using P(4) by simp
  note F = create_element_fresh [OF wf4]
  have wf6: "wf_tree ?p6" using wf4 by simp
  have k6: "kids_of ?p6 = kids_of ?p5"
    using set_text_tree [OF wf_tree_create_element [OF wf4], of ?sp "''Latest''"] F(1,5) n4
    by (simp add: fun_eq_iff)
  have v6: "d_nodes ?p6 v \<noteq> None" using v3 by simp
  have sp6: "d_nodes ?p6 ?sp \<noteq> None" using F(3) [where t = "''span''"] n4 by simp
  have fresh: "?sp \<notin> {l, c}" using le ce ids_below_fresh [OF wf_tree_ids_below [OF wf]] by auto
  have kids: "kids_of (append_child v ?sp ?p6) v = [l, c, ?sp]"
    using append_child_kids_parent(1) [OF wf6 v6 sp6, of v] k6 F(1) k4 fresh by simp
  have tl: "text_of (append_child v ?sp ?p6) l = Some ''RTD''"
    using P(3) fresh n4 by (simp add: text_of_set_text content_create_element)
  have "d_nodes ?p5 ?sp \<noteq> None" using n4 by simp
  then obtain z where "d_nodes ?p5 ?sp = Some z" by blast
  then have ts: "text_of (append_child v ?sp ?p6) ?sp = Some ''Latest''"
    by (simp add: text_of_set_text)
  show ?thesis unfolding e using kids tl ts by simp
qed

text \<open>
  C16. Without a caret in the version box, \<open>updateFlyoverMenu\<close> throws a
  \<open>TypeError\<close> at \<open>appendChild(null)\<close> after it has emptied the box: the box is left
  holding only the relabelled book icon.
\<close>

theorem updateFlyoverMenu_no_caret:
  assumes wf: "wf_tree p" and v: "query p (by_class ''rst-current-version'') = Some v"
    and l: "query_in p v fa_book_sel = Some l" and lk: "kids_of p l = []"
    and c: "query_in p v fa_caret_sel = None" and lv: "l \<noteq> v"
  shows "fst (updateFlyoverMenu p) = Inl (TypeError ''appendChild'') \<and>
         kids_of (snd (updateFlyoverMenu p)) v = [l] \<and>
         text_of (snd (updateFlyoverMenu p)) l = Some ''RTD''"
proof -
  note P = flyover_prefix [OF wf query_exists [OF v] query_in_exists [OF l] lk lv]
  have e: "updateFlyoverMenu p =
             (Inl (TypeError ''appendChild''), append_child v l (set_text v [] (set_text l ''RTD'' p)))"
    using v l c query_in_set_text_leaf [OF lk] by (simp add: updateFlyoverMenu_def Let_def)
  show ?thesis unfolding e using P(2,3) by simp
qed

theorem updateFlyoverMenu_rebuilds_witness:
  "wf_tree (mk_page flyover_nodes) \<and>
   query (mk_page flyover_nodes) (by_class ''rst-current-version'') = Some 4 \<and>
   query_in (mk_page flyover_nodes) 4 fa_book_sel = Some 5 \<and> kids_of (mk_page flyover_nodes) 5 = [] \<and>
   query_in (mk_page flyover_nodes) 4 fa_caret_sel = Some 6 \<and> (5::nat) \<noteq> 4 \<and> (6::nat) \<noteq> 5 \<and>
   fst (updateFlyoverMenu (mk_page flyover_nodes)) = Inr () \<and>
   kids_of (snd (updateFlyoverMenu (mk_page flyover_nodes))) 4 = [5, 6, 7] \<and>
   text_of (snd (updateFlyoverMenu (mk_page flyover_nodes))) 5 = Some ''RTD'' \<and>
   text_of (snd (updateFlyoverMenu (mk_page flyover_nodes))) 7 = Some ''Latest''"
proof -
  have wf: "wf_tree (mk_page flyover_nodes)"
    by (rule tree_ok_wf_tree) (simp add: tree_ok_def flyover_nodes_def mk_node_def blank_node_def)
  have v: "query (mk_page flyover_nodes) (by_class ''rst-current-version'') = Some 4"
    by (simp add: flyover_nodes_def page_eval)
  have l: "query_in (mk_page flyover_nodes) 4 fa_book_sel = Some 5"
    by (simp add: flyover_nodes_def page_eval fa_book_sel_def)
  have lk: "kids_of (mk_page flyover_nodes) 5 = []"
    by (simp add: flyover_nodes_def page_eval)
  have c: "query_in (mk_page flyover_nodes) 4 fa_caret_sel = Some 6"
    by (simp add: flyover_nodes_def page_eval fa_caret_sel_def)
  have n: "d_next (mk_page flyover_nodes) = 7" by (simp add: flyover_nodes_def)
  have d: "(5::nat) \<noteq> 4" "(6::nat) \<noteq> 5" by simp_all
  show ?thesis
    using updateFlyoverMenu_rebuilds [OF wf v l lk c d] wf v l lk c d unfolding n by simp
qed

theorem updateFlyoverMenu_no_caret_witness:
  "wf_tree (mk_page flyover_no_caret_nodes) \<and>
   query (mk_page flyover_no_caret_nodes) (by_class ''rst-current-version'') = Some 4 \<and>
   query_in (mk_page flyover_no_caret_nodes) 4 fa_book_sel = Some 5 \<and>
   kids_of (mk_page flyover_no_caret_nodes) 5 = [] \<and>
   query_in (mk_page flyover_no_caret_nodes) 4 fa_caret_sel = None \<and> (5::nat) \<noteq> 4 \<and>
   fst (updateFlyoverMenu (mk_page flyover_no_caret_nodes)) = Inl (TypeError ''appendChild'') \<and>
   kids_of (snd (updateFlyoverMenu (mk_page flyover_no_caret_nodes))) 4 = [5] \<and>
   text_of (snd (updateFlyoverMenu (mk_page flyover_no_caret_nodes))) 5 = Some ''RTD''"
proof -
  have wf: "wf_tree (mk_page flyover_no_caret_nodes)"
    by (rule tree_ok_wf_tree) (simp add: tree_ok_def flyover_no_caret_nodes_def mk_node_def blank_node_def)
  have v: "query (mk_page flyover_no_caret_nodes) (by_class ''rst-current-version'') = Some 4"
    by (simp add: flyover_no_caret_nodes_def page_eval)
  have l: "query_in (mk_page flyover_no_caret_nodes) 4 fa_book_sel = Some 5"
    by (simp add: flyover_no_caret_nodes_def page_eval fa_book_sel_def)
  have lk: "kids_of (mk_page flyover_no_caret_nodes) 5 = []"
    by (simp add: flyover_no_caret_nodes_def page_eval)
  have c: "query_in (mk_page flyover_no_caret_nodes) 4 fa_caret_sel = None"
    by (simp add: flyover_no_caret_nodes_def page_eval fa_caret_sel_def)
  have d: "(5::nat) \<noteq> 4" by simp
  show ?thesis using updateFlyoverMenu_no_caret [OF wf v l lk c d] wf v l lk c d by simp
qed

section \<open>Footer button icons\<close>

lemma sel_classes_by_class [simp]: "sel_classes (by_class c) = [c]"
  by (simp add: by_class_def)

lemma swap_icon_self:
  "new \<noteq> old \<Longrightarrow>
   query_all (swap_icon old new p) (by_class old) =
     filter (\<lambda>n. query p (by_class old) \<noteq> Some n) (query_all p (by_class old))"
  by (auto simp: swap_icon_def query_all_class_remove_self class_add_toggle query_all_class_toggle
      split: option.splits intro!: filter_cong)

lemma swap_icon_other:
  assumes "c \<noteq> old" "c \<noteq> new"
  shows "query_all (swap_icon old new p) (by_class c) = query_all p (by_class c)"
    and "query (swap_icon old new p) (by_class c) = query p (by_class c)"
  using assms
  by (auto simp: swap_icon_def class_remove_toggle class_add_toggle query_all_class_toggle
      query_class_toggle split: option.splits)

lemma has_class_swap_icon:
  "new \<noteq> old \<Longrightarrow> has_class (swap_icon old new p) n c =
     (if query p (by_class old) = Some n \<and> (c = old \<or> c = new) then c = new else has_class p n c)"
  using query_exists [of p "by_class old" n]
  by (auto simp: swap_icon_def class_remove_toggle class_add_toggle has_class_class_toggle_Some
      split: option.splits)

text \<open>
  C17. \<open>updateFooterButtonIcons\<close> converts the first right arrow and the first left
  arrow of the page (\<open>querySelector\<close>), and only those: each of them gains its caret
  class and loses its arrow class, and every other arrow keeps its old class.
\<close>

theorem updateFooterButtonIcons_first_only:
  "query_all (updateFooterButtonIcons p) (by_class ''fa-arrow-circle-right'') =
     filter (\<lambda>n. query p (by_class ''fa-arrow-circle-right'') \<noteq> Some n)
       (query_all p (by_class ''fa-arrow-circle-right'')) \<and>
   query_all (updateFooterButtonIcons p) (by_class ''fa-arrow-circle-left'') =
     filter (\<lambda>n. query p (by_class ''fa-arrow-circle-left'') \<noteq> Some n)
       (query_all p (by_class ''fa-arrow-circle-left'')) \<and>
   (case query p (by_class ''fa-arrow-circle-right'') of None \<Rightarrow> True
    | Some r \<Rightarrow> has_class (updateFooterButtonIcons p) r ''fa-caret-right'') \<and>
   (case query p (by_class ''fa-arrow-circle-left'') of None \<Rightarrow> True
    | Some l \<Rightarrow> has_class (updateFooterButtonIcons p) l ''fa-caret-left'')"
  by (simp add: updateFooterButtonIcons_def swap_icon_self swap_icon_other has_class_swap_icon
      split: option.splits)

theorem updateFooterButtonIcons_first_only_witness:
  "query_all (mk_page footer_buttons_nodes) (by_class ''fa-arrow-circle-right'') = [5, 8] \<and>
   query_all (updateFooterButtonIcons (mk_page footer_buttons_nodes)) (by_class ''fa-arrow-circle-right'') = [8] \<and>
   query_all (updateFooterButtonIcons (mk_page footer_buttons_nodes)) (by_class ''fa-arrow-circle-left'') = [7] \<and>
   has_class (updateFooterButtonIcons (mk_page footer_buttons_nodes)) 5 ''fa-caret-right'' \<and>
   has_class (updateFooterButtonIcons (mk_page footer_buttons_nodes)) 4 ''fa-caret-left''"
proof -
  have r: "query_all (mk_page footer_buttons_nodes) (by_class ''fa-arrow-circle-right'') = [5, 8]"
    by (simp add: footer_buttons_nodes_def page_eval)
  have l: "query_all (mk_page footer_buttons_nodes) (by_class ''fa-arrow-circle-left'') = [4, 7]"
    by (simp add: footer_buttons_nodes_def page_eval)
  show ?thesis
    using updateFooterButtonIcons_first_only [of "mk_page footer_buttons_nodes"] r l
    by (simp add: query_def)
qed

section \<open>Fonts and edit button\<close>

text \<open>
  C18. \<open>preloadFonts\<close> appends to the head one new \<open>link\<close> element, a font preload
  of \<open>_static/fonts/Helvetica.ttc\<close>, after the head's existing children.
\<close>

theorem preloadFonts_appends_link:
  assumes wf: "wf_tree p" and h: "d_nodes p (d_head p) \<noteq> None"
  shows "kids_of (preloadFonts p) (d_head p) = kids_of p (d_head p) @ [d_next p] \<and>
         get_attribute (preloadFonts p) (d_next p) ''rel'' = Some ''preload'' \<and>
         get_attribute (preloadFonts p) (d_next p) ''as'' = Some ''font'' \<and>
         get_attribute (preloadFonts p) (d_next p) ''href'' = Some ''_static/fonts/Helvetica.ttc''"
proof -
  let ?p1 = "snd (create_element ''link'' p)"
  let ?p5 = "set_attribute (d_next p) ''crossorigin'' []
              (set_attribute (d_next p) ''href'' ''_static/fonts/Helvetica.ttc''
                (set_attribute (d_next p) ''as'' ''font''
                  (set_attribute (d_next p) ''rel'' ''preload'' ?p1)))"
  note F = create_element_fresh [OF wf]
  have e: "preloadFonts p = append_child (d_head p) (d_next p) ?p5"
    by (simp add: preloadFonts_def preload_font_def Let_def split_def)
  have wf5: "wf_tree ?p5" using wf by simp
  have h5: "d_nodes ?p5 (d_head p) \<noteq> None" using h by (simp add: set_attribute_def)
  have l5: "d_nodes ?p5 (d_next p) \<noteq> None" by (simp add: set_attribute_def)
  have k: "kids_of (append_child (d_head p) (d_next p) ?p5) (d_head p) = kids_of p (d_head p) @ [d_next p]"
    using append_child_kids_parent(1) [OF wf5 h5 l5, of "d_head p"] F(1,4) by simp
  show ?thesis
    unfolding e using k by (simp add: get_set_attribute get_attribute_create_element)
qed

lemma wf_tree_empty_page: "wf_tree (empty_page md)"
proof -
  have "empty_page md = (mk_page [(0, mk_node ''html'' [] [] [1, 2] None),
          (1, mk_node ''head'' [] [] [] (Some 0)), (2, mk_node ''body'' [] [] [] (Some 0))])\<lparr>mode := md\<rparr>"
    by (simp add: empty_page_def mk_page_def mk_node_def blank_node_def fun_eq_iff)
  moreover have "wf_tree (mk_page [(0, mk_node ''html'' [] [] [1, 2] None),
          (1, mk_node ''head'' [] [] [] (Some 0)), (2, mk_node ''body'' [] [] [] (Some 0))])"
    by (rule tree_ok_wf_tree) (simp add: tree_ok_def mk_node_def blank_node_def)
  ultimately show ?thesis by simp
qed

theorem preloadFonts_appends_link_witness:
  "wf_tree (empty_page ''light'') \<and> d_nodes (empty_page ''light'') (d_head (empty_page ''light'')) \<noteq> None \<and>
   kids_of (preloadFonts (empty_page ''light'')) 1 = [3] \<and>
   get_attribute (preloadFonts (empty_page ''light'')) 3 ''href'' = Some ''_static/fonts/Helvetica.ttc''"
proof -
  have wf: "wf_tree (empty_page ''light'')" by (rule wf_tree_empty_page)
  have h: "d_nodes (empty_page ''light'') (d_head (empty_page ''light'')) \<noteq> None"
    by (simp add: empty_page_def)
  have k: "kids_of (empty_page ''light'') 1 = []" by (simp add: empty_page_def kids_of_def blank_node_def)
  have n: "d_next (empty_page ''light'') = 3" "d_head (empty_page ''light'') = 1"
    by (simp_all add: empty_page_def)
  show ?thesis using preloadFonts_appends_link [OF wf h] wf h k unfolding n by simp
qed

text \<open>
  C19. \<open>updateEditButtonLabel\<close> leaves the page alone when there is no edit link, and
  otherwise makes the link's content the text \<open>Edit on GitHub\<close>, with no element
  children left.
\<close>

theorem updateEditButtonLabel_label:
  assumes wf: "wf_tree p"
  shows "(case query p edit_button_sel of
            None \<Rightarrow> updateEditButtonLabel p = p
          | Some e \<Rightarrow> text_of (updateEditButtonLabel p) e = Some ''Edit on GitHub'' \<and>
                      kids_of (updateEditButtonLabel p) e = [])"
proof (cases "query p edit_button_sel")
  case (Some e)
  have "d_nodes p e \<noteq> None" using query_exists [OF Some] .
  then show ?thesis
    using Some kids_of_set_text_self [OF wf] by (auto simp: updateEditButtonLabel_def text_of_set_text)
qed (simp add: updateEditButtonLabel_def)

theorem updateEditButtonLabel_label_witness:
  "wf_tree (mk_page breadcrumbs_nodes) \<and> query (mk_page breadcrumbs_nodes) edit_button_sel = Some 4 \<and>
   text_of (updateEditButtonLabel (mk_page breadcrumbs_nodes)) 4 = Some ''Edit on GitHub'' \<and>
   kids_of (updateEditButtonLabel (mk_page breadcrumbs_nodes)) 4 = []"
proof -
  have wf: "wf_tree (mk_page breadcrumbs_nodes)"
    by (rule tree_ok_wf_tree) (simp add: tree_ok_def breadcrumbs_nodes_def mk_node_def blank_node_def)
  have q: "query (mk_page breadcrumbs_nodes) edit_button_sel = Some 4"
    by (simp add: breadcrumbs_nodes_def page_eval edit_button_sel_def)
  show ?thesis using updateEditButtonLabel_label [OF wf] wf q by simp
qed

section \<open>The handlers of the other components keep the tree\<close>

lemma wf_tree_build_theme_item: "wf_tree p \<Longrightarrow> wf_tree (build_theme_item m x p)"
  by (simp add: build_theme_item_def Let_def split_def appendSvg_def start_fetch_def)

lemma wf_tree_build_theme_menu: "wf_tree p \<Longrightarrow> wf_tree (snd (snd (build_theme_menu modes md c p)))"
  unfolding build_theme_menu_eq
  by (simp add: appendSvg_def start_fetch_def fold_invariant [where Q = "\<lambda>_. True"]
      wf_tree_build_theme_item)

lemma wf_tree_theme_button_click: "wf_tree p \<Longrightarrow> wf_tree (theme_button_click m p)"
  by (simp add: theme_button_click_def Let_def)

lemma wf_tree_theme_item_click: "wf_tree p \<Longrightarrow> wf_tree (snd (theme_item_click modes v p))"
  unfolding theme_item_click_def
  by (rule js_bind_preserve)
     (auto simp: setColorMode_def render_mode_icon_def closeThemeMenu_def split: option.splits)

lemma wf_tree_toggleMenu: "wf_tree p \<Longrightarrow> wf_tree (snd (toggleMenu f p))"
  unfolding toggleMenu_def
  by (intro js_bind_preserve [where P = wf_tree] js_forEach_preserve [where P = wf_tree])
     (auto simp: handleClassToggle_def split: option.splits)

lemma wf_tree_complete: "wf_tree p \<Longrightarrow> wf_tree (complete i r p)"
  by (auto simp: complete_def Let_def run_task_def store_icon_def append_svg_markup_def split_def
      split: fetch_outcome.splits task.splits sum.splits)

end
