(* ===== verification/Navigation.thy ===== *)
theory Navigation
  imports Assembly
begin

text \<open>
  The rest of \<open>buildHeader\<close> (lines 120--274): the navigation bar built from
  \<open>NAV_LINKS\<close> (lines 147--209), with plain links and dropdowns of external links,
  the button container, the mobile menu button (lines 265--273), and the whole
  function composed with the theme part of \<open>Header\<close>. The constants the function
  reads from the theme's other scripts (\<open>NAV_LINKS\<close>, \<open>REMIX_HOME_URL\<close>,
  \<open>REMIX_DOCS_URL\<close>, the icon paths and classes) are not in the sources; they are
  a parameter \<open>header_config\<close> of the model, so every result holds for any value
  of them.
\<close>

section \<open>Navigation items\<close>

text \<open>
  \<open>type NavItem = { name: string } & ({ href: string } | { items: NavItem[] })\<close>
  (line 148). The fields are optional in JavaScript, so both are options here; the
  dropdown entries use \<open>name\<close> and \<open>href\<close> only.
\<close>

datatype nav_leaf = NavLeaf (nl_name: string) (nl_href: "string option")

datatype nav_item = NavItem (ni_name: string) (ni_href: "string option") (ni_items: "nav_leaf list option")

record header_config =
  hc_nav_links :: "nav_item list"
  hc_home_url :: string
  hc_docs_url :: string
  hc_logo_path :: string
  hc_logo_class :: string
  hc_chevron_path :: string
  hc_ne_arrow_path :: string
  hc_hamburger_path :: string
  hc_mobile_icon_class :: string

text \<open>\<open>String(v)\<close> of an optional string, as \<open>setAttribute\<close> stores it.\<close>

definition opt_string :: "string option \<Rightarrow> string" where
  "opt_string h = (case h of None \<Rightarrow> ''undefined'' | Some s \<Rightarrow> s)"

text \<open>One entry of a dropdown (lines 192--203); \<open>href.startsWith\<close> of a missing \<open>href\<close> throws.\<close>

definition build_nav_leaf :: "header_config \<Rightarrow> nav_leaf \<Rightarrow> page \<Rightarrow> (page, nid) js_result" where
  "build_nav_leaf cfg it p0 =
     (let (item, p1) = create_element ''a'' p0;
          p2 = class_add item ''dropdown-item'' p1;
          p3 = set_attribute item ''key'' (nl_name it) p2;
          p4 = set_attribute item ''href'' (opt_string (nl_href it)) p3;
          p5 = set_attribute item ''aria-label'' (nl_name it) p4
      in case nl_href it of
           None \<Rightarrow> (Inl (TypeError ''startsWith''), p5)
         | Some h \<Rightarrow>
             (let p6 = (if starts_with ''http'' h
                        then set_attribute item ''rel'' ''noopener noreferrer''
                               (set_attribute item ''target'' ''_blank'' p5)
                        else p5);
                  p7 = set_text item (nl_name it) p6;
                  p8 = appendSvg (hc_ne_arrow_path cfg) item ''external-link-icon'' p7
              in (Inr item, p8)))"

text \<open>A plain link (lines 152--165).\<close>

definition build_nav_link :: "header_config \<Rightarrow> string \<Rightarrow> string \<Rightarrow> page \<Rightarrow> nid \<times> page" where
  "build_nav_link cfg name href p0 =
     (let (link, p1) = create_element ''a'' p0;
          p2 = class_add link ''nav-link'' p1;
          p3 = set_attribute link ''key'' name p2;
          p4 = set_attribute link ''href'' href p3;
          p5 = set_attribute link ''aria-label'' name p4;
          p6 = set_text link name p5;
          p7 = (if href = hc_docs_url cfg then class_add link ''active'' p6 else p6);
          p8 = (if starts_with ''http'' href \<and> href \<noteq> hc_home_url cfg
                then set_attribute link ''rel'' ''noopener noreferrer''
                       (set_attribute link ''target'' ''_blank'' p7)
                else p7)
      in (link, p8))"

text \<open>A dropdown (lines 169--206): the button that toggles it, the box of entries.\<close>

definition build_nav_dropdown ::
  "header_config \<Rightarrow> string \<Rightarrow> nav_leaf list \<Rightarrow> page \<Rightarrow> (page, nid) js_result" where
  "build_nav_dropdown cfg name items p0 =
     (let (dropdown, p1) = create_element ''div'' p0;
          p2 = class_add dropdown ''nav-dropdown'' p1;
          p3 = set_attribute dropdown ''key'' name p2;
          (button, p4) = create_element ''button'' p3;
          p5 = class_add button ''nav-link'' p4;
          p6 = class_add button ''dropdown-button'' p5;
          p7 = set_attribute button ''id'' ''dropdown-button'' p6;
          p8 = set_text button name p7;
          p9 = set_attribute button ''key'' name p8;
          p10 = set_attribute button ''aria-label'' name p9;
          p11 = set_attribute button ''aria-haspopup'' ''true'' p10;
          p12 = set_attribute button ''aria-expanded'' ''false'' p11;
          p13 = set_onclick button ToggleDropdown p12;
          p14 = appendSvg (hc_chevron_path cfg) button ''chevron-icon'' p13;
          (dropdownItemsBox, p15) = create_element ''div'' p14;
          p16 = class_add dropdownItemsBox ''dropdown-items'' p15;
          p17 = append_child dropdown button p16;
          p18 = append_child dropdown dropdownItemsBox p17
      in js_bind (js_map (build_nav_leaf cfg) items)
           (\<lambda>dropdownItems.
              js_bind (js_forEach (\<lambda>item p. (Inr (), append_child dropdownItemsBox item p)) dropdownItems)
                (\<lambda>_ p. (Inr dropdown, p))) p18)"

text \<open>
  The callback of \<open>NAV_LINKS.map\<close> (lines 150--208): a truthy \<open>href\<close> gives a link,
  otherwise present \<open>items\<close> give a dropdown, otherwise the callback returns
  \<open>undefined\<close> (\<open>None\<close>).
\<close>

definition build_nav_rest :: "header_config \<Rightarrow> nav_item \<Rightarrow> page \<Rightarrow> (page, nid option) js_result" where
  "build_nav_rest cfg ni p =
     (case ni_items ni of
        None \<Rightarrow> (Inr None, p)
      | Some items \<Rightarrow> js_bind (build_nav_dropdown cfg (ni_name ni) items) (\<lambda>d p'. (Inr (Some d), p')) p)"

text \<open>\<open>if (href)\<close> (line 151): \<open>undefined\<close> and the empty string are falsy.\<close>

definition href_truthy :: "nav_item \<Rightarrow> bool" where
  "href_truthy ni = (case ni_href ni of None \<Rightarrow> False | Some h \<Rightarrow> h \<noteq> [])"

definition build_nav_item :: "header_config \<Rightarrow> nav_item \<Rightarrow> page \<Rightarrow> (page, nid option) js_result" where
  "build_nav_item cfg ni p =
     (if href_truthy ni
      then (let (l, p') = build_nav_link cfg (ni_name ni) (opt_string (ni_href ni)) p in (Inr (Some l), p'))
      else build_nav_rest cfg ni p)"

text \<open>\<open>navBar.appendChild(link)\<close> (line 209): \<open>undefined\<close> is not a node.\<close>

definition append_nav_link :: "nid \<Rightarrow> nid option \<Rightarrow> page \<Rightarrow> (page, unit) js_result" where
  "append_nav_link navBar l p =
     (case l of None \<Rightarrow> (Inl (TypeError ''appendChild''), p) | Some n \<Rightarrow> (Inr (), append_child navBar n p))"

text \<open>Lines 150--209: all items are built first, then appended in order.\<close>

definition build_nav_links :: "header_config \<Rightarrow> nid \<Rightarrow> page \<Rightarrow> (page, unit) js_result" where
  "build_nav_links cfg navBar =
     js_bind (js_map (build_nav_item cfg) (hc_nav_links cfg))
       (\<lambda>linkElements. js_forEach (append_nav_link navBar) linkElements)"

section \<open>The header\<close>

text \<open>
  Lines 121--145: the header, prepended to the wrapper (a \<open>TypeError\<close> when there
  is none), the inner header with the home link, the skip link and the navigation
  bar; the result names the inner header and the navigation bar.
\<close>

definition build_header_top :: "header_config \<Rightarrow> page \<Rightarrow> (page, nid \<times> nid) js_result" where
  "build_header_top cfg p0 =
     (let (header, p1) = create_element ''div'' p0;
          p2 = class_add header ''unified-header'' p1
      in case query p2 (by_class WRAPPER_CLASS) of
           None \<Rightarrow> (Inl (TypeError ''prepend''), p2)
         | Some wrapper \<Rightarrow>
             (let p3 = prepend_child wrapper header p2;
                  (innerHeader, p4) = create_element ''div'' p3;
                  p5 = class_add innerHeader ''inner-header'' p4;
                  p6 = append_child header innerHeader p5;
                  (homeLink, p7) = create_element ''a'' p6;
                  p8 = class_add homeLink ''home-link'' p7;
                  p9 = set_attribute homeLink ''href'' (hc_home_url cfg) p8;
                  p10 = set_attribute homeLink ''aria-label'' ''Remix project home'' p9;
                  p11 = append_child innerHeader homeLink p10;
                  p12 = appendSvg (hc_logo_path cfg) homeLink (hc_logo_class cfg) p11;
                  (skipToContent, p13) = create_element ''a'' p12;
                  p14 = class_add skipToContent ''skip-to-content'' p13;
                  p15 = set_attribute skipToContent ''href'' ''#content'' p14;
                  p16 = set_text skipToContent ''skip to content'' p15;
                  p17 = append_child innerHeader skipToContent p16;
                  (navBar, p18) = create_element ''nav'' p17;
                  p19 = class_add navBar ''nav-bar'' p18;
                  p20 = append_child innerHeader navBar p19
              in (Inr (innerHeader, navBar), p20)))"

text \<open>Lines 266--273: the mobile menu button, whose listener is \<open>toggleMenu\<close>.\<close>

definition build_mobile_button :: "header_config \<Rightarrow> nid \<Rightarrow> page \<Rightarrow> page" where
  "build_mobile_button cfg navButtonContainer p0 =
     (let (menuButton, p1) = create_element ''button'' p0;
          p2 = class_add menuButton ''mobile-menu-button'' p1;
          p3 = set_attribute menuButton ''type'' ''button'' p2;
          p4 = set_attribute menuButton ''aria-label'' ''Toggle menu'' p3;
          p5 = set_attribute menuButton ''key'' ''menu button'' p4;
          p6 = add_listener menuButton MobileMenuClick p5;
          p7 = appendSvg (hc_hamburger_path cfg) menuButton (hc_mobile_icon_class cfg) p6
      in append_child navButtonContainer menuButton p7)"

text \<open>
  \<open>buildHeader\<close> (lines 120--274), with the theme part of \<open>Header\<close> run on the
  button container and the active mode of the page.
\<close>

definition buildHeader :: "header_config \<Rightarrow> page \<Rightarrow> (page, unit) js_result" where
  "buildHeader cfg =
     js_bind (build_header_top cfg)
       (\<lambda>(innerHeader, navBar).
          js_bind (build_nav_links cfg navBar)
            (\<lambda>_ p8.
               (let (navButtonContainer, p9) = create_element ''div'' p8;
                    p10 = class_add navButtonContainer ''nav-button-container'' p9;
                    p11 = append_child innerHeader navButtonContainer p10;
                    p12 = snd (snd (build_theme_menu COLOR_MODES (mode p11) navButtonContainer p11));
                    p13 = build_mobile_button cfg navButtonContainer p12
                in (Inr (), p13))))"

section \<open>Sample configurations\<close>

text \<open>
  Navigation lists for the witnesses: three plain links, and the same list with an
  entry that has neither \<open>href\<close> nor \<open>items\<close> in the middle.
\<close>

definition sample_links :: "nav_item list" where
  "sample_links =
     [NavItem ''Home'' (Some ''https://remix-project.org'') None,
      NavItem ''Documentation'' (Some ''https://remix-ide.readthedocs.io'') None,
      NavItem ''Blog'' (Some ''/blog'') None]"

definition sample_config :: "nav_item list \<Rightarrow> header_config" where
  "sample_config links =
     \<lparr>hc_nav_links = links, hc_home_url = ''https://remix-project.org'',
      hc_docs_url = ''https://remix-ide.readthedocs.io'', hc_logo_path = ''/logo.svg'',
      hc_logo_class = ''remix-logo'', hc_chevron_path = ''/chevron.svg'',
      hc_ne_arrow_path = ''/ne-arrow.svg'', hc_hamburger_path = ''/hamburger.svg'',
      hc_mobile_icon_class = ''mobile-menu-icon''\<rparr>"

definition undefined_entry_links :: "nav_item list" where
  "undefined_entry_links =
     [NavItem ''Home'' (Some ''https://remix-project.org'') None, NavItem ''Learn'' None None,
      NavItem ''Blog'' (Some ''/blog'') None]"

text \<open>A page whose \<open><body>\<close> holds an empty \<open><nav>\<close> (node 3).\<close>

definition nav_nodes :: "(nid \<times> listener node) list" where
  "nav_nodes =
     [(0, mk_node ''html'' [] [] [1, 2] None), (1, mk_node ''head'' [] [] [] (Some 0)),
      (2, mk_node ''body'' [] [] [3] (Some 0)), (3, mk_node ''nav'' [''nav-bar''] [] [] (Some 2))]"

section \<open>What a built link carries\<close>

text \<open>
  The node \<open>n\<close> of \<open>q\<close> is the link built for the item \<open>x\<close>: it exists, its
  \<open>key\<close> is the item's name, its \<open>href\<close> the item's \<open>href\<close>, it opens in a new
  tab exactly when it is an external link other than the home page, and it is
  marked \<open>active\<close> exactly when it points to the documentation.
\<close>

definition nav_link_at :: "header_config \<Rightarrow> page \<Rightarrow> nid \<Rightarrow> nav_item \<Rightarrow> bool" where
  "nav_link_at cfg q n x =
     (d_nodes q n \<noteq> None \<and> get_attribute q n ''key'' = Some (ni_name x) \<and>
      get_attribute q n ''href'' = Some (opt_string (ni_href x)) \<and>
      get_attribute q n ''target'' =
        (if starts_with ''http'' (opt_string (ni_href x)) \<and> opt_string (ni_href x) \<noteq> hc_home_url cfg
         then Some ''_blank'' else None) \<and>
      has_class q n ''active'' = (opt_string (ni_href x) = hc_docs_url cfg))"

abbreviation build_plain_links :: "header_config \<Rightarrow> nav_item list \<Rightarrow> page \<Rightarrow> page" where
  "build_plain_links cfg xs p \<equiv>
     fold (\<lambda>x p. snd (build_nav_link cfg (ni_name x) (opt_string (ni_href x)) p)) xs p"

section \<open>Plain links\<close>

lemma build_nav_link_fst [simp]: "fst (build_nav_link cfg name h p) = d_next p"
  by (simp add: build_nav_link_def Let_def split_def)

lemma build_nav_link_next [simp]: "d_next (snd (build_nav_link cfg name h p)) = Suc (d_next p)"
  by (simp add: build_nav_link_def Let_def split_def)

lemma build_nav_link_nodes:
  "d_nodes (snd (build_nav_link cfg name h p)) =
     (d_nodes p)(d_next p \<mapsto> (blank_node ''a'')\<lparr>
        n_classes := ''nav-link'' # (if h = hc_docs_url cfg then [''active''] else []),
        n_attrs := [(''key'', name), (''href'', h), (''aria-label'', name)] @
          (if starts_with ''http'' h \<and> h \<noteq> hc_home_url cfg
           then [(''target'', ''_blank''), (''rel'', ''noopener noreferrer'')] else []),
        n_text := name\<rparr>)"
  by (cases "h = hc_docs_url cfg"; cases "starts_with ''http'' h \<and> h \<noteq> hc_home_url cfg")
     (simp_all add: build_nav_link_def Let_def split_def dom_eval fun_eq_iff)

lemma build_nav_link_step:
  fixes cfg :: header_config and name h :: string
  assumes wf: "wf_tree p"
  defines "q \<equiv> snd (build_nav_link cfg name h p)"
  shows "wf_tree q" "kids_of q = kids_of p" "parent_of q = parent_of p"
    "\<And>m. m < d_next p \<Longrightarrow> get_attribute q m = get_attribute p m \<and> has_class q m = has_class p m"
    "d_nodes q (d_next p) \<noteq> None"
    "get_attribute q (d_next p) ''key'' = Some name" "get_attribute q (d_next p) ''href'' = Some h"
    "get_attribute q (d_next p) ''target'' =
       (if starts_with ''http'' h \<and> h \<noteq> hc_home_url cfg then Some ''_blank'' else None)"
    "has_class q (d_next p) ''active'' = (h = hc_docs_url cfg)"
proof -
  have fresh: "d_nodes p (d_next p) = None" using ids_below_fresh [OF wf_tree_ids_below [OF wf]] .
  show "wf_tree q" unfolding q_def using wf by (simp add: build_nav_link_def Let_def split_def)
  show "kids_of q = kids_of p" "parent_of q = parent_of p"
    using fresh by (auto simp: q_def kids_of_def parent_of_def build_nav_link_nodes fun_eq_iff blank_node_def)
  show "\<And>m. m < d_next p \<Longrightarrow> get_attribute q m = get_attribute p m \<and> has_class q m = has_class p m"
    by (simp add: q_def get_attribute_def has_class_def build_nav_link_nodes fun_eq_iff)
  show "d_nodes q (d_next p) \<noteq> None" by (simp add: q_def build_nav_link_nodes)
  show "get_attribute q (d_next p) ''key'' = Some name" "get_attribute q (d_next p) ''href'' = Some h"
    "get_attribute q (d_next p) ''target'' =
       (if starts_with ''http'' h \<and> h \<noteq> hc_home_url cfg then Some ''_blank'' else None)"
    "has_class q (d_next p) ''active'' = (h = hc_docs_url cfg)"
    by (simp_all add: q_def get_attribute_def has_class_def build_nav_link_nodes blank_node_def)
qed

lemma nav_link_at_cong:
  "get_attribute q' n = get_attribute q n \<Longrightarrow> has_class q' n = has_class q n \<Longrightarrow>
   (d_nodes q' n = None) = (d_nodes q n = None) \<Longrightarrow> nav_link_at cfg q' n x = nav_link_at cfg q n x"
  by (simp add: nav_link_at_def)

lemma nav_link_at_append_child [simp]:
  "nav_link_at cfg (append_child a b q) n x = nav_link_at cfg q n x"
  by (rule nav_link_at_cong) (simp_all add: fun_eq_iff)

lemma nav_link_at_fold_append [simp]:
  "nav_link_at cfg (fold (append_child nb) cs q) n x = nav_link_at cfg q n x"
  by (induction cs arbitrary: q) simp_all

lemma fold_nav_links:
  fixes cfg :: header_config and xs :: "nav_item list"
  assumes "wf_tree p"
  shows "wf_tree (build_plain_links cfg xs p) \<and>
         d_next (build_plain_links cfg xs p) = d_next p + length xs \<and>
         kids_of (build_plain_links cfg xs p) = kids_of p \<and>
         parent_of (build_plain_links cfg xs p) = parent_of p \<and>
         (\<forall>m < d_next p. get_attribute (build_plain_links cfg xs p) m = get_attribute p m \<and>
             has_class (build_plain_links cfg xs p) m = has_class p m \<and>
             (d_nodes (build_plain_links cfg xs p) m = None) = (d_nodes p m = None)) \<and>
         (\<forall>j < length xs. nav_link_at cfg (build_plain_links cfg xs p) (d_next p + j) (xs ! j))"
  using assms
proof (induction xs arbitrary: p)
  case Nil
  then show ?case by simp
next
  case (Cons x xs)
  let ?p1 = "snd (build_nav_link cfg (ni_name x) (opt_string (ni_href x)) p)"
  let ?F = "build_plain_links cfg xs ?p1"
  note S = build_nav_link_step [OF Cons.prems, where cfg = cfg and name = "ni_name x"
      and h = "opt_string (ni_href x)"]
  have ex1: "(d_nodes ?p1 m = None) = (d_nodes p m = None)" if "m < d_next p" for m
    using that ids_below_lt [OF wf_tree_ids_below [OF Cons.prems]]
    by (cases "d_nodes p m") (auto simp: build_nav_link_nodes)
  note IH = Cons.IH [OF S(1)]
  have at1: "nav_link_at cfg ?p1 (d_next p) x" using S(5-9) by (simp add: nav_link_at_def)
  have at0: "nav_link_at cfg ?F (d_next p) x"
    using at1 IH nav_link_at_cong [of ?F "d_next p" ?p1] by simp
  have rest: "\<forall>j < length (x # xs). nav_link_at cfg ?F (d_next p + j) ((x # xs) ! j)"
  proof (intro allI impI)
    fix j assume "j < length (x # xs)"
    then show "nav_link_at cfg ?F (d_next p + j) ((x # xs) ! j)"
      using at0 IH by (cases j) simp_all
  qed
  show ?case
    using IH S(2,3,4) ex1 rest by auto
qed

lemma js_map_plain_links:
  "list_all href_truthy xs \<Longrightarrow>
   js_map (build_nav_item cfg) xs p = (Inr (map Some [d_next p..<d_next p + length xs]), build_plain_links cfg xs p)"
proof (induction xs arbitrary: p)
  case Nil
  then show ?case by simp
next
  case (Cons x xs)
  have "build_nav_item cfg x p =
          (Inr (Some (d_next p)), snd (build_nav_link cfg (ni_name x) (opt_string (ni_href x)) p))"
    using Cons.prems by (simp add: build_nav_item_def split_def)
  moreover have "[d_next p..<d_next p + length (x # xs)] =
                 d_next p # [Suc (d_next p)..<Suc (d_next p) + length xs]"
    by (simp add: upt_rec)
  ultimately show ?case using Cons by (simp del: upt_Suc)
qed

lemma forEach_append_nav_link:
  "js_forEach (append_nav_link nb) (map Some cs) p = (Inr (), fold (append_child nb) cs p)"
  by (induction cs arbitrary: p) (simp_all add: append_nav_link_def)

section \<open>The whole header keeps the tree well formed\<close>

lemma wf_tree_appendSvg [simp]: "wf_tree (appendSvg path el cls p) = wf_tree p"
  by (simp add: appendSvg_def start_fetch_def wf_tree_def kids_of_def parent_of_def ids_below_def)

lemma wf_tree_build_nav_leaf: "wf_tree p \<Longrightarrow> wf_tree (snd (build_nav_leaf cfg it p))"
  by (simp add: build_nav_leaf_def Let_def split_def split: option.splits)

lemma wf_tree_build_nav_dropdown: "wf_tree p \<Longrightarrow> wf_tree (snd (build_nav_dropdown cfg name items p))"
  unfolding build_nav_dropdown_def Let_def split_def
  by (intro js_bind_preserve [where P = wf_tree] js_map_preserve [where P = wf_tree]
      js_forEach_preserve [where P = wf_tree])
     (simp_all add: wf_tree_build_nav_leaf)

lemma wf_tree_build_nav_item: "wf_tree p \<Longrightarrow> wf_tree (snd (build_nav_item cfg x p))"
  by (auto simp: build_nav_item_def build_nav_rest_def split_def build_nav_link_step(1)
      intro: js_bind_preserve [where P = wf_tree] wf_tree_build_nav_dropdown split: option.splits)

lemma wf_tree_build_nav_links: "wf_tree p \<Longrightarrow> wf_tree (snd (build_nav_links cfg nb p))"
  unfolding build_nav_links_def
  by (intro js_bind_preserve [where P = wf_tree] js_map_preserve [where P = wf_tree]
      js_forEach_preserve [where P = wf_tree])
     (simp_all add: wf_tree_build_nav_item append_nav_link_def split: option.splits)

lemma wf_tree_build_header_top: "wf_tree p \<Longrightarrow> wf_tree (snd (build_header_top cfg p))"
  by (simp add: build_header_top_def Let_def split_def split: option.splits)

lemma wf_tree_build_mobile_button: "wf_tree p \<Longrightarrow> wf_tree (build_mobile_button cfg c p)"
  by (simp add: build_mobile_button_def Let_def split_def)

lemma wf_tree_buildHeader: "wf_tree p \<Longrightarrow> wf_tree (snd (buildHeader cfg p))"
  unfolding buildHeader_def
proof (rule js_bind_preserve [where P = wf_tree])
  fix r and s :: page
  assume "wf_tree s"
  then show "wf_tree (snd ((\<lambda>(innerHeader, navBar). js_bind (build_nav_links cfg navBar)
            (\<lambda>_ p8. let (navButtonContainer, p9) = create_element ''div'' p8;
                         p10 = class_add navButtonContainer ''nav-button-container'' p9;
                         p11 = append_child innerHeader navButtonContainer p10;
                         p12 = snd (snd (build_theme_menu COLOR_MODES (mode p11) navButtonContainer p11));
                         p13 = build_mobile_button cfg navButtonContainer p12
                     in (Inr (), p13))) r s))"
    by (cases r, simp only: prod.case, intro js_bind_preserve [where P = wf_tree])
       (simp_all add: split_def Let_def wf_tree_build_nav_links wf_tree_build_theme_menu
        wf_tree_build_mobile_button)
qed (simp_all add: wf_tree_build_header_top)

section \<open>The navigation bar\<close>

lemma fresh_ids:
  assumes wf: "wf_tree p" and "c \<in> set [d_next p..<d_next p + n]"
  shows "\<exists>j < n. c = d_next p + j" and "parent_of p c = None"
proof -
  show "\<exists>j < n. c = d_next p + j" using assms(2) by (intro exI [of _ "c - d_next p"]) auto
  have "d_nodes p c = None"
    using assms(2) ids_below_lt [OF wf_tree_ids_below [OF wf], of c] by (cases "d_nodes p c") auto
  then show "parent_of p c = None" by (simp add: parent_of_def)
qed

lemma append_plain_links:
  fixes cfg :: header_config and xs :: "nav_item list"
  assumes wf: "wf_tree p" and nb: "d_nodes p nb \<noteq> None"
  defines "F \<equiv> build_plain_links cfg xs p"
  shows "wf_tree (fold (append_child nb) [d_next p..<d_next p + length xs] F) \<and>
         kids_of (fold (append_child nb) [d_next p..<d_next p + length xs] F) =
           (kids_of p)(nb := kids_of p nb @ [d_next p..<d_next p + length xs])"
proof -
  note FL = fold_nav_links [OF wf, of cfg xs]
  have lt: "nb < d_next p" using nb ids_below_lt [OF wf_tree_ids_below [OF wf]] by blast
  have "(d_nodes F nb = None) = (d_nodes p nb = None)" using FL lt unfolding F_def by blast
  then have nbF: "d_nodes F nb \<noteq> None" using nb by simp
  have nbn: "nb \<notin> set [d_next p..<d_next p + length xs]" using lt by simp
  have cs: "\<forall>c \<in> set [d_next p..<d_next p + length xs]. d_nodes F c \<noteq> None \<and> parent_of F c = None"
  proof
    fix c assume c: "c \<in> set [d_next p..<d_next p + length xs]"
    then obtain j where "j < length xs" "c = d_next p + j" using fresh_ids(1) [OF wf] by blast
    then have "d_nodes F c \<noteq> None" using FL unfolding F_def nav_link_at_def by blast
    moreover have "parent_of F c = None" using FL fresh_ids(2) [OF wf c] unfolding F_def by simp
    ultimately show "d_nodes F c \<noteq> None \<and> parent_of F c = None" ..
  qed
  have wfF: "wf_tree F" using FL unfolding F_def by blast
  have kF: "kids_of F = kids_of p" using FL unfolding F_def by simp
  show ?thesis
    using fold_append_child_fresh [OF wfF nbF nbn distinct_upt cs] kF by (simp add: fun_eq_iff)
qed

text \<open>
  C20. When every entry of \<open>NAV_LINKS\<close> has a non-empty \<open>href\<close>, the navigation bar
  gains one new link per entry, in the order of the list, after its existing
  children, and each link carries its entry's name and address, opens in a new tab
  exactly when it is external and not the home page, and is \<open>active\<close> exactly when
  it points to the documentation.
\<close>

theorem build_nav_links_plain:
  assumes wf: "wf_tree p" and nb: "d_nodes p navBar \<noteq> None"
    and L: "list_all href_truthy (hc_nav_links cfg)"
  shows "fst (build_nav_links cfg navBar p) = Inr () \<and>
         kids_of (snd (build_nav_links cfg navBar p)) navBar =
           kids_of p navBar @ [d_next p..<d_next p + length (hc_nav_links cfg)] \<and>
         (\<forall>j < length (hc_nav_links cfg).
            nav_link_at cfg (snd (build_nav_links cfg navBar p)) (d_next p + j) (hc_nav_links cfg ! j))"
proof -
  let ?L = "hc_nav_links cfg"
  have e: "build_nav_links cfg navBar p =
             (Inr (), fold (append_child navBar) [d_next p..<d_next p + length ?L] (build_plain_links cfg ?L p))"
    by (simp add: build_nav_links_def js_map_plain_links [OF L] forEach_append_nav_link)
  show ?thesis
    unfolding e using append_plain_links [OF wf nb, where cfg = cfg and xs = "?L"] fold_nav_links [OF wf, of cfg ?L] by simp
qed

text \<open>
  C21. An entry with neither a truthy \<open>href\<close> nor \<open>items\<close> makes the \<open>map\<close>
  callback return \<open>undefined\<close>; the append loop then throws a \<open>TypeError\<close> at that
  entry, after the links before it were appended, so the rest of the header is
  never built.
\<close>

theorem build_nav_links_undefined_entry:
  assumes wf: "wf_tree p" and nb: "d_nodes p navBar \<noteq> None"
    and L: "hc_nav_links cfg = xs @ bad # ys" and xs: "list_all href_truthy xs"
    and ys: "list_all href_truthy ys" and bad: "\<not> href_truthy bad" "ni_items bad = None"
  shows "fst (build_nav_links cfg navBar p) = Inl (TypeError ''appendChild'') \<and>
         kids_of (snd (build_nav_links cfg navBar p)) navBar =
           kids_of p navBar @ [d_next p..<d_next p + length xs]"
proof -
  let ?F1 = "build_plain_links cfg xs p"
  let ?F2 = "build_plain_links cfg ys ?F1"
  let ?A = "map Some [d_next p..<d_next p + length xs]"
  let ?B = "map Some [d_next ?F1..<d_next ?F1 + length ys]"
  note FL1 = fold_nav_links [OF wf, of cfg xs]
  have wf1: "wf_tree ?F1" using FL1 by blast
  note FL2 = fold_nav_links [OF wf1, of cfg ys]
  have m: "js_map (build_nav_item cfg) (hc_nav_links cfg) p = (Inr (?A @ None # ?B), ?F2)"
    using bad unfolding L
    by (simp add: js_map_append js_map_plain_links [OF xs] js_map_plain_links [OF ys]
        build_nav_item_def build_nav_rest_def)
  have e: "build_nav_links cfg navBar p =
             (Inl (TypeError ''appendChild''), fold (append_child navBar) [d_next p..<d_next p + length xs] ?F2)"
    by (simp add: build_nav_links_def m js_forEach_append forEach_append_nav_link append_nav_link_def)
  have lt: "navBar < d_next p" using nb ids_below_lt [OF wf_tree_ids_below [OF wf]] by blast
  have "(d_nodes ?F1 navBar = None) = (d_nodes p navBar = None)" using FL1 lt by blast
  then have nb1: "d_nodes ?F1 navBar \<noteq> None" using nb by simp
  let ?ids = "[d_next p..<d_next p + length xs]"
  have wf2: "wf_tree ?F2" using FL2 by blast
  have n1: "d_next ?F1 = d_next p + length xs" using FL1 by blast
  have nb2: "d_nodes ?F2 navBar \<noteq> None" using FL2 nb1 lt n1 by simp
  have nbn: "navBar \<notin> set ?ids" using lt by simp
  have cs: "\<forall>c \<in> set ?ids. d_nodes ?F2 c \<noteq> None \<and> parent_of ?F2 c = None"
  proof
    fix c assume c: "c \<in> set ?ids"
    then obtain j where j: "j < length xs" "c = d_next p + j" using fresh_ids(1) [OF wf] by blast
    then have c1: "d_nodes ?F1 c \<noteq> None" using FL1 unfolding nav_link_at_def by blast
    have "c < d_next ?F1" using j n1 by simp
    then have "(d_nodes ?F2 c = None) = (d_nodes ?F1 c = None)" using FL2 by blast
    then have "d_nodes ?F2 c \<noteq> None" using c1 by simp
    moreover have "parent_of ?F2 c = None" using FL1 FL2 fresh_ids(2) [OF wf c] by simp
    ultimately show "d_nodes ?F2 c \<noteq> None \<and> parent_of ?F2 c = None" ..
  qed
  have k2: "kids_of ?F2 navBar = kids_of p navBar" using FL1 FL2 by simp
  show ?thesis
    unfolding e using fold_append_child_fresh [OF wf2 nb2 nbn distinct_upt cs, of navBar] k2 by simp
qed

theorem build_nav_links_plain_witness:
  "wf_tree (mk_page nav_nodes) \<and> d_nodes (mk_page nav_nodes) 3 \<noteq> None \<and>
   list_all href_truthy (hc_nav_links (sample_config sample_links)) \<and>
   fst (build_nav_links (sample_config sample_links) 3 (mk_page nav_nodes)) = Inr () \<and>
   kids_of (snd (build_nav_links (sample_config sample_links) 3 (mk_page nav_nodes))) 3 = [4, 5, 6] \<and>
   nav_link_at (sample_config sample_links) (snd (build_nav_links (sample_config sample_links) 3 (mk_page nav_nodes))) 4
     (NavItem ''Home'' (Some ''https://remix-project.org'') None) \<and>
   nav_link_at (sample_config sample_links) (snd (build_nav_links (sample_config sample_links) 3 (mk_page nav_nodes))) 5
     (NavItem ''Documentation'' (Some ''https://remix-ide.readthedocs.io'') None) \<and>
   nav_link_at (sample_config sample_links) (snd (build_nav_links (sample_config sample_links) 3 (mk_page nav_nodes))) 6
     (NavItem ''Blog'' (Some ''/blog'') None)"
proof -
  have wf: "wf_tree (mk_page nav_nodes)"
    by (rule tree_ok_wf_tree) (simp add: tree_ok_def nav_nodes_def mk_node_def blank_node_def)
  have nb: "d_nodes (mk_page nav_nodes) 3 \<noteq> None" by (simp add: nav_nodes_def mk_page_def)
  have L: "list_all href_truthy (hc_nav_links (sample_config sample_links))"
    by (simp add: sample_config_def sample_links_def href_truthy_def)
  have n: "d_next (mk_page nav_nodes) = 4" by (simp add: nav_nodes_def mk_page_def)
  have k: "kids_of (mk_page nav_nodes) 3 = []" by (simp add: nav_nodes_def page_eval)
  have len: "length (hc_nav_links (sample_config sample_links)) = 3"
    by (simp add: sample_config_def sample_links_def)
  note T = build_nav_links_plain [OF wf nb L]
  have A: "\<forall>j < 3. nav_link_at (sample_config sample_links)
             (snd (build_nav_links (sample_config sample_links) 3 (mk_page nav_nodes))) (4 + j) (sample_links ! j)"
    using T n len by (simp add: sample_config_def)
  show ?thesis
    using wf nb L T n k len A [rule_format, of 0] A [rule_format, of 1] A [rule_format, of 2]
    by (simp add: sample_links_def)
qed

theorem build_nav_links_undefined_entry_witness:
  "wf_tree (mk_page nav_nodes) \<and> d_nodes (mk_page nav_nodes) 3 \<noteq> None \<and>
   hc_nav_links (sample_config undefined_entry_links) =
     [NavItem ''Home'' (Some ''https://remix-project.org'') None] @
     NavItem ''Learn'' None None # [NavItem ''Blog'' (Some ''/blog'') None] \<and>
   list_all href_truthy [NavItem ''Home'' (Some ''https://remix-project.org'') None] \<and>
   list_all href_truthy [NavItem ''Blog'' (Some ''/blog'') None] \<and>
   \<not> href_truthy (NavItem ''Learn'' None None) \<and> ni_items (NavItem ''Learn'' None None) = None \<and>
   fst (build_nav_links (sample_config undefined_entry_links) 3 (mk_page nav_nodes)) =
     Inl (TypeError ''appendChild'') \<and>
   kids_of (snd (build_nav_links (sample_config undefined_entry_links) 3 (mk_page nav_nodes))) 3 = [4]"
proof -
  have wf: "wf_tree (mk_page nav_nodes)"
    by (rule tree_ok_wf_tree) (simp add: tree_ok_def nav_nodes_def mk_node_def blank_node_def)
  have nb: "d_nodes (mk_page nav_nodes) 3 \<noteq> None" by (simp add: nav_nodes_def mk_page_def)
  have L: "hc_nav_links (sample_config undefined_entry_links) =
     [NavItem ''Home'' (Some ''https://remix-project.org'') None] @
     NavItem ''Learn'' None None # [NavItem ''Blog'' (Some ''/blog'') None]"
    by (simp add: sample_config_def undefined_entry_links_def)
  have xs: "list_all href_truthy [NavItem ''Home'' (Some ''https://remix-project.org'') None]"
    and ys: "list_all href_truthy [NavItem ''Blog'' (Some ''/blog'') None]"
    and b: "\<not> href_truthy (NavItem ''Learn'' None None)" "ni_items (NavItem ''Learn'' None None) = None"
    by (simp_all add: href_truthy_def)
  have n: "d_next (mk_page nav_nodes) = 4" by (simp add: nav_nodes_def mk_page_def)
  have k: "kids_of (mk_page nav_nodes) 3 = []" by (simp add: nav_nodes_def page_eval)
  show ?thesis
    using build_nav_links_undefined_entry [OF wf nb L xs ys b] wf nb L xs ys b n k by simp
qed

end
