(* ===== verification/Rearrange.thy ===== *)
theory Rearrange
  imports Assembly
begin

text \<open>
  \<open>rearrangeDom\<close> (lines 22--41): the \<open>div\<close>s directly under \<open><body>\<close> are moved,
  in document order, into a new wrapper \<open>div\<close> prepended to the body; a backdrop is
  appended to the wrapper; the main content is given the id \<open>content\<close>, its old
  wrapping section is removed and the content is appended to the grid. The call
  \<open>moveRstVersions()\<close> (line 30) goes to a script that is not in the sources; it is
  a parameter of the model, a handler of the page that may throw, so every result
  holds for any such function that the result's hypotheses allow.
\<close>

section \<open>Selectors\<close>

definition body_divs_sel :: selector where
  "body_divs_sel = Child (by_tag ''body'') (Compound (Some ''div'') [] [])"

definition nav_content_sel :: selector where
  "nav_content_sel = by_class ''wy-nav-content''"

definition old_wrap_sel :: selector where
  "old_wrap_sel = Sel (Compound (Some ''section'') [''wy-nav-content-wrap''] [])"

definition grid_sel :: selector where
  "grid_sel = by_class ''wy-grid-for-nav''"

section \<open>The three phases and the whole function\<close>

text \<open>
  Lines 23--27: \<open>querySelectorAll\<close> returns a static list, so the divs are first
  all removed, then appended in that order to the wrapper, which is then prepended to
  \<open>document.body\<close>. The result names the wrapper.
\<close>

definition wrap_body_divs :: "page \<Rightarrow> nid \<times> page" where
  "wrap_body_divs p0 =
     (let bodyDivs = query_all p0 body_divs_sel;
          p1 = fold detach bodyDivs p0;
          (wrapperDiv, p2) = create_element ''div'' p1;
          p3 = class_add wrapperDiv WRAPPER_CLASS p2;
          p4 = fold (append_child wrapperDiv) bodyDivs p3;
          p5 = prepend_child (d_body p4) wrapperDiv p4
      in (wrapperDiv, p5))"

text \<open>Lines 32--34: the backdrop, the last child of the wrapper.\<close>

definition add_backdrop :: "nid \<Rightarrow> page \<Rightarrow> page" where
  "add_backdrop wrapperDiv p0 =
     (let (backdrop, p1) = create_element ''div'' p0;
          p2 = class_add backdrop ''backdrop'' p1
      in append_child wrapperDiv backdrop p2)"

text \<open>
  Lines 36--40: each of the three lookups is dereferenced unchecked, so a missing
  element is a \<open>TypeError\<close> that ends the function.
\<close>

definition move_content :: "page \<Rightarrow> (page, unit) js_result" where
  "move_content p0 =
     (case query p0 nav_content_sel of
        None \<Rightarrow> (Inl (TypeError ''content''), p0)
      | Some content \<Rightarrow>
          (let p1 = set_attribute content ''id'' ''content'' p0
           in case query p1 old_wrap_sel of
                None \<Rightarrow> (Inl (TypeError ''oldWrap''), p1)
              | Some oldWrap \<Rightarrow>
                  (let p2 = detach oldWrap p1
                   in case query p2 grid_sel of
                        None \<Rightarrow> (Inl (TypeError ''grid''), p2)
                      | Some grid \<Rightarrow> (Inr (), append_child grid content p2))))"

definition rearrangeDom :: "(page \<Rightarrow> (page, unit) js_result) \<Rightarrow> page \<Rightarrow> (page, unit) js_result" where
  "rearrangeDom moveRstVersions p0 =
     (let (wrapperDiv, p1) = wrap_body_divs p0
      in js_bind moveRstVersions (\<lambda>_ p2. move_content (add_backdrop wrapperDiv p2)) p1)"

text \<open>
  The reference for lines 23--27: since \<open>appendChild\<close> moves a node, the divs could be
  appended straight away; the removal loop of line 24 is redundant (C25).
\<close>

definition wrap_body_divs_direct :: "page \<Rightarrow> nid \<times> page" where
  "wrap_body_divs_direct p0 =
     (let bodyDivs = query_all p0 body_divs_sel;
          (wrapperDiv, p2) = create_element ''div'' p0;
          p3 = class_add wrapperDiv WRAPPER_CLASS p2;
          p4 = fold (append_child wrapperDiv) bodyDivs p3;
          p5 = prepend_child (d_body p4) wrapperDiv p4
      in (wrapperDiv, p5))"

text \<open>What a node holds besides its place in the tree.\<close>

definition node_content :: "'l node \<Rightarrow> 'l node" where
  "node_content x = x\<lparr>n_kids := [], n_parent := None\<rparr>"

definition content_map :: "('l, 'z) dom_scheme \<Rightarrow> nid \<Rightarrow> 'l node option" where
  "content_map d n = map_option node_content (d_nodes d n)"

section \<open>Sample page\<close>

text \<open>
  The Read-the-Docs layout: a grid holding the side navigation and the content
  section, which wraps the content; a second body div holds the version menu.
\<close>

definition rtd_nodes :: "(nid \<times> listener node) list" where
  "rtd_nodes =
     [(0, mk_node ''html'' [] [] [1, 2] None), (1, mk_node ''head'' [] [] [] (Some 0)),
      (2, mk_node ''body'' [] [] [3, 7] (Some 0)),
      (3, mk_node ''div'' [''wy-grid-for-nav''] [] [4, 5] (Some 2)),
      (4, mk_node ''nav'' [''wy-nav-side''] [] [] (Some 3)),
      (5, mk_node ''section'' [''wy-nav-content-wrap''] [] [6] (Some 3)),
      (6, mk_node ''div'' [''wy-nav-content''] [] [] (Some 5)),
      (7, mk_node ''div'' [''rst-versions''] [] [] (Some 2))]"

section \<open>Frame lemmas\<close>

lemma d_body_ops [simp]:
  "d_body (map_node n f d) = d_body d" "d_body (detach c d) = d_body d"
  "d_body (fold detach cs d) = d_body d"
  "d_body (snd (create_element t d)) = d_body d" "d_body (append_child p c d) = d_body d"
  "d_body (fold (append_child p) cs d) = d_body d"
  "d_body (class_add n cl d) = d_body d"
  by (induction cs arbitrary: d)
     (simp_all add: map_node_def detach_def create_element_def append_child_def class_add_def
      split: option.splits)

lemma has_class_fold_append [simp]:
  "has_class (fold (append_child p) cs d) = has_class d"
  by (induction cs arbitrary: d) simp_all

lemma d_nodes_fold_append_None [simp]:
  "(d_nodes (fold (append_child p) cs d) m = None) = (d_nodes d m = None)"
  by (induction cs arbitrary: d) simp_all

lemma wf_tree_fold_detach [simp]: "wf_tree d \<Longrightarrow> wf_tree (fold detach cs d)"
  using fold_detach_tree by blast

lemma wf_tree_fold_append_child [simp]: "wf_tree d \<Longrightarrow> wf_tree (fold (append_child p) cs d)"
  by (induction cs arbitrary: d) simp_all

lemma has_class_set_attribute [simp]: "has_class (set_attribute n k v d) = has_class d"
  by (simp add: set_attribute_def has_class_map_node_keep)

lemma sel_by_class_has_class: "sel_matches d (by_class c) n \<Longrightarrow> has_class d n c"
  by (auto simp: by_class_def matches_at_def node_matches_def has_class_def split: option.splits)

lemma query_by_class_has_class: "query d (by_class c) = Some n \<Longrightarrow> has_class d n c"
  using query_matches sel_by_class_has_class by (fastforce simp: query_all_def)

lemma query_by_class_None: "(\<And>n. \<not> has_class d n c) \<Longrightarrow> query d (by_class c) = None"
proof -
  assume "\<And>n. \<not> has_class d n c"
  then have "query_all d (by_class c) = []"
    using sel_by_class_has_class by (fastforce simp: query_all_def filter_empty_conv)
  then show ?thesis by (simp add: query_def)
qed

section \<open>Wrapping the body divs\<close>

lemma wrap_body_divs_eq:
  "wrap_body_divs p =
     (d_next p, prepend_child (d_body p) (d_next p)
        (fold (append_child (d_next p)) (query_all p body_divs_sel)
           (class_add (d_next p) WRAPPER_CLASS
              (snd (create_element ''div'' (fold detach (query_all p body_divs_sel) p))))))"
  by (simp add: wrap_body_divs_def Let_def split_def)

lemma wrap_body_divs_fst [simp]: "fst (wrap_body_divs p) = d_next p"
  by (simp add: wrap_body_divs_eq)

lemma wf_tree_wrap_body_divs [simp]: "wf_tree p \<Longrightarrow> wf_tree (snd (wrap_body_divs p))"
  by (simp add: wrap_body_divs_eq)

lemma has_class_wrap_body_divs:
  "has_class (snd (wrap_body_divs p)) m k =
     (if m = d_next p \<and> k = WRAPPER_CLASS then True else m \<noteq> d_next p \<and> has_class p m k)"
  by (simp add: wrap_body_divs_eq has_class_class_add content_create_element)


section \<open>The removal loop is redundant\<close>

text \<open>Two stores with the same nodes, children, parents and contents are equal.\<close>

lemma nodes_ext:
  assumes dm: "\<And>n. (d_nodes d n = None) = (d_nodes d' n = None)"
    and k: "kids_of d = kids_of d'" and pa: "parent_of d = parent_of d'"
    and c: "content_map d = content_map d'"
  shows "d_nodes d = d_nodes d'"
proof
  fix n
  show "d_nodes d n = d_nodes d' n"
  proof (cases "d_nodes d n")
    case None
    then show ?thesis using dm [of n] by simp
  next
    case (Some x)
    then obtain x' where x': "d_nodes d' n = Some x'" using dm [of n] by auto
    have "n_kids x = n_kids x'" using fun_cong [OF k, of n] Some x' by (simp add: kids_of_def)
    moreover have "n_parent x = n_parent x'" using fun_cong [OF pa, of n] Some x' by (simp add: parent_of_def)
    moreover have "node_content x = node_content x'"
      using fun_cong [OF c, of n] Some x' by (simp add: content_map_def)
    ultimately have "x = x'" by (cases x, cases x') (simp add: node_content_def)
    then show ?thesis using Some x' by simp
  qed
qed

text \<open>In a well-formed tree the parents are determined by the children.\<close>

lemma wf_tree_parent_of_eq:
  assumes "wf_tree d" "wf_tree d'" "kids_of d = kids_of d'"
  shows "parent_of d = parent_of d'"
proof
  fix k
  show "parent_of d k = parent_of d' k"
  proof (cases "parent_of d k")
    case None
    show ?thesis
    proof (rule ccontr)
      assume "parent_of d k \<noteq> parent_of d' k"
      then obtain q where "parent_of d' k = Some q" using None by (cases "parent_of d' k") auto
      then have "k \<in> set (kids_of d q)" using wf_tree_kid [OF assms(2)] assms(3) by simp
      then show False using wf_tree_parent [OF assms(1)] None by fastforce
    qed
  next
    case (Some q)
    then have "k \<in> set (kids_of d' q)" using wf_tree_kid [OF assms(1)] assms(3) by simp
    then show ?thesis using wf_tree_parent [OF assms(2)] Some by simp
  qed
qed

lemma content_map_map_node_keep:
  assumes "\<And>x. node_content (f x) = node_content x"
  shows "content_map (map_node n f d) = content_map d"
proof
  fix m
  show "content_map (map_node n f d) m = content_map d m"
    by (cases "d_nodes d n") (simp_all add: content_map_def d_nodes_map_node assms)
qed

lemma content_map_tree_ops [simp]:
  "content_map (detach c d) = content_map d"
  "content_map (append_child p c d) = content_map d"
  by (simp_all add: detach_def append_child_def content_map_map_node_keep node_content_def
      split: option.splits)

lemma content_map_folds [simp]:
  "content_map (fold detach cs d) = content_map d"
  "content_map (fold (append_child p) cs d) = content_map d"
  by (induction cs arbitrary: d) simp_all

lemma content_map_class_add:
  "content_map (class_add n c d) m =
     (if m = n then map_option (\<lambda>x. x\<lparr>n_classes := cl_add c (n_classes x)\<rparr>) (content_map d n)
      else content_map d m)"
  by (cases "d_nodes d n") (simp_all add: class_add_def content_map_def d_nodes_map_node node_content_def)

lemma content_map_create_element:
  "content_map (snd (create_element t d)) =
     (content_map d)(d_next d \<mapsto> node_content (blank_node t))"
  by (simp add: create_element_def content_map_def fun_eq_iff)

text \<open>Appending nodes in turn moves them, in order, from wherever they were.\<close>

lemma fold_append_child_moves:
  assumes "wf_tree d" and "d_nodes d w \<noteq> None" and "w \<notin> set cs" and "distinct cs"
    and "\<forall>c \<in> set cs. d_nodes d c \<noteq> None"
  shows "kids_of (fold (append_child w) cs d) m =
           (if m = w then filter (\<lambda>k. k \<notin> set cs) (kids_of d w) @ cs
            else filter (\<lambda>k. k \<notin> set cs) (kids_of d m))"
  using assms
proof (induction cs arbitrary: d)
  case Nil
  then show ?case by simp
next
  case (Cons c cs)
  have c: "d_nodes d c \<noteq> None" using Cons.prems(5) by simp
  note K = append_child_kids_parent(1) [OF Cons.prems(1) Cons.prems(2) c]
  let ?d' = "append_child w c d"
  have IH: "kids_of (fold (append_child w) cs ?d') m =
              (if m = w then filter (\<lambda>k. k \<notin> set cs) (kids_of ?d' w) @ cs
               else filter (\<lambda>k. k \<notin> set cs) (kids_of ?d' m))"
    using Cons.prems by (intro Cons.IH) simp_all
  have cs: "c \<notin> set cs" using Cons.prems(4) by simp
  show ?case
    using IH K [of m] K [of w] cs
    by (auto simp: removeAll_filter_not_eq filter_filter intro!: filter_cong)
qed

lemma fields_tree_ops [simp]:
  "d_next (fold (append_child w) cs d) = d_next d" "d_root (fold (append_child w) cs d) = d_root d"
  "d_head (fold (append_child w) cs d) = d_head d" "dom.more (fold (append_child w) cs d) = dom.more d"
  "d_root (fold detach cs d) = d_root d" "d_head (fold detach cs d) = d_head d"
  by (induction cs arbitrary: d)
     (simp_all add: append_child_def detach_def map_node_def split: option.splits)

lemma fields_create_class [simp]:
  "d_root (class_add n c (snd (create_element t d))) = d_root d"
  "d_head (class_add n c (snd (create_element t d))) = d_head d"
  "dom.more (class_add n c (snd (create_element t d))) = dom.more d"
  by (simp_all add: class_add_def create_element_def map_node_def split: option.splits)

lemma wrap_body_divs_direct_eq:
  "wrap_body_divs_direct p =
     (d_next p, prepend_child (d_body p) (d_next p)
        (fold (append_child (d_next p)) (query_all p body_divs_sel)
           (class_add (d_next p) WRAPPER_CLASS (snd (create_element ''div'' p)))))"
  by (simp add: wrap_body_divs_direct_def Let_def split_def)

section \<open>The backdrop and the content\<close>

lemma wf_tree_add_backdrop [simp]: "wf_tree p \<Longrightarrow> wf_tree (add_backdrop w p)"
  by (simp add: add_backdrop_def split_def)

lemma has_class_add_backdrop:
  "has_class (add_backdrop w p) m k =
     (if m = d_next p \<and> k = ''backdrop'' then True else m \<noteq> d_next p \<and> has_class p m k)"
  by (simp add: add_backdrop_def split_def has_class_class_add content_create_element)

lemma wf_tree_move_content [simp]: "wf_tree p \<Longrightarrow> wf_tree (snd (move_content p))"
  by (simp add: move_content_def Let_def split: option.splits)

lemma move_content_ok:
  assumes "fst (move_content p) = Inr ()"
  obtains c w g where "query p nav_content_sel = Some c"
    "query (set_attribute c ''id'' ''content'' p) old_wrap_sel = Some w"
    "query (detach w (set_attribute c ''id'' ''content'' p)) grid_sel = Some g"
    "snd (move_content p) = append_child g c (detach w (set_attribute c ''id'' ''content'' p))"
  using assms by (auto simp: move_content_def Let_def split: option.splits)

text \<open>When the three lookups succeed, the content is the last child of a grid.\<close>

lemma move_content_post:
  assumes wf: "wf_tree p" and ok: "fst (move_content p) = Inr ()"
  shows "\<exists>c g. has_class (snd (move_content p)) c ''wy-nav-content'' \<and>
           get_attribute (snd (move_content p)) c ''id'' = Some ''content'' \<and>
           has_class (snd (move_content p)) g ''wy-grid-for-nav'' \<and>
           parent_of (snd (move_content p)) c = Some g \<and> last (kids_of (snd (move_content p)) g) = c"
proof -
  obtain c w g where qc: "query p nav_content_sel = Some c"
    and qg: "query (detach w (set_attribute c ''id'' ''content'' p)) grid_sel = Some g"
    and e: "snd (move_content p) = append_child g c (detach w (set_attribute c ''id'' ''content'' p))"
    using move_content_ok [OF ok] by blast
  let ?p2 = "detach w (set_attribute c ''id'' ''content'' p)"
  have wf2: "wf_tree ?p2" using wf by simp
  have c: "d_nodes p c \<noteq> None" using query_exists [OF qc] .
  then have c2: "d_nodes ?p2 c \<noteq> None" by simp
  have g2: "d_nodes ?p2 g \<noteq> None" using query_exists [OF qg] .
  have hc: "has_class p c ''wy-nav-content''"
    using query_by_class_has_class qc unfolding nav_content_sel_def by blast
  have hg: "has_class ?p2 g ''wy-grid-for-nav''"
    using query_by_class_has_class qg unfolding grid_sel_def by blast
  note K = append_child_kids_parent [OF wf2 g2 c2]
  have "has_class (snd (move_content p)) c ''wy-nav-content'' \<and>
        get_attribute (snd (move_content p)) c ''id'' = Some ''content'' \<and>
        has_class (snd (move_content p)) g ''wy-grid-for-nav'' \<and>
        parent_of (snd (move_content p)) c = Some g \<and> last (kids_of (snd (move_content p)) g) = c"
    unfolding e using hc hg c K(1) [of g] K(2) [of c] by (simp add: get_set_attribute)
  then show ?thesis by blast
qed

section \<open>The whole function\<close>

lemma rearrangeDom_eq:
  "rearrangeDom mv p =
     (case mv (snd (wrap_body_divs p)) of
        (Inl e, p2) \<Rightarrow> (Inl e, p2)
      | (Inr _, p2) \<Rightarrow> move_content (add_backdrop (d_next p) p2))"
proof (cases "mv (snd (wrap_body_divs p))")
  case (Pair r q)
  then show ?thesis
    by (cases r) (simp_all add: rearrangeDom_def split_def js_bind_def)
qed

lemma wf_tree_rearrangeDom:
  assumes wf: "wf_tree p" and mv: "\<And>q. wf_tree q \<Longrightarrow> wf_tree (snd (mv q))"
  shows "wf_tree (snd (rearrangeDom mv p))"
proof (cases "mv (snd (wrap_body_divs p))")
  case (Pair r q)
  have "wf_tree q" using mv [of "snd (wrap_body_divs p)"] wf Pair by simp
  then show ?thesis using Pair by (cases r) (simp_all add: rearrangeDom_eq)
qed

section \<open>Results\<close>

text \<open>
  C22. On a well-formed page whose body exists and is not itself a body div, the
  first phase of \<open>rearrangeDom\<close> creates the wrapper as the first child of the body,
  followed by the body's other children in their order; the wrapper holds exactly the
  divs that were directly under \<open><body>\<close>, in document order, and carries the
  wrapper class; no other node loses or gains a child except by losing those divs.
\<close>

theorem wrap_body_divs_moves_divs:
  fixes p :: page
  assumes wf: "wf_tree p" and b: "d_nodes p (d_body p) \<noteq> None"
    and dist: "distinct (query_all p body_divs_sel)" and nb: "d_body p \<notin> set (query_all p body_divs_sel)"
  defines "bd \<equiv> query_all p body_divs_sel"
  shows "wf_tree (snd (wrap_body_divs p)) \<and>
         kids_of (snd (wrap_body_divs p)) n =
           (if n = d_body p then d_next p # filter (\<lambda>k. k \<notin> set bd) (kids_of p n)
            else if n = d_next p then bd else filter (\<lambda>k. k \<notin> set bd) (kids_of p n)) \<and>
         has_class (snd (wrap_body_divs p)) (d_next p) WRAPPER_CLASS"
proof -
  let ?w = "d_next p"
  let ?p1 = "fold detach bd p"
  let ?p3 = "class_add ?w WRAPPER_CLASS (snd (create_element ''div'' ?p1))"
  let ?p4 = "fold (append_child ?w) bd ?p3"
  have ib: "ids_below p" using wf ..
  have wf1: "wf_tree ?p1" and k1: "\<And>n. kids_of ?p1 n = filter (\<lambda>k. k \<notin> set bd) (kids_of p n)"
    and par1: "\<And>m. parent_of ?p1 m = (if m \<in> set bd then None else parent_of p m)"
    using fold_detach_tree [OF wf] by blast+
  have ib1: "ids_below ?p1" using wf1 ..
  have wf3: "wf_tree ?p3" using wf1 by simp
  have k3: "kids_of ?p3 = kids_of ?p1" and par3: "parent_of ?p3 = parent_of ?p1"
    by (simp_all add: create_element_kids_parent [OF ib1])
  have fresh: "d_nodes p ?w = None" using ids_below_fresh [OF ib] .
  have w3: "d_nodes ?p3 ?w \<noteq> None" by simp
  have lt: "c < ?w" if "c \<in> set bd" for c
    using query_all_exists [of c p body_divs_sel] that ids_below_lt [OF ib] unfolding bd_def by blast
  have wbd: "?w \<notin> set bd" using lt by blast
  have cs: "\<forall>c \<in> set bd. d_nodes ?p3 c \<noteq> None \<and> parent_of ?p3 c = None"
    using query_all_exists [of _ p body_divs_sel] par3 par1 lt unfolding bd_def by auto
  have F: "wf_tree ?p4 \<and> kids_of ?p4 m = (if m = ?w then kids_of ?p3 ?w @ bd else kids_of ?p3 m)" for m
    using fold_append_child_fresh [OF wf3 w3 wbd dist [folded bd_def] cs] .
  have kw: "kids_of ?p3 ?w = []"
    using k3 k1 wf_tree_missing_not_kid [OF wf fresh] fresh by (simp add: kids_of_def)
  have bw: "d_body p \<noteq> ?w" using b ib fresh by auto
  have wf4: "wf_tree ?p4" using F by blast
  have b4: "d_nodes ?p4 (d_body p) \<noteq> None" using b by simp
  have w4: "d_nodes ?p4 ?w \<noteq> None" by simp
  have nw: "?w \<notin> set (kids_of p n)" for n using wf_tree_missing_not_kid [OF wf fresh] .
  note K = prepend_child_kids_parent(1) [OF wf4 b4 w4]
  have kids: "kids_of (prepend_child (d_body p) ?w ?p4) n =
           (if n = d_body p then ?w # filter (\<lambda>k. k \<notin> set bd) (kids_of p n)
            else if n = ?w then bd else filter (\<lambda>k. k \<notin> set bd) (kids_of p n))"
    using K [of n] F [of n] F [of "d_body p"] k3 k1 kw bw wbd nw by auto
  show ?thesis
    using wf_tree_wrap_body_divs [OF wf] has_class_wrap_body_divs [of p "d_next p" WRAPPER_CLASS] kids
    unfolding wrap_body_divs_eq bd_def [symmetric] by simp
qed

text \<open>
  C23. When \<open>moveRstVersions\<close> keeps the page a tree and \<open>rearrangeDom\<close> returns
  normally, the main content carries the id \<open>content\<close> and is the last child of the
  grid, whatever \<open>moveRstVersions\<close> did to the page in between.
\<close>

theorem rearrangeDom_content_in_grid:
  assumes wf: "wf_tree p" and mv: "\<And>q. wf_tree q \<Longrightarrow> wf_tree (snd (mv q))"
    and ok: "fst (rearrangeDom mv p) = Inr ()"
  shows "\<exists>c g. has_class (snd (rearrangeDom mv p)) c ''wy-nav-content'' \<and>
           get_attribute (snd (rearrangeDom mv p)) c ''id'' = Some ''content'' \<and>
           has_class (snd (rearrangeDom mv p)) g ''wy-grid-for-nav'' \<and>
           parent_of (snd (rearrangeDom mv p)) c = Some g \<and>
           last (kids_of (snd (rearrangeDom mv p)) g) = c"
proof (cases "mv (snd (wrap_body_divs p))")
  case (Pair r q)
  have wfq: "wf_tree q" using mv [of "snd (wrap_body_divs p)"] wf Pair by simp
  obtain u where r: "r = Inr u" using ok Pair by (cases r) (simp_all add: rearrangeDom_eq)
  have e: "rearrangeDom mv p = move_content (add_backdrop (d_next p) q)"
    using Pair r by (simp add: rearrangeDom_eq)
  show ?thesis
    using move_content_post [OF wf_tree_add_backdrop [OF wfq]] ok unfolding e by simp
qed

text \<open>
  C24. On a well-formed page without \<open>.wy-nav-content\<close> (with a
  \<open>moveRstVersions\<close> that returns normally, keeps the page a tree and leaves the
  classes alone), \<open>rearrangeDom\<close> throws a
  \<open>TypeError\<close> at \<open>content.id\<close>, and the page is left half rearranged: the body
  divs are already in the wrapper and the backdrop is appended.
\<close>

theorem rearrangeDom_no_content:
  assumes wf: "wf_tree p" and mv: "\<And>q. wf_tree q \<Longrightarrow> wf_tree (snd (mv q))"
    and mvok: "\<And>q. fst (mv q) = Inr ()" and mvc: "\<And>q. has_class (snd (mv q)) = has_class q"
    and nc: "\<And>n. \<not> has_class p n ''wy-nav-content''"
  shows "fst (rearrangeDom mv p) = Inl (TypeError ''content'') \<and>
         snd (rearrangeDom mv p) = add_backdrop (d_next p) (snd (mv (snd (wrap_body_divs p)))) \<and>
         has_class (snd (rearrangeDom mv p)) (d_next p) WRAPPER_CLASS"
proof -
  obtain q where m: "mv (snd (wrap_body_divs p)) = (Inr (), q)"
    using mvok [of "snd (wrap_body_divs p)"] by (cases "mv (snd (wrap_body_divs p))") simp
  have hq: "has_class q = has_class (snd (wrap_body_divs p))"
    using mvc [of "snd (wrap_body_divs p)"] m by simp
  have none: "\<not> has_class (add_backdrop (d_next p) q) n ''wy-nav-content''" for n
    using nc hq by (simp add: has_class_add_backdrop has_class_wrap_body_divs WRAPPER_CLASS_def)
  have qn: "query (add_backdrop (d_next p) q) nav_content_sel = None"
    unfolding nav_content_sel_def using none by (rule query_by_class_None)
  have hw: "has_class q (d_next p) WRAPPER_CLASS" using hq by (simp add: has_class_wrap_body_divs)
  have "wf_tree q" using mv [of "snd (wrap_body_divs p)"] wf m by simp
  then have "d_next p < d_next q"
    using hw ids_below_lt [of q "d_next p"] by (auto simp: has_class_def split: option.splits)
  then have w: "has_class (add_backdrop (d_next p) q) (d_next p) WRAPPER_CLASS"
    using hq by (simp add: has_class_add_backdrop has_class_wrap_body_divs WRAPPER_CLASS_def)
  show ?thesis
    using m qn w by (simp add: rearrangeDom_eq move_content_def)
qed

text \<open>
  C25. The removal loop of line 24 is redundant: on a well-formed page, removing the
  body divs before appending them to the wrapper gives exactly the page that appending
  them directly gives, since \<open>appendChild\<close> moves a node out of its old parent.
\<close>

theorem wrap_body_divs_detach_redundant:
  assumes wf: "wf_tree p" and dist: "distinct (query_all p body_divs_sel)"
  shows "wrap_body_divs p = wrap_body_divs_direct p"
proof -
  let ?B = "query_all p body_divs_sel" and ?w = "d_next p"
  let ?PX = "class_add ?w WRAPPER_CLASS (snd (create_element ''div'' (fold detach ?B p)))"
  let ?PY = "class_add ?w WRAPPER_CLASS (snd (create_element ''div'' p))"
  let ?X = "fold (append_child ?w) ?B ?PX" and ?Y = "fold (append_child ?w) ?B ?PY"
  have ib: "ids_below p" using wf ..
  have fresh: "d_nodes p ?w = None" by (rule ids_below_fresh [OF ib])
  have ex: "\<forall>c \<in> set ?B. d_nodes p c \<noteq> None" using query_all_exists by blast
  have wB: "?w \<notin> set ?B" using ex fresh by auto
  have wf1: "wf_tree (fold detach ?B p)" and k1: "\<And>n. kids_of (fold detach ?B p) n = filter (\<lambda>k. k \<notin> set ?B) (kids_of p n)"
    and par1: "\<And>m. parent_of (fold detach ?B p) m = (if m \<in> set ?B then None else parent_of p m)"
    using fold_detach_tree [OF wf] by blast+
  have ib1: "ids_below (fold detach ?B p)" using wf1 ..
  have kX0: "kids_of ?PX = kids_of (fold detach ?B p)" and pX0: "parent_of ?PX = parent_of (fold detach ?B p)"
    by (simp_all add: create_element_kids_parent [OF ib1])
  have kY0: "kids_of ?PY = kids_of p" by (simp add: create_element_kids_parent [OF ib])
  have kw: "kids_of p ?w = []" using fresh by (simp add: kids_of_def)
  have wfX0: "wf_tree ?PX" and wfY0: "wf_tree ?PY" using wf1 wf by simp_all
  have cs: "\<forall>c \<in> set ?B. d_nodes ?PX c \<noteq> None \<and> parent_of ?PX c = None"
    using ex pX0 par1 by simp
  have KX: "kids_of ?X m = (if m = ?w then kids_of ?PX ?w @ ?B else kids_of ?PX m)" for m
    using fold_append_child_fresh [OF wfX0 _ wB dist cs] by simp
  have KY: "kids_of ?Y m = (if m = ?w then filter (\<lambda>k. k \<notin> set ?B) (kids_of ?PY ?w) @ ?B
                             else filter (\<lambda>k. k \<notin> set ?B) (kids_of ?PY m))" for m
    using fold_append_child_moves [OF wfY0 _ wB dist] ex by simp
  have kids: "kids_of ?X = kids_of ?Y"
    using KX KY kX0 kY0 k1 kw by (auto simp: fun_eq_iff)
  have par: "parent_of ?X = parent_of ?Y"
    by (rule wf_tree_parent_of_eq [OF wf_tree_fold_append_child [OF wfX0] wf_tree_fold_append_child [OF wfY0] kids])
  have cont: "content_map ?X = content_map ?Y"
    by (simp add: fun_eq_iff content_map_class_add content_map_create_element)
  have nodes: "d_nodes ?X = d_nodes ?Y"
    by (rule nodes_ext [OF _ kids par cont]) simp
  have "?X = ?Y" by (rule dom.equality) (simp_all add: nodes)
  then show ?thesis by (simp add: wrap_body_divs_eq wrap_body_divs_direct_eq)
qed

theorem wrap_body_divs_moves_divs_witness:
  "wf_tree (mk_page rtd_nodes) \<and> d_nodes (mk_page rtd_nodes) 2 \<noteq> None \<and>
   query_all (mk_page rtd_nodes) body_divs_sel = [3, 7] \<and>
   kids_of (snd (wrap_body_divs (mk_page rtd_nodes))) 2 = [8] \<and>
   kids_of (snd (wrap_body_divs (mk_page rtd_nodes))) 8 = [3, 7] \<and>
   has_class (snd (wrap_body_divs (mk_page rtd_nodes))) 8 WRAPPER_CLASS"
proof -
  have wf: "wf_tree (mk_page rtd_nodes)"
    by (rule tree_ok_wf_tree) (simp add: tree_ok_def rtd_nodes_def mk_node_def blank_node_def)
  have b: "d_nodes (mk_page rtd_nodes) (d_body (mk_page rtd_nodes)) \<noteq> None"
    by (simp add: rtd_nodes_def)
  have q: "query_all (mk_page rtd_nodes) body_divs_sel = [3, 7]"
    by (simp add: rtd_nodes_def page_eval body_divs_sel_def)
  have d: "distinct (query_all (mk_page rtd_nodes) body_divs_sel)"
    and nb: "d_body (mk_page rtd_nodes) \<notin> set (query_all (mk_page rtd_nodes) body_divs_sel)"
    using q by simp_all
  have k: "kids_of (mk_page rtd_nodes) 2 = [3, 7]" by (simp add: rtd_nodes_def page_eval)
  have n: "d_next (mk_page rtd_nodes) = 8" by (simp add: rtd_nodes_def)
  note T = wrap_body_divs_moves_divs [OF wf b d nb]
  show ?thesis
    using wf b q k n T [of 2] T [of 8] by simp
qed

theorem rearrangeDom_content_in_grid_witness:
  "wf_tree (mk_page rtd_nodes) \<and> fst (rearrangeDom js_ok (mk_page rtd_nodes)) = Inr () \<and>
   (\<exists>c g. has_class (snd (rearrangeDom js_ok (mk_page rtd_nodes))) c ''wy-nav-content'' \<and>
      get_attribute (snd (rearrangeDom js_ok (mk_page rtd_nodes))) c ''id'' = Some ''content'' \<and>
      has_class (snd (rearrangeDom js_ok (mk_page rtd_nodes))) g ''wy-grid-for-nav'' \<and>
      parent_of (snd (rearrangeDom js_ok (mk_page rtd_nodes))) c = Some g \<and>
      last (kids_of (snd (rearrangeDom js_ok (mk_page rtd_nodes))) g) = c)"
proof -
  have wf: "wf_tree (mk_page rtd_nodes)"
    by (rule tree_ok_wf_tree) (simp add: tree_ok_def rtd_nodes_def mk_node_def blank_node_def)
  have ok: "fst (rearrangeDom js_ok (mk_page rtd_nodes)) = Inr ()"
    by (simp add: rearrangeDom_eq wrap_body_divs_def Let_def add_backdrop_def move_content_def
        rtd_nodes_def page_eval body_divs_sel_def nav_content_sel_def old_wrap_sel_def grid_sel_def
        WRAPPER_CLASS_def)
  have mv: "\<And>q. wf_tree q \<Longrightarrow> wf_tree (snd (js_ok q))" by simp
  show ?thesis using wf ok rearrangeDom_content_in_grid [OF wf mv ok] by blast
qed

theorem rearrangeDom_no_content_witness:
  "wf_tree (mk_page search_nodes) \<and>
   fst (rearrangeDom js_ok (mk_page search_nodes)) = Inl (TypeError ''content'') \<and>
   snd (rearrangeDom js_ok (mk_page search_nodes)) =
     add_backdrop 7 (snd (wrap_body_divs (mk_page search_nodes))) \<and>
   has_class (snd (rearrangeDom js_ok (mk_page search_nodes))) 7 WRAPPER_CLASS"
proof -
  have wf: "wf_tree (mk_page search_nodes)"
    by (rule tree_ok_wf_tree) (simp add: tree_ok_def search_nodes_def mk_node_def blank_node_def)
  have mv: "\<And>q. wf_tree q \<Longrightarrow> wf_tree (snd (js_ok q))" by simp
  have mvok: "\<And>q. fst (js_ok q) = Inr ()" and mvc: "\<And>q. has_class (snd (js_ok q)) = has_class q"
    by simp_all
  have nc: "\<And>n. \<not> has_class (mk_page search_nodes) n ''wy-nav-content''"
    by (simp add: has_class_def search_nodes_def mk_node_def blank_node_def split: option.splits)
  have n: "d_next (mk_page search_nodes) = 7" by (simp add: search_nodes_def)
  show ?thesis
    using wf rearrangeDom_no_content [of "mk_page search_nodes" js_ok, OF wf mv mvok mvc nc]
    unfolding n js_ok_simp snd_conv by blast
qed

theorem wrap_body_divs_detach_redundant_witness:
  "wf_tree (mk_page rtd_nodes) \<and> distinct (query_all (mk_page rtd_nodes) body_divs_sel) \<and>
   wrap_body_divs (mk_page rtd_nodes) = wrap_body_divs_direct (mk_page rtd_nodes)"
proof -
  have wf: "wf_tree (mk_page rtd_nodes)"
    by (rule tree_ok_wf_tree) (simp add: tree_ok_def rtd_nodes_def mk_node_def blank_node_def)
  have d: "distinct (query_all (mk_page rtd_nodes) body_divs_sel)"
    by (simp add: rtd_nodes_def page_eval body_divs_sel_def)
  show ?thesis using wf d wrap_body_divs_detach_redundant [OF wf d] by blast
qed

end
