(* ===== verification/Events.thy ===== *)
theory Events
  imports Assembly
begin

text \<open>
  The page after load as an event system. Two kinds of events reach the script: a
  click on an element, which runs the element's handlers (\<open>onclick\<close> and the
  listeners added with \<open>addEventListener\<close>, in the order they were installed), and
  the response to a fetch in flight, which runs the fetch's continuation
  (\<open>complete\<close> of \<open>Theme\<close>). The closures the script installs are those of
  \<open>listener\<close>: \<open>toggleDropdown\<close> (line 183), the theme items' \<open>onclick\<close>
  (lines 247--250), the theme button's listener (lines 260--263) and \<open>toggleMenu\<close>
  (line 271). \<open>toggleDropdown\<close> is defined in a script that is not in the sources; it
  is a parameter \<open>td\<close> of the model. A listener that throws does not stop the
  dispatch: the DOM reports the exception and runs the next listener, on the state
  the failed one left. The lemmas show that every step keeps the tree well formed, the
  fetch table consistent and the class lists free of duplicates. These invariants come
  from the DOM, \<open>classList\<close> and fetch primitives, whatever the handlers do, so they
  are library lemmas here and not claims about the script.
\<close>

section \<open>Running a listener and dispatching a click\<close>

text \<open>
  \<open>menuButton.addEventListener("click", toggleMenu)\<close> (line 271) passes the
  \<open>MouseEvent\<close> as \<open>options\<close>; a \<open>MouseEvent\<close> has no property \<open>force\<close>, so
  \<open>options.force\<close> is \<open>undefined\<close> and the call is a plain toggle.
\<close>

definition run_listener ::
  "(page \<Rightarrow> (page, unit) js_result) \<Rightarrow> listener \<Rightarrow> page \<Rightarrow> (page, unit) js_result" where
  "run_listener td l p =
     (case l of
        ToggleDropdown \<Rightarrow> td p
      | ThemeItemClick v \<Rightarrow> theme_item_click COLOR_MODES v p
      | ThemeButtonClick m \<Rightarrow> (Inr (), theme_button_click m p)
      | MobileMenuClick \<Rightarrow> toggleMenu None p)"

primrec slot_listener :: "listener handler_slot \<Rightarrow> listener" where
  "slot_listener (OnClick l) = l"
| "slot_listener (Listener l) = l"

definition dispatch_click :: "(page \<Rightarrow> (page, unit) js_result) \<Rightarrow> nid \<Rightarrow> page \<Rightarrow> page" where
  "dispatch_click td n p = fold (\<lambda>h q. snd (run_listener td (slot_listener h) q)) (handlers_of p n) p"

section \<open>Events and the step relation\<close>

datatype event = Click nid | FetchDone nat fetch_outcome

inductive page_step ::
  "(page \<Rightarrow> (page, unit) js_result) \<Rightarrow> event \<Rightarrow> page \<Rightarrow> page \<Rightarrow> bool" for td where
  click: "d_nodes p n \<noteq> None \<Longrightarrow> page_step td (Click n) p (dispatch_click td n p)"
| fetch_done: "i < length (inflight p) \<Longrightarrow> page_step td (FetchDone i r) p (complete i r p)"

inductive_cases page_step_ClickE: "page_step td (Click n) p q"
inductive_cases page_step_FetchDoneE: "page_step td (FetchDone i r) p q"

text \<open>Some sequence of events leads from \<open>p\<close> to \<open>q\<close>.\<close>

abbreviation reachable :: "(page \<Rightarrow> (page, unit) js_result) \<Rightarrow> page \<Rightarrow> page \<Rightarrow> bool" where
  "reachable td \<equiv> (\<lambda>p q. \<exists>e. page_step td e p q)\<^sup>*\<^sup>*"

text \<open>Responses to the pending fetches, in the order they were started.\<close>

definition complete_in_order :: "fetch_outcome list \<Rightarrow> page \<Rightarrow> page" where
  "complete_in_order rs p = fold (complete 0) rs p"

text \<open>
  The type invariant of \<open>classList\<close>: a \<open>DOMTokenList\<close> is an ordered set, so no
  node carries a class twice.
\<close>

definition classes_ok :: "('l, 'z) dom_scheme \<Rightarrow> bool" where
  "classes_ok d = (\<forall>n x. d_nodes d n = Some x \<longrightarrow> distinct (n_classes x))"

section \<open>Listeners keep the fetches and the cache\<close>

lemma page_globals_of_more:
  "dom.more p = dom.more (q :: page) \<Longrightarrow> inflight p = inflight q \<and> loadedSvgs p = loadedSvgs q"
  using page_globals_more by blast

lemma theme_button_click_globals:
  "inflight (theme_button_click m p) = inflight p \<and> loadedSvgs (theme_button_click m p) = loadedSvgs p"
  by (rule page_globals_of_more) (simp add: theme_button_click_def Let_def)

lemma closeThemeMenu_globals:
  "inflight (snd (closeThemeMenu p)) = inflight p \<and> loadedSvgs (snd (closeThemeMenu p)) = loadedSvgs p"
  by (rule page_globals_of_more [OF more_closeThemeMenu])

lemma render_mode_icon_globals:
  "inflight (render_mode_icon p) = inflight p \<and> loadedSvgs (render_mode_icon p) = loadedSvgs p"
  by (rule page_globals_of_more [OF more_render_mode_icon])

lemma theme_item_click_globals:
  "inflight (snd (theme_item_click modes v p)) = inflight p \<and>
   loadedSvgs (snd (theme_item_click modes v p)) = loadedSvgs p"
proof (cases "v \<in> set (mode_values modes)")
  case True
  then have "theme_item_click modes v p = closeThemeMenu (render_mode_icon (p\<lparr>mode := v\<rparr>))"
    by (simp add: theme_item_click_def setColorMode_valid)
  then show ?thesis using closeThemeMenu_globals render_mode_icon_globals by simp
next
  case False
  then show ?thesis by (simp add: theme_item_click_def setColorMode_def)
qed

lemma more_fold_class_toggle: "dom.more (fold (\<lambda>e. class_toggle e c f) xs d) = dom.more d"
  by (induction xs arbitrary: d) simp_all

lemma toggleMenu_globals:
  "inflight (snd (toggleMenu f p)) = inflight p \<and> loadedSvgs (snd (toggleMenu f p)) = loadedSvgs p"
  by (rule page_globals_of_more)
     (simp add: toggleMenu_eq Let_def more_fold_class_toggle split: option.splits)

lemma run_listener_globals:
  assumes tdg: "\<And>q. inflight (snd (td q)) = inflight q \<and> loadedSvgs (snd (td q)) = loadedSvgs q"
  shows "inflight (snd (run_listener td l p)) = inflight p \<and>
         loadedSvgs (snd (run_listener td l p)) = loadedSvgs p"
  by (cases l) (simp_all add: run_listener_def tdg theme_item_click_globals
      theme_button_click_globals toggleMenu_globals)

lemma run_listener_wf_tree:
  assumes tdw: "\<And>q. wf_tree q \<Longrightarrow> wf_tree (snd (td q))"
  shows "wf_tree p \<Longrightarrow> wf_tree (snd (run_listener td l p))"
  by (cases l) (simp_all add: run_listener_def tdw wf_tree_theme_item_click
      wf_tree_theme_button_click wf_tree_toggleMenu)

lemma fold_preserve: "(\<And>x q. P q \<Longrightarrow> P (f x q)) \<Longrightarrow> P p \<Longrightarrow> P (fold f xs p)"
  by (induction xs arbitrary: p) simp_all

lemma dispatch_click_globals:
  assumes tdg: "\<And>q. inflight (snd (td q)) = inflight q \<and> loadedSvgs (snd (td q)) = loadedSvgs q"
  shows "inflight (dispatch_click td n p) = inflight p \<and> loadedSvgs (dispatch_click td n p) = loadedSvgs p"
  unfolding dispatch_click_def
  by (rule fold_preserve [where P = "\<lambda>q. inflight q = inflight p \<and> loadedSvgs q = loadedSvgs p"])
     (simp_all add: run_listener_globals [OF tdg])

lemma dispatch_click_wf_tree:
  assumes tdw: "\<And>q. wf_tree q \<Longrightarrow> wf_tree (snd (td q))"
  shows "wf_tree p \<Longrightarrow> wf_tree (dispatch_click td n p)"
  unfolding dispatch_click_def by (rule fold_preserve) (rule run_listener_wf_tree [OF tdw])

section \<open>Every operation keeps the class lists duplicate-free\<close>

lemma classes_ok_map_node:
  "(\<And>x. distinct (n_classes x) \<Longrightarrow> distinct (n_classes (f x))) \<Longrightarrow> classes_ok d \<Longrightarrow>
   classes_ok (map_node n f d)"
  by (auto simp: classes_ok_def d_nodes_map_node split: if_splits option.splits)

lemma classes_ok_ops [simp]:
  "classes_ok d \<Longrightarrow> classes_ok (set_attribute n k v d)"
  "classes_ok d \<Longrightarrow> classes_ok (class_add n c d)"
  "classes_ok d \<Longrightarrow> classes_ok (class_remove n c d)"
  "classes_ok d \<Longrightarrow> classes_ok (class_toggle n c f d)"
  "classes_ok d \<Longrightarrow> classes_ok (detach m d)"
  "classes_ok d \<Longrightarrow> classes_ok (append_child a b d)"
  "classes_ok d \<Longrightarrow> classes_ok (snd (create_element t d))"
  by (auto simp: set_attribute_def class_add_def class_remove_def class_toggle_def detach_def
      append_child_def create_element_def intro!: classes_ok_map_node split: option.splits)
     (auto simp: classes_ok_def blank_node_def)

lemma classes_ok_fold_detach [simp]: "classes_ok d \<Longrightarrow> classes_ok (fold detach cs d)"
  by (induction cs arbitrary: d) simp_all

lemma classes_ok_set_text [simp]: "classes_ok d \<Longrightarrow> classes_ok (set_text n s d)"
  by (auto simp: set_text_def intro!: classes_ok_map_node split: option.splits)

lemma classes_ok_fold_toggle [simp]:
  "classes_ok d \<Longrightarrow> classes_ok (fold (\<lambda>e. class_toggle e c f) xs d)"
  by (induction xs arbitrary: d) simp_all

lemma classes_ok_more [simp]: "classes_ok (p\<lparr>mode := v\<rparr>) = classes_ok p"
  "classes_ok (p\<lparr>loadedSvgs := l\<rparr>) = classes_ok p" "classes_ok (p\<lparr>inflight := i\<rparr>) = classes_ok p"
  by (simp_all add: classes_ok_def)

lemma classes_ok_run_listener:
  assumes tdc: "\<And>q. classes_ok q \<Longrightarrow> classes_ok (snd (td q))"
  shows "classes_ok p \<Longrightarrow> classes_ok (snd (run_listener td l p))"
  by (cases l)
     (auto simp: run_listener_def tdc theme_item_click_def js_bind_def setColorMode_def
      render_mode_icon_def closeThemeMenu_def theme_button_click_def Let_def toggleMenu_eq
      split: prod.splits sum.splits option.splits)

lemma classes_ok_complete: "classes_ok p \<Longrightarrow> classes_ok (complete i r p)"
  by (auto simp: complete_def Let_def run_task_def store_icon_def append_svg_markup_def split_def
      split: fetch_outcome.splits task.splits sum.splits)

lemma page_step_classes_ok:
  assumes tdc: "\<And>q. classes_ok q \<Longrightarrow> classes_ok (snd (td q))"
  shows "page_step td e p q \<Longrightarrow> classes_ok p \<Longrightarrow> classes_ok q"
  by (induction rule: page_step.induct)
     (simp_all add: dispatch_click_def fold_preserve classes_ok_run_listener [OF tdc] classes_ok_complete)

section \<open>One step\<close>

lemma page_step_inflight:
  assumes tdg: "\<And>q. inflight (snd (td q)) = inflight q \<and> loadedSvgs (snd (td q)) = loadedSvgs q"
  shows "page_step td e p q \<Longrightarrow>
         inflight q = (case e of Click n \<Rightarrow> inflight p
                       | FetchDone i r \<Rightarrow> take i (inflight p) @ drop (Suc i) (inflight p))"
  by (induction rule: page_step.induct) (simp_all add: dispatch_click_globals [OF tdg] complete_inflight)

lemma page_step_wf_tree:
  assumes tdw: "\<And>q. wf_tree q \<Longrightarrow> wf_tree (snd (td q))"
  shows "page_step td e p q \<Longrightarrow> wf_tree p \<Longrightarrow> wf_tree q"
  by (induction rule: page_step.induct) (simp_all add: dispatch_click_wf_tree [OF tdw] wf_tree_complete)

lemma page_step_icon_tasks_ok:
  assumes tdg: "\<And>q. inflight (snd (td q)) = inflight q \<and> loadedSvgs (snd (td q)) = loadedSvgs q"
  shows "page_step td e p q \<Longrightarrow> icon_tasks_ok p \<Longrightarrow> icon_tasks_ok q"
  by (induction rule: page_step.induct)
     (simp_all add: icon_tasks_ok_def dispatch_click_globals [OF tdg] complete_icon_tasks_ok [unfolded icon_tasks_ok_def])

lemma page_step_other_keys:
  assumes tdg: "\<And>q. inflight (snd (td q)) = inflight q \<and> loadedSvgs (snd (td q)) = loadedSvgs q"
  shows "page_step td e p q \<Longrightarrow> icon_tasks_ok p \<Longrightarrow> k \<noteq> ''undefined'' \<Longrightarrow>
         loadedSvgs q k = loadedSvgs p k"
  by (induction rule: page_step.induct) (simp_all add: dispatch_click_globals [OF tdg] complete_other_keys)

text \<open>An invariant of every step holds in every state reachable from a state that has it.\<close>

lemma reachable_invariant:
  assumes step: "\<And>e p q. page_step td e p q \<Longrightarrow> I p \<Longrightarrow> I q"
  shows "reachable td p q \<Longrightarrow> I p \<Longrightarrow> I q"
  by (induction rule: rtranclp_induct) (auto intro: step)

lemma page_step_inflight_length:
  assumes tdg: "\<And>q. inflight (snd (td q)) = inflight q \<and> loadedSvgs (snd (td q)) = loadedSvgs q"
  shows "page_step td e p q \<Longrightarrow>
         length (inflight q) = (case e of Click n \<Rightarrow> length (inflight p)
                                | FetchDone i r \<Rightarrow> length (inflight p) - 1)"
  by (induction rule: page_step.induct) (simp_all add: dispatch_click_globals [OF tdg] complete_inflight)

lemma complete_0_inflight: "inflight (complete 0 r p) = tl (inflight p)"
  by (cases "inflight p") (simp_all add: complete_inflight)

lemma preload_icon_tasks_ok_empty: "icon_tasks_ok (preloadColorModeIcons modes (empty_page md))"
  by (rule preload_icon_tasks_ok) (simp add: icon_tasks_ok_def empty_page_def)

lemma preload_inflight_length [simp]:
  "length (inflight (preloadColorModeIcons modes p)) = length (inflight p) + length modes"
  by (simp add: preload_inflight)

lemma wf_tree_preload [simp]: "wf_tree (preloadColorModeIcons modes p) = wf_tree p"
  by (simp add: preload_inflight wf_tree_def kids_of_def parent_of_def ids_below_def)

end
