(* ===== verification/HeaderBuild.thy ===== *)
theory HeaderBuild
  imports Navigation Rearrange
begin

text \<open>
  The composition of \<open>buildHeader\<close> (lines 120--274) from the parts modelled in
  \<open>Navigation\<close> and \<open>Header\<close>: the tree the whole function builds under the wrapper,
  and its failure on a page without the wrapper, which \<open>rearrangeDom\<close> creates. The
  proofs execute the function symbolically: every step of the header creates an
  element, decorates it and attaches it to an existing node, and \<open>attach_fresh\<close>
  gives the children and parents after such a step as an update of those before it.
  The lemmas \<open>build_header_top_Some\<close>, \<open>nav_links_kids\<close>, \<open>theme_menu_kids\<close> and
  \<open>mobile_button_built\<close> state each stage of the header this way; C26 composes them
  and C27 is the \<open>TypeError\<close> of line 123.
\<close>

section \<open>A page with the wrapper\<close>

text \<open>
  The document \<open>buildHeader\<close> expects after \<open>rearrangeDom\<close>: a \<open><body>\<close> (node 2)
  holding the wrapper (node 3).
\<close>

definition wrapped_nodes :: "(nid \<times> listener node) list" where
  "wrapped_nodes =
     [(0, mk_node ''html'' [] [] [1, 2] None), (1, mk_node ''head'' [] [] [] (Some 0)),
      (2, mk_node ''body'' [] [] [3] (Some 0)), (3, mk_node ''div'' [WRAPPER_CLASS] [] [] (Some 2))]"

section \<open>Symbolic execution of the tree edits\<close>

lemma parent_of_fresh: "ids_below d \<Longrightarrow> d_next d \<le> m \<Longrightarrow> parent_of d m = None"
  using ids_below_lt [of d m] by (cases "d_nodes d m") (auto simp: parent_of_def)

lemma kids_of_fresh: "ids_below d \<Longrightarrow> d_next d \<le> m \<Longrightarrow> kids_of d m = []"
  using ids_below_lt [of d m] by (cases "d_nodes d m") (auto simp: kids_of_def)

lemma exec_create:
  "wf_tree d \<Longrightarrow> kids_of (snd (create_element t d)) = kids_of d"
  "wf_tree d \<Longrightarrow> parent_of (snd (create_element t d)) = parent_of d"
  using create_element_kids_parent [OF wf_tree_ids_below] by blast+

lemma exec_append_orphan:
  assumes "wf_tree d" "d_nodes d a \<noteq> None" "d_nodes d b \<noteq> None" "parent_of d b = None"
  shows "kids_of (append_child a b d) = (kids_of d)(a := kids_of d a @ [b])"
    and "parent_of (append_child a b d) = (parent_of d)(b := Some a)"
proof -
  have nk: "b \<notin> set (kids_of d n)" for n using wf_tree_orphan [OF assms(1,4)] .
  note K = append_child_kids_parent [OF assms(1-3)]
  show "kids_of (append_child a b d) = (kids_of d)(a := kids_of d a @ [b])"
    using K(1) nk by (simp add: fun_eq_iff)
  show "parent_of (append_child a b d) = (parent_of d)(b := Some a)"
    using K(2) by (simp add: fun_eq_iff)
qed

lemma exec_prepend_orphan:
  assumes "wf_tree d" "d_nodes d a \<noteq> None" "d_nodes d b \<noteq> None" "parent_of d b = None"
  shows "kids_of (prepend_child a b d) = (kids_of d)(a := b # kids_of d a)"
    and "parent_of (prepend_child a b d) = (parent_of d)(b := Some a)"
proof -
  have nk: "b \<notin> set (kids_of d n)" for n using wf_tree_orphan [OF assms(1,4)] .
  note K = prepend_child_kids_parent [OF assms(1-3)]
  show "kids_of (prepend_child a b d) = (kids_of d)(a := b # kids_of d a)"
    using K(1) nk by (simp add: fun_eq_iff)
  show "parent_of (prepend_child a b d) = (parent_of d)(b := Some a)"
    using K(2) by (simp add: fun_eq_iff)
qed

lemma exec_set_text_leaf:
  "kids_of d n = [] \<Longrightarrow> kids_of (set_text n s d) = kids_of d"
  "kids_of d n = [] \<Longrightarrow> parent_of (set_text n s d) = parent_of d"
  by (simp_all add: set_text_leaf kids_of_map_node_keep parent_of_map_node_keep)

lemma appendSvg_frame [simp]:
  "kids_of (appendSvg path el cls p) = kids_of p" "parent_of (appendSvg path el cls p) = parent_of p"
  "d_nodes (appendSvg path el cls p) = d_nodes p" "d_next (appendSvg path el cls p) = d_next p"
  "has_class (appendSvg path el cls p) = has_class p"
  "handlers_of (appendSvg path el cls p) = handlers_of p"
  by (simp_all add: appendSvg_def start_fetch_def kids_of_def parent_of_def has_class_def
      handlers_of_def fun_eq_iff)

lemma ids_below_tree_ops [simp]:
  "ids_below (append_child a b d) = ids_below d" "ids_below (prepend_child a b d) = ids_below d"
  by (simp_all add: append_child_def prepend_child_def)

lemma prepend_child_exists [simp]:
  "(d_nodes (prepend_child p c d) n = None) = (d_nodes d n = None)"
  by (simp add: prepend_child_def)

text \<open>
  The pattern of the header: create an element, decorate it without touching the
  tree (\<open>G\<close>), attach it to an existing node.
\<close>

lemma attach_fresh:
  fixes G :: "('l, 'z) dom_scheme \<Rightarrow> ('l, 'z) dom_scheme"
  assumes wf: "wf_tree d" and a: "d_nodes d a \<noteq> None"
    and Gk: "kids_of (G (snd (create_element t d))) = kids_of (snd (create_element t d))"
    and Gp: "parent_of (G (snd (create_element t d))) = parent_of (snd (create_element t d))"
    and Gw: "wf_tree (G (snd (create_element t d)))"
    and Gn: "\<And>m. (d_nodes (G (snd (create_element t d))) m = None) = (d_nodes (snd (create_element t d)) m = None)"
  shows "kids_of (append_child a (d_next d) (G (snd (create_element t d)))) = (kids_of d)(a := kids_of d a @ [d_next d])"
    and "parent_of (append_child a (d_next d) (G (snd (create_element t d)))) = (parent_of d)(d_next d := Some a)"
    and "kids_of (prepend_child a (d_next d) (G (snd (create_element t d)))) = (kids_of d)(a := d_next d # kids_of d a)"
    and "parent_of (prepend_child a (d_next d) (G (snd (create_element t d)))) = (parent_of d)(d_next d := Some a)"
proof -
  have ib: "ids_below d" using wf ..
  let ?X = "G (snd (create_element t d))"
  have ax: "d_nodes ?X a \<noteq> None" using a Gn by simp
  have nx: "d_nodes ?X (d_next d) \<noteq> None" using Gn by simp
  have px: "parent_of ?X (d_next d) = None" using Gp exec_create(2) [OF wf] parent_of_fresh [OF ib] by simp
  have kx: "kids_of ?X = kids_of d" using Gk exec_create(1) [OF wf] by simp
  have pp: "parent_of ?X = parent_of d" using Gp exec_create(2) [OF wf] by simp
  show "kids_of (append_child a (d_next d) ?X) = (kids_of d)(a := kids_of d a @ [d_next d])"
    "parent_of (append_child a (d_next d) ?X) = (parent_of d)(d_next d := Some a)"
    using exec_append_orphan [OF Gw ax nx px] kx pp by simp_all
  show "kids_of (prepend_child a (d_next d) ?X) = (kids_of d)(a := d_next d # kids_of d a)"
    "parent_of (prepend_child a (d_next d) ?X) = (parent_of d)(d_next d := Some a)"
    using exec_prepend_orphan [OF Gw ax nx px] kx pp by simp_all
qed

section \<open>The top of the header (lines 121--145)\<close>

lemma build_header_top_Some:
  fixes cfg :: header_config
  assumes wf: "wf_tree p"
    and q: "query (class_add (d_next p) ''unified-header'' (snd (create_element ''div'' p)))
              (by_class WRAPPER_CLASS) = Some wr"
  shows "fst (build_header_top cfg p) = Inr (Suc (d_next p), d_next p + 4)"
    and "wf_tree (snd (build_header_top cfg p))"
    and "d_next (snd (build_header_top cfg p)) = d_next p + 5"
    and "kids_of (snd (build_header_top cfg p)) =
           (kids_of p)(wr := d_next p # kids_of p wr, d_next p := [Suc (d_next p)],
                       Suc (d_next p) := [d_next p + 2, d_next p + 3, d_next p + 4])"
    and "has_class (snd (build_header_top cfg p)) wr WRAPPER_CLASS"
    and "d_nodes (snd (build_header_top cfg p)) (Suc (d_next p)) \<noteq> None"
    and "d_nodes (snd (build_header_top cfg p)) (d_next p + 4) \<noteq> None"
proof -
  let ?h = "d_next p"
  define P3 where "P3 = prepend_child wr ?h (class_add ?h ''unified-header'' (snd (create_element ''div'' p)))"
  define P6 where "P6 = append_child ?h (d_next P3)
                          (class_add (d_next P3) ''inner-header'' (snd (create_element ''div'' P3)))"
  define P11 where "P11 = append_child (d_next P3) (d_next P6)
     (set_attribute (d_next P6) ''aria-label'' ''Remix project home''
       (set_attribute (d_next P6) ''href'' (hc_home_url cfg)
         (class_add (d_next P6) ''home-link'' (snd (create_element ''a'' P6)))))"
  define P12 where "P12 = appendSvg (hc_logo_path cfg) (d_next P6) (hc_logo_class cfg) P11"
  define P17 where "P17 = append_child (d_next P3) (d_next P12)
     (set_text (d_next P12) ''skip to content''
       (set_attribute (d_next P12) ''href'' ''#content''
         (class_add (d_next P12) ''skip-to-content'' (snd (create_element ''a'' P12)))))"
  define P20 where "P20 = append_child (d_next P3) (d_next P17)
     (class_add (d_next P17) ''nav-bar'' (snd (create_element ''nav'' P17)))"
  have ib: "ids_below p" using wf ..
  have hc: "has_class (class_add ?h ''unified-header'' (snd (create_element ''div'' p))) wr WRAPPER_CLASS"
    using query_by_class_has_class [OF q] .
  have wrh: "wr \<noteq> ?h"
    using hc by (auto simp: has_class_class_add content_create_element WRAPPER_CLASS_def)
  have wrp: "d_nodes p wr \<noteq> None"
    using query_exists [OF q] wrh by simp
  have lt: "wr < ?h" using wrp ids_below_lt [OF ib] by blast
  have n3: "d_next P3 = Suc ?h" and n6: "d_next P6 = ?h + 2" and n11: "d_next P11 = ?h + 3" and n12: "d_next P12 = ?h + 3"
    and n17: "d_next P17 = ?h + 4" and n20: "d_next P20 = ?h + 5"
    by (simp_all add: P3_def P6_def P11_def P12_def P17_def P20_def)
  have e: "build_header_top cfg p = (Inr (Suc ?h, ?h + 4), P20)"
    using q by (simp add: build_header_top_def Let_def split_def P3_def P6_def P11_def P12_def
        P17_def P20_def)
  have wf3: "wf_tree P3" and wf6: "wf_tree P6" and wf11: "wf_tree P11" and wf12: "wf_tree P12"
    and wf17: "wf_tree P17" and wf20: "wf_tree P20"
    using wf by (simp_all add: P3_def P6_def P11_def P12_def P17_def P20_def)
  have k3: "kids_of P3 = (kids_of p)(wr := ?h # kids_of p wr)"
    unfolding P3_def
    by (rule attach_fresh(3) [where G = "class_add ?h ''unified-header''"]) (simp_all add: wf wrp)
  have a3: "d_nodes P3 ?h \<noteq> None" and a6: "d_nodes P6 (d_next P3) \<noteq> None"
    and a12: "d_nodes P12 (d_next P3) \<noteq> None" and a17: "d_nodes P17 (d_next P3) \<noteq> None"
    by (simp_all add: P3_def P6_def P11_def P12_def P17_def)
  have k6: "kids_of P6 = (kids_of P3)(?h := kids_of P3 ?h @ [d_next P3])"
    unfolding P6_def
    by (rule attach_fresh(1) [where G = "class_add (d_next P3) ''inner-header''"])
       (simp_all add: wf3 a3)
  have k11: "kids_of P11 = (kids_of P6)(d_next P3 := kids_of P6 (d_next P3) @ [d_next P6])"
    unfolding P11_def
    by (rule attach_fresh(1) [where G = "\<lambda>x. set_attribute (d_next P6) ''aria-label'' ''Remix project home''
       (set_attribute (d_next P6) ''href'' (hc_home_url cfg) (class_add (d_next P6) ''home-link'' x))"])
       (simp_all add: wf6 a6)
  have kf12: "kids_of (snd (create_element ''a'' P12)) (d_next P12) = []"
    using kids_of_fresh [OF wf_tree_ids_below [OF wf12]] exec_create(1) [OF wf12] by simp
  have k17: "kids_of P17 = (kids_of P12)(d_next P3 := kids_of P12 (d_next P3) @ [d_next P12])"
    unfolding P17_def
    by (rule attach_fresh(1) [where G = "\<lambda>x. set_text (d_next P12) ''skip to content''
       (set_attribute (d_next P12) ''href'' ''#content'' (class_add (d_next P12) ''skip-to-content'' x))"])
       (simp_all add: wf12 a12 exec_set_text_leaf kf12)
  have k20: "kids_of P20 = (kids_of P17)(d_next P3 := kids_of P17 (d_next P3) @ [d_next P17])"
    unfolding P20_def
    by (rule attach_fresh(1) [where G = "class_add (d_next P17) ''nav-bar''"])
       (simp_all add: wf17 a17)
  have kf: "\<And>m. ?h \<le> m \<Longrightarrow> kids_of p m = []" using kids_of_fresh [OF ib] .
  show "fst (build_header_top cfg p) = Inr (Suc ?h, ?h + 4)" by (simp add: e)
  show "wf_tree (snd (build_header_top cfg p))" by (simp add: e wf20)
  show "d_next (snd (build_header_top cfg p)) = ?h + 5" by (simp add: e n20)
  show "kids_of (snd (build_header_top cfg p)) =
           (kids_of p)(wr := ?h # kids_of p wr, ?h := [Suc ?h], Suc ?h := [?h + 2, ?h + 3, ?h + 4])"
    unfolding e snd_conv k20 k17 P12_def appendSvg_frame k11 k6 k3 n3 n6 n11 n12 n17
    using lt kf [of ?h] kf [of "Suc ?h"] by (auto simp: fun_eq_iff)
  show "has_class (snd (build_header_top cfg p)) wr WRAPPER_CLASS"
    using hc lt by (simp add: e P3_def P6_def P11_def P12_def P17_def P20_def
        has_class_class_add content_create_element)
  show "d_nodes (snd (build_header_top cfg p)) (Suc ?h) \<noteq> None"
    "d_nodes (snd (build_header_top cfg p)) (?h + 4) \<noteq> None"
    by (simp_all add: e P3_def P6_def P11_def P12_def P17_def P20_def)
qed

section \<open>The navigation bar of plain links, seen from the rest of the tree\<close>

lemma nav_links_kids:
  fixes cfg :: header_config
  assumes wf: "wf_tree p" and nb: "d_nodes p nb \<noteq> None"
    and L: "list_all href_truthy (hc_nav_links cfg)"
  shows "build_nav_links cfg nb p =
           (Inr (), snd (build_nav_links cfg nb p))"
    and "wf_tree (snd (build_nav_links cfg nb p))"
    and "kids_of (snd (build_nav_links cfg nb p)) =
           (kids_of p)(nb := kids_of p nb @ [d_next p..<d_next p + length (hc_nav_links cfg)])"
    and "d_next (snd (build_nav_links cfg nb p)) = d_next p + length (hc_nav_links cfg)"
    and "\<And>m. m < d_next p \<Longrightarrow>
           (d_nodes (snd (build_nav_links cfg nb p)) m = None) = (d_nodes p m = None)"
proof -
  let ?L = "hc_nav_links cfg"
  have e: "build_nav_links cfg nb p =
             (Inr (), fold (append_child nb) [d_next p..<d_next p + length ?L] (build_plain_links cfg ?L p))"
    by (simp add: build_nav_links_def js_map_plain_links [OF L] forEach_append_nav_link)
  note FL = fold_nav_links [OF wf, of cfg ?L]
  note AP = append_plain_links [OF wf nb, where cfg = cfg and xs = ?L]
  show "build_nav_links cfg nb p = (Inr (), snd (build_nav_links cfg nb p))" by (simp add: e)
  show "wf_tree (snd (build_nav_links cfg nb p))" using AP by (simp add: e)
  show "kids_of (snd (build_nav_links cfg nb p)) =
          (kids_of p)(nb := kids_of p nb @ [d_next p..<d_next p + length ?L])"
    using AP by (simp add: e)
  show "d_next (snd (build_nav_links cfg nb p)) = d_next p + length ?L"
    using FL by (simp add: e)
  show "(d_nodes (snd (build_nav_links cfg nb p)) m = None) = (d_nodes p m = None)"
    if "m < d_next p" for m
    using FL that by (simp add: e)
qed

section \<open>The theme menu and the mobile button, seen from the rest of the tree\<close>

text \<open>
  \<open>build_theme_menu\<close> (lines 151--265) attaches its wrapper to the container and
  otherwise builds below fresh nodes: every older element keeps its children.
\<close>

lemma theme_menu_kids:
  fixes modes :: "color_mode list" and md :: string
  assumes ok: "ids_below p" and c: "d_nodes p c = Some cx" and n: "n < d_next p"
  shows "kids_of (snd (snd (build_theme_menu modes md c p))) n =
           (if n = c then kids_of p c @ [d_next p] else kids_of p n)"
    and "(d_nodes (snd (snd (build_theme_menu modes md c p))) n = None) = (d_nodes p n = None)"
proof -
  let ?w = "d_next p"
  define P where "P = set_attribute (Suc (Suc ?w)) ''aria-label'' ''Toggle theme menu''
          (set_attribute (Suc (Suc ?w)) ''aria-expanded'' ''false''
           (class_add (Suc (Suc ?w)) THEME_DROPDOWN_MENU_CLASS
            (snd (create_element ''div''
             (append_child ?w (Suc ?w)
              (appendSvg (getIconFromMode modes md) (Suc ?w) COLOR_TOGGLE_ICON_CLASS
               (set_attribute (Suc ?w) ''aria-label'' ''Theme menu button''
                (set_attribute (Suc ?w) ''type'' ''button''
                 (class_add (Suc ?w) THEME_BUTTON_CLASS
                  (snd (create_element ''button''
                   (append_child c ?w
                    (class_add ?w THEME_BUTTON_WRAPPER_CLASS
                     (snd (create_element ''div'' p)))))))))))))))"
  define F where "F = fold (build_theme_item (Suc (Suc ?w))) modes P"
  have clt: "c < ?w" using ids_below_lt [OF ok c] .
  note pre = theme_menu_prefix [OF c clt, of modes md, folded P_def]
  have lt3: "d_nodes p m = Some y \<Longrightarrow> m < ?w + 3" for m y
    using ids_below_lt [OF ok] by fastforce
  have okP: "ids_below P"
    unfolding ids_below_def pre(1) pre(2) using clt by (auto dest: lt3)
  obtain mx where mP: "d_nodes P (Suc (Suc ?w)) = Some mx" and mxp: "n_parent mx = None"
    using pre(1) by (simp add: blank_node_def)
  have FP: "\<forall>m. m < ?w + 3 \<longrightarrow> m \<noteq> Suc (Suc ?w) \<longrightarrow> d_nodes F m = d_nodes P m"
    using fold_build_theme_items [OF okP mP, of modes] unfolding F_def pre(2) by blast
  have Fm: "d_nodes F (Suc (Suc ?w)) = Some (mx\<lparr>n_kids := n_kids mx @ map (\<lambda>j. ?w + 3 + 3 * j) [0..<length modes]\<rparr>)"
    using fold_build_theme_items [OF okP mP, of modes] unfolding F_def pre(2) by blast
  have q: "snd (snd (build_theme_menu modes md c p)) =
             add_listener (Suc ?w) (ThemeButtonClick (Suc (Suc ?w))) (append_child ?w (Suc (Suc ?w)) F)"
    by (simp only: build_theme_menu_eq snd_conv F_def P_def)
  have nF: "d_nodes F n = d_nodes P n" using FP n by simp
  have "kids_of (snd (snd (build_theme_menu modes md c p))) n = kids_of F n"
    unfolding q kids_of_add_listener using n
    by (intro kids_of_append_child_other [OF _ Fm]) (simp_all add: mxp)
  also have "\<dots> = (if n = c then kids_of p c @ [?w] else kids_of p n)"
    using nF n c clt by (simp add: kids_of_def pre(1))
  finally show "kids_of (snd (snd (build_theme_menu modes md c p))) n =
           (if n = c then kids_of p c @ [?w] else kids_of p n)" .
  show "(d_nodes (snd (snd (build_theme_menu modes md c p))) n = None) = (d_nodes p n = None)"
    unfolding q using nF n c by (simp add: pre(1))
qed

text \<open>
  The mobile menu button (lines 266--273): one fresh element at the end of the
  container, with \<open>toggleMenu\<close> as its only listener.
\<close>

lemma mobile_button_built:
  assumes wf: "wf_tree p" and c: "d_nodes p c \<noteq> None"
  shows "kids_of (build_mobile_button cfg c p) = (kids_of p)(c := kids_of p c @ [d_next p])"
    and "parent_of (build_mobile_button cfg c p) = (parent_of p)(d_next p := Some c)"
    and "handlers_of (build_mobile_button cfg c p) (d_next p) = [Listener MobileMenuClick]"
    and "d_next (build_mobile_button cfg c p) = Suc (d_next p)"
proof -
  let ?h = "d_next p"
  let ?G = "\<lambda>x. appendSvg (hc_hamburger_path cfg) ?h (hc_mobile_icon_class cfg)
              (add_listener ?h MobileMenuClick (set_attribute ?h ''key'' ''menu button''
                (set_attribute ?h ''aria-label'' ''Toggle menu'' (set_attribute ?h ''type'' ''button''
                  (class_add ?h ''mobile-menu-button'' x)))))"
  have e: "build_mobile_button cfg c p = append_child c ?h (?G (snd (create_element ''button'' p)))"
    by (simp add: build_mobile_button_def Let_def split_def)
  note A = attach_fresh [where G = ?G and t = "''button''", OF wf c]
  show "kids_of (build_mobile_button cfg c p) = (kids_of p)(c := kids_of p c @ [?h])"
    unfolding e by (rule A(1)) (simp_all add: wf)
  show "parent_of (build_mobile_button cfg c p) = (parent_of p)(?h := Some c)"
    unfolding e by (rule A(2)) (simp_all add: wf)
  show "handlers_of (build_mobile_button cfg c p) ?h = [Listener MobileMenuClick]"
    unfolding e handlers_of_append_child appendSvg_frame handlers_of_add_listener
    by (simp add: handlers_of_def set_attribute_def class_add_def create_element_def
        d_nodes_map_node blank_node_def)
  show "d_next (build_mobile_button cfg c p) = Suc ?h"
    unfolding e by simp
qed

section \<open>The tree the whole header builds\<close>

text \<open>
  C26. When \<open>document.querySelector\<close> at line 123 finds the wrapper \<open>wr\<close> of a
  well-formed page and every entry of \<open>NAV_LINKS\<close> has a non-empty \<open>href\<close>,
  \<open>buildHeader\<close> returns normally and leaves this tree, with \<open>h\<close> the first
  free id and \<open>n\<close> the number of links: the header \<open>h\<close> is the wrapper's first
  child; its only child is the inner header \<open>h+1\<close>, whose children are the home
  link, the skip link, the navigation bar \<open>h+4\<close> and the button container, in
  this order; the navigation bar holds the \<open>n\<close> links; the container holds the
  theme wrapper and then the mobile menu button, whose only listener is
  \<open>toggleMenu\<close>; every other element that existed keeps its children.
\<close>

theorem buildHeader_builds_header:
  fixes cfg :: header_config
  assumes wf: "wf_tree p"
    and q: "query (class_add (d_next p) ''unified-header'' (snd (create_element ''div'' p)))
              (by_class WRAPPER_CLASS) = Some wr"
    and L: "list_all href_truthy (hc_nav_links cfg)"
  defines "h \<equiv> d_next p" and "n \<equiv> length (hc_nav_links cfg)"
  shows "fst (buildHeader cfg p) = Inr () \<and>
         kids_of (snd (buildHeader cfg p)) wr = h # kids_of p wr \<and>
         kids_of (snd (buildHeader cfg p)) h = [h + 1] \<and>
         kids_of (snd (buildHeader cfg p)) (h + 1) = [h + 2, h + 3, h + 4, h + 5 + n] \<and>
         kids_of (snd (buildHeader cfg p)) (h + 4) = [h + 5..<h + 5 + n] \<and>
         kids_of (snd (buildHeader cfg p)) (h + 5 + n) =
           [h + 6 + n, h + 9 + n + 3 * length COLOR_MODES] \<and>
         handlers_of (snd (buildHeader cfg p)) (h + 9 + n + 3 * length COLOR_MODES) =
           [Listener MobileMenuClick] \<and>
         (\<forall>m < h. m \<noteq> wr \<longrightarrow> kids_of (snd (buildHeader cfg p)) m = kids_of p m)"
proof -
  note top = build_header_top_Some [OF wf q, of cfg]
  define T where "T = snd (build_header_top cfg p)"
  define N where "N = snd (build_nav_links cfg (h + 4) T)"
  define C where "C = append_child (Suc h) (d_next N)
                        (class_add (d_next N) ''nav-button-container'' (snd (create_element ''div'' N)))"
  define M where "M = snd (snd (build_theme_menu COLOR_MODES (mode C) (d_next N) C))"
  have ib: "ids_below p" using wf ..
  have wrp: "d_nodes p wr \<noteq> None"
    using query_exists [OF q] query_by_class_has_class [OF q]
    by (auto simp: has_class_class_add content_create_element WRAPPER_CLASS_def)
  have lt: "wr < h" using wrp ids_below_lt [OF ib] unfolding h_def by blast
  have kf: "\<And>m. h \<le> m \<Longrightarrow> kids_of p m = []" using kids_of_fresh [OF ib] unfolding h_def .
  have wfT: "wf_tree T" and nT: "d_next T = h + 5"
    and kT: "kids_of T = (kids_of p)(wr := h # kids_of p wr, h := [Suc h], Suc h := [h + 2, h + 3, h + 4])"
    and aT: "d_nodes T (Suc h) \<noteq> None" "d_nodes T (h + 4) \<noteq> None"
    using top unfolding T_def h_def by simp_all
  note NL = nav_links_kids [OF wfT aT(2) L]
  have wfN: "wf_tree N" and nN: "d_next N = h + 5 + n"
    and kN: "kids_of N = (kids_of T)(h + 4 := kids_of T (h + 4) @ [h + 5..<h + 5 + n])"
    and aN: "d_nodes N (Suc h) \<noteq> None"
    using NL aT(1) unfolding N_def nT n_def by simp_all
  have kC: "kids_of C = (kids_of N)(Suc h := kids_of N (Suc h) @ [d_next N])"
    unfolding C_def
    by (rule attach_fresh(1) [where G = "class_add (d_next N) ''nav-button-container''"])
       (simp_all add: wfN aN)
  have wfC: "wf_tree C" using wfN by (simp add: C_def)
  have nC: "d_next C = h + 6 + n" using nN by (simp add: C_def)
  have "d_nodes C (d_next N) \<noteq> None" by (simp add: C_def)
  then obtain cx where cC: "d_nodes C (d_next N) = Some cx" by blast
  note TM = theme_menu_kids [OF wf_tree_ids_below [OF wfC] cC, of _ COLOR_MODES "mode C", folded M_def]
  have wfM: "wf_tree M" using wf_tree_build_theme_menu [OF wfC] unfolding M_def .
  have nM: "d_next M = h + 9 + n + 3 * length COLOR_MODES"
    using nC by (simp add: M_def build_theme_menu_eq)
  have aM: "d_nodes M (d_next N) \<noteq> None" using TM(2) [of "d_next N"] cC nC nN by simp
  note MB = mobile_button_built [OF wfM aM, of cfg]
  have t: "build_header_top cfg p = (Inr (Suc h, h + 4), T)"
    using top(1) unfolding T_def h_def by (metis prod.collapse)
  have e: "buildHeader cfg p = (Inr (), build_mobile_button cfg (d_next N) M)"
  proof -
    have nl: "build_nav_links cfg (h + 4) T = (Inr (), N)" using NL(1) unfolding N_def .
    show ?thesis by (simp add: buildHeader_def js_bind_def t nl Let_def split_def C_def M_def)
  qed
  have kM: "kids_of M m = (if m = d_next N then kids_of C (d_next N) @ [d_next C] else kids_of C m)"
    if "m < h + 6 + n" for m
    using TM(1) [of m] that nC by simp
  show ?thesis
    unfolding e snd_conv fst_conv MB(1) using MB(3) lt kf [of h] kf [of "Suc h"] kf [of "h + 4"]
      kf [of "h + 5 + n"]
    by (simp add: kM kC kN kT nN nC nM)
qed

theorem buildHeader_builds_header_witness:
  "wf_tree (mk_page wrapped_nodes) \<and>
   query (class_add 4 ''unified-header'' (snd (create_element ''div'' (mk_page wrapped_nodes))))
     (by_class WRAPPER_CLASS) = Some 3 \<and>
   list_all href_truthy (hc_nav_links (sample_config sample_links)) \<and>
   fst (buildHeader (sample_config sample_links) (mk_page wrapped_nodes)) = Inr () \<and>
   kids_of (snd (buildHeader (sample_config sample_links) (mk_page wrapped_nodes))) 3 = [4] \<and>
   kids_of (snd (buildHeader (sample_config sample_links) (mk_page wrapped_nodes))) 4 = [5] \<and>
   kids_of (snd (buildHeader (sample_config sample_links) (mk_page wrapped_nodes))) 5 = [6, 7, 8, 12] \<and>
   kids_of (snd (buildHeader (sample_config sample_links) (mk_page wrapped_nodes))) 8 = [9, 10, 11] \<and>
   kids_of (snd (buildHeader (sample_config sample_links) (mk_page wrapped_nodes))) 12 = [13, 22] \<and>
   handlers_of (snd (buildHeader (sample_config sample_links) (mk_page wrapped_nodes))) 22 =
     [Listener MobileMenuClick] \<and>
   kids_of (snd (buildHeader (sample_config sample_links) (mk_page wrapped_nodes))) 2 = [3]"
proof -
  have wf: "wf_tree (mk_page wrapped_nodes)"
    by (rule tree_ok_wf_tree) (simp add: tree_ok_def wrapped_nodes_def mk_node_def blank_node_def)
  have n: "d_next (mk_page wrapped_nodes) = 4" by (simp add: wrapped_nodes_def mk_page_def)
  have q: "query (class_add 4 ''unified-header'' (snd (create_element ''div'' (mk_page wrapped_nodes))))
     (by_class WRAPPER_CLASS) = Some 3"
    by (simp add: wrapped_nodes_def page_eval WRAPPER_CLASS_def)
  have L: "list_all href_truthy (hc_nav_links (sample_config sample_links))"
    by (simp add: sample_config_def sample_links_def href_truthy_def)
  have len: "length (hc_nav_links (sample_config sample_links)) = 3"
    by (simp add: sample_config_def sample_links_def)
  have k: "kids_of (mk_page wrapped_nodes) 3 = []" "kids_of (mk_page wrapped_nodes) 2 = [3]"
    by (simp_all add: wrapped_nodes_def page_eval)
  have cm: "length COLOR_MODES = 2" by (simp add: COLOR_MODES_def)
  note T = buildHeader_builds_header [OF wf q [folded n] L]
  show ?thesis
    using wf q L T [unfolded n len cm] k by (simp add: upt_rec)
qed

section \<open>The header on a page without the wrapper\<close>

text \<open>
  C27. On a well-formed page where no element has the class \<open>WRAPPER_CLASS\<close>,
  \<open>document.querySelector\<close> (line 123) returns \<open>null\<close> and \<open>buildHeader\<close> throws a
  \<open>TypeError\<close> at \<open>prepend\<close>: nothing is added to the tree, the new header element
  stays detached and every element that existed before is unchanged.
\<close>

theorem buildHeader_no_wrapper:
  fixes cfg :: header_config
  assumes wf: "wf_tree p" and no: "\<And>n. \<not> has_class p n WRAPPER_CLASS"
  shows "fst (buildHeader cfg p) = Inl (TypeError ''prepend'') \<and>
         kids_of (snd (buildHeader cfg p)) = kids_of p \<and>
         parent_of (snd (buildHeader cfg p)) = parent_of p \<and>
         (\<forall>n. n \<noteq> d_next p \<longrightarrow> d_nodes (snd (buildHeader cfg p)) n = d_nodes p n)"
proof -
  let ?P = "class_add (d_next p) ''unified-header'' (snd (create_element ''div'' p))"
  have "\<And>n. \<not> has_class ?P n WRAPPER_CLASS"
    using no by (simp add: has_class_class_add content_create_element WRAPPER_CLASS_def)
  then have "query ?P (by_class WRAPPER_CLASS) = None" by (rule query_by_class_None)
  then have e: "buildHeader cfg p = (Inl (TypeError ''prepend''), ?P)"
    by (simp add: buildHeader_def js_bind_def build_header_top_def Let_def split_def)
  have "\<forall>n. n \<noteq> d_next p \<longrightarrow> d_nodes ?P n = d_nodes p n"
    by (simp add: class_add_def create_element_def d_nodes_map_node)
  then show ?thesis
    unfolding e using exec_create [OF wf] by simp
qed

theorem buildHeader_no_wrapper_witness:
  "fst (buildHeader (sample_config sample_links) (empty_page ''light'')) = Inl (TypeError ''prepend'') \<and>
   kids_of (snd (buildHeader (sample_config sample_links) (empty_page ''light''))) =
     kids_of (empty_page ''light'') \<and>
   parent_of (snd (buildHeader (sample_config sample_links) (empty_page ''light''))) =
     parent_of (empty_page ''light'') \<and>
   d_nodes (snd (buildHeader (sample_config sample_links) (empty_page ''light''))) 2 =
     d_nodes (empty_page ''light'') 2"
proof -
  have no: "\<And>n. \<not> has_class (empty_page ''light'') n WRAPPER_CLASS"
    by (simp add: has_class_def empty_page_def blank_node_def split: option.splits)
  have n: "d_next (empty_page ''light'') = 3" by simp
  show ?thesis
    using buildHeader_no_wrapper [OF wf_tree_empty_page no, of "sample_config sample_links"]
    unfolding n by simp
qed
end
