(* ===== verification/Dropdown.thy ===== *)
theory Dropdown
  imports HeaderBuild
begin

text \<open>
  The dropdown entries of the navigation bar (lines 169--206): what
  \<open>build_nav_dropdown\<close> builds when every entry has an \<open>href\<close>, and the
  \<open>TypeError\<close> of \<open>href.startsWith\<close> (line 197) when one has none, which aborts
  the whole \<open>NAV_LINKS.map\<close> and with it the rest of the header. The frame lemmas
  (\<open>build_nav_item_frame\<close>, \<open>js_map_nav_items_frame\<close>) show that the map only
  builds detached elements, so the error leaves the header exactly half built.
\<close>

section \<open>Sample configuration with a dropdown\<close>

definition learn_links :: "nav_item list" where
  "learn_links =
     [NavItem ''Home'' (Some ''https://remix-project.org'') None,
      NavItem ''Learn'' None (Some [NavLeaf ''Docs'' (Some ''https://remix-ide.readthedocs.io''),
                                    NavLeaf ''Tutorials'' None])]"

definition docs_items :: "nav_leaf list" where
  "docs_items = [NavLeaf ''Docs'' (Some ''https://remix-ide.readthedocs.io''), NavLeaf ''Blog'' (Some ''/blog'')]"

section \<open>What a built dropdown entry carries\<close>

text \<open>
  The node \<open>n\<close> of \<open>q\<close> is the entry built for \<open>it\<close> (lines 192--203): it
  exists, its \<open>key\<close> and text are the entry's name, its \<open>href\<close> the entry's
  address, and it opens in a new tab exactly when the address starts with
  \<open>http\<close>.
\<close>

definition leaf_at :: "page \<Rightarrow> nid \<Rightarrow> nav_leaf \<Rightarrow> bool" where
  "leaf_at q n it =
     (d_nodes q n \<noteq> None \<and> get_attribute q n ''key'' = Some (nl_name it) \<and>
      get_attribute q n ''href'' = Some (opt_string (nl_href it)) \<and>
      get_attribute q n ''target'' =
        (if starts_with ''http'' (opt_string (nl_href it)) then Some ''_blank'' else None) \<and>
      text_of q n = Some (nl_name it))"

abbreviation build_leaves :: "header_config \<Rightarrow> nav_leaf list \<Rightarrow> page \<Rightarrow> page" where
  "build_leaves cfg its p \<equiv> fold (\<lambda>it p. snd (build_nav_leaf cfg it p)) its p"

section \<open>Errors of the map callbacks\<close>

lemma build_nav_leaf_fst:
  "fst (build_nav_leaf cfg it p) =
     (case nl_href it of None \<Rightarrow> Inl (TypeError ''startsWith'') | Some h \<Rightarrow> Inr (d_next p))"
  by (simp add: build_nav_leaf_def Let_def split_def split: option.splits)

text \<open>The callbacks of both maps throw nothing but the \<open>TypeError\<close> of \<open>startsWith\<close>.\<close>

lemma build_nav_leaf_error_only:
  "fst (build_nav_leaf cfg it p) = Inl (TypeError ''startsWith'') \<or> (\<exists>b. fst (build_nav_leaf cfg it p) = Inr b)"
  by (simp add: build_nav_leaf_fst split: option.splits)

lemma build_nav_item_error_only:
  "fst (build_nav_item cfg x p) = Inl (TypeError ''startsWith'') \<or> (\<exists>b. fst (build_nav_item cfg x p) = Inr b)"
proof -
  have d: "fst (build_nav_dropdown cfg name its s) = Inl (TypeError ''startsWith'') \<or>
           (\<exists>b. fst (build_nav_dropdown cfg name its s) = Inr b)" for name its s
    unfolding build_nav_dropdown_def Let_def split_def
    by (intro js_bind_error_only js_map_error_only js_forEach_error_only) (simp_all add: build_nav_leaf_error_only)
  show ?thesis
  proof (cases "href_truthy x")
    case False
    then show ?thesis
    proof (cases "ni_items x")
      case (Some its)
      then show ?thesis
        using False d [of "ni_name x" its p]
        by (auto simp: build_nav_item_def build_nav_rest_def js_bind_def split: prod.splits sum.splits)
    qed (simp add: build_nav_item_def build_nav_rest_def)
  qed (simp add: build_nav_item_def split_def)
qed

lemma build_nav_dropdown_no_href:
  assumes "it \<in> set its" and "nl_href it = None"
  shows "fst (build_nav_dropdown cfg name its s) = Inl (TypeError ''startsWith'')"
  unfolding build_nav_dropdown_def Let_def split_def
  by (intro js_bind_fst_Inl js_map_error [where f = "build_nav_leaf cfg", OF build_nav_leaf_error_only assms(1)])
     (simp add: build_nav_leaf_fst assms(2))

section \<open>Dropdown entries with addresses\<close>

lemma build_nav_leaf_nodes:
  assumes "nl_href it = Some h"
  shows "build_nav_leaf cfg it p = (Inr (d_next p), snd (build_nav_leaf cfg it p))"
    and "d_nodes (snd (build_nav_leaf cfg it p)) =
     (d_nodes p)(d_next p \<mapsto> (blank_node ''a'')\<lparr>
        n_classes := [''dropdown-item''],
        n_attrs := [(''key'', nl_name it), (''href'', h), (''aria-label'', nl_name it)] @
          (if starts_with ''http'' h then [(''target'', ''_blank''), (''rel'', ''noopener noreferrer'')] else []),
        n_text := nl_name it\<rparr>)"
    and "d_next (snd (build_nav_leaf cfg it p)) = Suc (d_next p)"
  using assms
  by (cases "starts_with ''http'' h";
      simp add: build_nav_leaf_def Let_def split_def dom_eval appendSvg_def start_fetch_def
        opt_string_def fun_eq_iff)+


lemma js_map_leaves:
  "list_all (\<lambda>it. nl_href it \<noteq> None) its \<Longrightarrow>
   js_map (build_nav_leaf cfg) its p = (Inr [d_next p..<d_next p + length its], build_leaves cfg its p)"
proof (induction its arbitrary: p)
  case Nil
  then show ?case by simp
next
  case (Cons it its)
  obtain h where h: "nl_href it = Some h" using Cons.prems by auto
  have "[d_next p..<d_next p + length (it # its)] = d_next p # [Suc (d_next p)..<Suc (d_next p) + length its]"
    by (simp add: upt_rec)
  then show ?case
    using Cons build_nav_leaf_nodes(1,3) [OF h, of cfg p] by (simp del: upt_Suc)
qed

lemma leaf_at_cong: "d_nodes q' n = d_nodes q n \<Longrightarrow> leaf_at q' n it = leaf_at q n it"
  by (simp add: leaf_at_def get_attribute_def text_of_def)

lemma leaf_at_fold_append [simp]:
  "leaf_at (fold (append_child b) cs q) n it = leaf_at q n it"
proof (induction cs arbitrary: q)
  case (Cons c cs)
  have "leaf_at (append_child b c q) n it = leaf_at q n it"
    by (simp add: leaf_at_def)
  then show ?case using Cons by simp
qed simp

lemma handlers_of_fold_append [simp]:
  "handlers_of (fold (append_child b) cs q) n = handlers_of q n"
  by (induction cs arbitrary: q) simp_all

lemma get_attribute_fold_append [simp]:
  "get_attribute (fold (append_child b) cs q) n k = get_attribute q n k"
  by (induction cs arbitrary: q) simp_all

lemma fold_leaves:
  fixes cfg :: header_config
  assumes "wf_tree p" and "list_all (\<lambda>it. nl_href it \<noteq> None) its"
  shows "wf_tree (build_leaves cfg its p) \<and>
         d_next (build_leaves cfg its p) = d_next p + length its \<and>
         kids_of (build_leaves cfg its p) = kids_of p \<and>
         parent_of (build_leaves cfg its p) = parent_of p \<and>
         (\<forall>m < d_next p. d_nodes (build_leaves cfg its p) m = d_nodes p m) \<and>
         (\<forall>j < length its. leaf_at (build_leaves cfg its p) (d_next p + j) (its ! j))"
  using assms
proof (induction its arbitrary: p)
  case Nil
  then show ?case by simp
next
  case (Cons it its)
  obtain h where h: "nl_href it = Some h" using Cons.prems(2) by auto
  let ?p1 = "snd (build_nav_leaf cfg it p)"
  let ?F = "build_leaves cfg its ?p1"
  note N = build_nav_leaf_nodes [OF h, of cfg p]
  have fresh: "d_nodes p (d_next p) = None" using ids_below_fresh [OF wf_tree_ids_below [OF Cons.prems(1)]] .
  have wf1: "wf_tree ?p1"
    using wf_tree_build_nav_leaf [OF Cons.prems(1)] .
  have k1: "kids_of ?p1 = kids_of p" "parent_of ?p1 = parent_of p"
    using fresh by (auto simp: kids_of_def parent_of_def N(2) fun_eq_iff blank_node_def)
  note IH = Cons.IH [OF wf1] Cons.prems(2)
  have at1: "leaf_at ?p1 (d_next p) it"
    using h by (simp add: leaf_at_def N(2) get_attribute_def text_of_def blank_node_def opt_string_def)
  have at0: "leaf_at ?F (d_next p) it"
    using at1 IH leaf_at_cong [of ?F "d_next p" ?p1] N(3) by simp
  have rest: "\<forall>j < length (it # its). leaf_at ?F (d_next p + j) ((it # its) ! j)"
  proof (intro allI impI)
    fix j assume "j < length (it # its)"
    then show "leaf_at ?F (d_next p + j) ((it # its) ! j)"
      using at0 IH N(3) by (cases j) simp_all
  qed
  show ?case
    using IH k1 N(2,3) rest wf1 by auto
qed


text \<open>The store before the map over the entries (lines 170--189).\<close>

lemma dropdown_prefix:
  fixes cfg :: header_config and name :: string
  assumes wf: "wf_tree p"
  defines "h \<equiv> d_next p"
  defines "P \<equiv> append_child h (Suc (Suc h)) (append_child h (Suc h)
     (class_add (Suc (Suc h)) ''dropdown-items'' (snd (create_element ''div''
      (appendSvg (hc_chevron_path cfg) (Suc h) ''chevron-icon''
       (set_onclick (Suc h) ToggleDropdown
        (set_attribute (Suc h) ''aria-expanded'' ''false''
         (set_attribute (Suc h) ''aria-haspopup'' ''true''
          (set_attribute (Suc h) ''aria-label'' name
           (set_attribute (Suc h) ''key'' name
            (set_text (Suc h) name
             (set_attribute (Suc h) ''id'' ''dropdown-button''
              (class_add (Suc h) ''dropdown-button''
               (class_add (Suc h) ''nav-link''
                (snd (create_element ''button''
                 (set_attribute h ''key'' name
                  (class_add h ''nav-dropdown''
                   (snd (create_element ''div'' p))))))))))))))))))))"
  shows "build_nav_dropdown cfg name its p =
           js_bind (js_map (build_nav_leaf cfg) its)
             (\<lambda>items. js_bind (js_forEach (\<lambda>item q. (Inr (), append_child (Suc (Suc h)) item q)) items)
                (\<lambda>_ q. (Inr h, q))) P"
    and "d_nodes P =
           (d_nodes p)(h \<mapsto> (blank_node ''div'')\<lparr>n_classes := [''nav-dropdown''],
                         n_attrs := [(''key'', name)], n_kids := [Suc h, Suc (Suc h)]\<rparr>,
             Suc h \<mapsto> (blank_node ''button'')\<lparr>n_classes := [''nav-link'', ''dropdown-button''],
                         n_attrs := [(''id'', ''dropdown-button''), (''key'', name), (''aria-label'', name),
                                     (''aria-haspopup'', ''true''), (''aria-expanded'', ''false'')],
                         n_text := name, n_parent := Some h, n_handlers := [OnClick ToggleDropdown]\<rparr>,
             Suc (Suc h) \<mapsto> (blank_node ''div'')\<lparr>n_classes := [''dropdown-items''], n_parent := Some h\<rparr>)"
    and "d_next P = h + 3"
    and "wf_tree P"
proof -
  have ok: "ids_below p" using wf ..
  have fresh: "d_nodes p m = None" if "h \<le> m" for m
    using ids_below_lt [OF ok, of m] that unfolding h_def by (cases "d_nodes p m") auto
  show "build_nav_dropdown cfg name its p =
           js_bind (js_map (build_nav_leaf cfg) its)
             (\<lambda>items. js_bind (js_forEach (\<lambda>item q. (Inr (), append_child (Suc (Suc h)) item q)) items)
                (\<lambda>_ q. (Inr h, q))) P"
    unfolding P_def h_def by (simp add: build_nav_dropdown_def Let_def split_def)
  show "d_next P = h + 3" unfolding P_def h_def by simp
  show "wf_tree P" unfolding P_def using wf by simp
  show "d_nodes P =
           (d_nodes p)(h \<mapsto> (blank_node ''div'')\<lparr>n_classes := [''nav-dropdown''],
                         n_attrs := [(''key'', name)], n_kids := [Suc h, Suc (Suc h)]\<rparr>,
             Suc h \<mapsto> (blank_node ''button'')\<lparr>n_classes := [''nav-link'', ''dropdown-button''],
                         n_attrs := [(''id'', ''dropdown-button''), (''key'', name), (''aria-label'', name),
                                     (''aria-haspopup'', ''true''), (''aria-expanded'', ''false'')],
                         n_text := name, n_parent := Some h, n_handlers := [OnClick ToggleDropdown]\<rparr>,
             Suc (Suc h) \<mapsto> (blank_node ''div'')\<lparr>n_classes := [''dropdown-items''], n_parent := Some h\<rparr>)"
    using fresh [of h] fresh [of "Suc h"] fresh [of "Suc (Suc h)"]
    unfolding P_def h_def
    by (simp add: dom_eval appendSvg_def start_fetch_def fun_eq_iff)
qed


lemma forEach_append_item:
  "js_forEach (\<lambda>item q. (Inr (), append_child b item q)) cs p = (Inr (), fold (append_child b) cs p)"
  by (induction cs arbitrary: p) simp_all

section \<open>The dropdown\<close>

lemma dropdown_built:
  fixes cfg :: header_config
  assumes wf: "wf_tree p" and L: "list_all (\<lambda>it. nl_href it \<noteq> None) its"
  defines "h \<equiv> d_next p"
  shows "fst (build_nav_dropdown cfg name its p) = Inr h \<and>
         kids_of (snd (build_nav_dropdown cfg name its p)) h = [h + 1, h + 2] \<and>
         kids_of (snd (build_nav_dropdown cfg name its p)) (h + 2) = [h + 3..<h + 3 + length its] \<and>
         get_attribute (snd (build_nav_dropdown cfg name its p)) (h + 1) ''aria-expanded'' = Some ''false'' \<and>
         handlers_of (snd (build_nav_dropdown cfg name its p)) (h + 1) = [OnClick ToggleDropdown] \<and>
         (\<forall>m < h. kids_of (snd (build_nav_dropdown cfg name its p)) m = kids_of p m) \<and>
         (\<forall>j < length its. leaf_at (snd (build_nav_dropdown cfg name its p)) (h + 3 + j) (its ! j)) \<and>
         wf_tree (snd (build_nav_dropdown cfg name its p)) \<and>
         d_next (snd (build_nav_dropdown cfg name its p)) = h + 3 + length its"
proof -
  note pre = dropdown_prefix [OF wf, where cfg = cfg and name = name, folded h_def]
  obtain P where e: "build_nav_dropdown cfg name its p =
           js_bind (js_map (build_nav_leaf cfg) its)
             (\<lambda>items. js_bind (js_forEach (\<lambda>item q. (Inr (), append_child (Suc (Suc h)) item q)) items)
                (\<lambda>_ q. (Inr h, q))) P"
    and nP: "d_nodes P =
           (d_nodes p)(h \<mapsto> (blank_node ''div'')\<lparr>n_classes := [''nav-dropdown''],
                         n_attrs := [(''key'', name)], n_kids := [Suc h, Suc (Suc h)]\<rparr>,
             Suc h \<mapsto> (blank_node ''button'')\<lparr>n_classes := [''nav-link'', ''dropdown-button''],
                         n_attrs := [(''id'', ''dropdown-button''), (''key'', name), (''aria-label'', name),
                                     (''aria-haspopup'', ''true''), (''aria-expanded'', ''false'')],
                         n_text := name, n_parent := Some h, n_handlers := [OnClick ToggleDropdown]\<rparr>,
             Suc (Suc h) \<mapsto> (blank_node ''div'')\<lparr>n_classes := [''dropdown-items''], n_parent := Some h\<rparr>)"
    and dP: "d_next P = h + 3" and wfP: "wf_tree P"
    by (rule that [OF pre(1) pre(2) pre(3) pre(4)])
  let ?F = "build_leaves cfg its P"
  let ?cs = "[h + 3..<h + 3 + length its]"
  let ?Q = "fold (append_child (Suc (Suc h))) ?cs ?F"
  note FL = fold_leaves [OF wfP L, of cfg]
  have r: "build_nav_dropdown cfg name its p = (Inr h, ?Q)"
    unfolding e js_map_leaves [OF L] by (simp add: forEach_append_item dP)
  have ib: "ids_below p" using wf ..
  have kp: "kids_of p m = []" if "h \<le> m" for m using kids_of_fresh [OF ib] that unfolding h_def .
  have low: "\<And>m. m < h + 3 \<Longrightarrow> d_nodes ?F m = d_nodes P m" using FL dP by simp
  have wfF: "wf_tree ?F" using FL by simp
  have boxF: "d_nodes ?F (Suc (Suc h)) \<noteq> None" using low [of "Suc (Suc h)"] nP by simp
  have cs: "\<forall>c \<in> set ?cs. d_nodes ?F c \<noteq> None \<and> parent_of ?F c = None"
  proof
    fix c assume c: "c \<in> set ?cs"
    then obtain j where j: "j < length its" "c = h + 3 + j" by (metis atLeastLessThan_iff add_diff_inverse_nat
          add_less_cancel_left not_le set_upt)
    have "leaf_at ?F c (its ! j)" using FL j dP by simp
    moreover have "parent_of ?F c = None"
      using FL parent_of_fresh [OF wf_tree_ids_below [OF wfP], of c] j dP by simp
    ultimately show "d_nodes ?F c \<noteq> None \<and> parent_of ?F c = None" by (simp add: leaf_at_def)
  qed
  note K = fold_append_child_fresh [OF wfF boxF _ distinct_upt cs]
  have kQ: "kids_of ?Q m = (if m = Suc (Suc h) then kids_of P (Suc (Suc h)) @ ?cs else kids_of P m)" for m
    using K [of m] FL by simp
  have kP: "kids_of P m = (if m = h then [Suc h, Suc (Suc h)] else if m = Suc h \<or> m = Suc (Suc h) then [] else kids_of p m)" for m
    by (simp add: kids_of_def nP blank_node_def)
  have aQ: "get_attribute ?Q (Suc h) ''aria-expanded'' = Some ''false''"
    unfolding get_attribute_fold_append using low [of "Suc h"] by (simp add: get_attribute_def nP)
  have hQ: "handlers_of ?Q (Suc h) = [OnClick ToggleDropdown]"
    unfolding handlers_of_fold_append using low [of "Suc h"] by (simp add: handlers_of_def nP)
  have leaves: "\<forall>j < length its. leaf_at ?Q (h + 3 + j) (its ! j)" using FL dP by simp
  show ?thesis
    unfolding r fst_conv snd_conv using kQ kP aQ hQ leaves kp K FL dP by (simp add: numeral_eq_Suc)
qed


text \<open>
  C28. When every entry of a dropdown has an \<open>href\<close>, \<open>build_nav_dropdown\<close> returns
  the new dropdown \<open>h\<close>, whose children are the button \<open>h+1\<close> and the box
  \<open>h+2\<close>; the box holds one entry per item, in order, each carrying its item's
  name and address and opening in a new tab exactly for \<open>http\<close> addresses; the
  button is collapsed (\<open>aria-expanded\<close> is \<open>false\<close>) and its only handler is the
  \<open>onclick\<close> slot holding \<open>toggleDropdown\<close>; no element that existed before gains
  or loses a child, since the dropdown is returned detached.
\<close>

theorem build_nav_dropdown_builds:
  fixes cfg :: header_config
  assumes wf: "wf_tree p" and L: "list_all (\<lambda>it. nl_href it \<noteq> None) its"
  defines "h \<equiv> d_next p"
  shows "fst (build_nav_dropdown cfg name its p) = Inr h \<and>
         kids_of (snd (build_nav_dropdown cfg name its p)) h = [h + 1, h + 2] \<and>
         kids_of (snd (build_nav_dropdown cfg name its p)) (h + 2) = [h + 3..<h + 3 + length its] \<and>
         get_attribute (snd (build_nav_dropdown cfg name its p)) (h + 1) ''aria-expanded'' = Some ''false'' \<and>
         handlers_of (snd (build_nav_dropdown cfg name its p)) (h + 1) = [OnClick ToggleDropdown] \<and>
         (\<forall>m < h. kids_of (snd (build_nav_dropdown cfg name its p)) m = kids_of p m) \<and>
         (\<forall>j < length its. leaf_at (snd (build_nav_dropdown cfg name its p)) (h + 3 + j) (its ! j))"
  using dropdown_built [OF wf L, of cfg name] unfolding h_def by blast

theorem build_nav_dropdown_builds_witness:
  "fst (build_nav_dropdown (sample_config sample_links) ''Learn'' docs_items (mk_page wrapped_nodes)) = Inr 4 \<and>
   kids_of (snd (build_nav_dropdown (sample_config sample_links) ''Learn'' docs_items (mk_page wrapped_nodes))) 4 = [5, 6] \<and>
   kids_of (snd (build_nav_dropdown (sample_config sample_links) ''Learn'' docs_items (mk_page wrapped_nodes))) 6 = [7, 8] \<and>
   handlers_of (snd (build_nav_dropdown (sample_config sample_links) ''Learn'' docs_items (mk_page wrapped_nodes))) 5 =
     [OnClick ToggleDropdown] \<and>
   kids_of (snd (build_nav_dropdown (sample_config sample_links) ''Learn'' docs_items (mk_page wrapped_nodes))) 3 = [] \<and>
   leaf_at (snd (build_nav_dropdown (sample_config sample_links) ''Learn'' docs_items (mk_page wrapped_nodes))) 7
     (NavLeaf ''Docs'' (Some ''https://remix-ide.readthedocs.io'')) \<and>
   leaf_at (snd (build_nav_dropdown (sample_config sample_links) ''Learn'' docs_items (mk_page wrapped_nodes))) 8
     (NavLeaf ''Blog'' (Some ''/blog''))"
proof -
  have wf: "wf_tree (mk_page wrapped_nodes)"
    by (rule tree_ok_wf_tree) (simp add: tree_ok_def wrapped_nodes_def mk_node_def blank_node_def)
  have L: "list_all (\<lambda>it. nl_href it \<noteq> None) docs_items" by (simp add: docs_items_def)
  have n: "d_next (mk_page wrapped_nodes) = 4" by (simp add: wrapped_nodes_def mk_page_def)
  have k: "kids_of (mk_page wrapped_nodes) 3 = []" by (simp add: wrapped_nodes_def page_eval)
  note T = build_nav_dropdown_builds [OF wf L, where cfg = "sample_config sample_links" and name = "''Learn''"]
  have A: "\<forall>j < 2. leaf_at (snd (build_nav_dropdown (sample_config sample_links) ''Learn'' docs_items
             (mk_page wrapped_nodes))) (7 + j) (docs_items ! j)"
    using T unfolding n by (simp add: docs_items_def)
  show ?thesis
    using T k A [rule_format, of 0] A [rule_format, of 1] unfolding n
    by (simp add: docs_items_def upt_rec)
qed

section \<open>The map over the navigation entries attaches nothing to older elements\<close>

lemma build_nav_leaf_frame:
  assumes wf: "wf_tree s"
  shows "wf_tree (snd (build_nav_leaf cfg it s)) \<and> kids_of (snd (build_nav_leaf cfg it s)) = kids_of s \<and>
         d_next (snd (build_nav_leaf cfg it s)) = Suc (d_next s)"
proof (cases "nl_href it")
  case None
  then show ?thesis
    using wf exec_create(1) [OF wf]
    by (simp add: build_nav_leaf_def Let_def split_def wf_tree_build_nav_leaf)
next
  case (Some h)
  have fresh: "d_nodes s (d_next s) = None" using ids_below_fresh [OF wf_tree_ids_below [OF wf]] .
  have "kids_of (snd (build_nav_leaf cfg it s)) = kids_of s"
    using fresh by (auto simp: kids_of_def build_nav_leaf_nodes(2) [OF Some] fun_eq_iff blank_node_def)
  then show ?thesis
    using wf_tree_build_nav_leaf [OF wf] build_nav_leaf_nodes(3) [OF Some] by simp
qed

lemma dropdown_frame:
  fixes cfg :: header_config
  assumes wf: "wf_tree s"
  shows "wf_tree (snd (build_nav_dropdown cfg name its s)) \<and>
         d_next s \<le> d_next (snd (build_nav_dropdown cfg name its s)) \<and>
         (\<forall>m < d_next s. kids_of (snd (build_nav_dropdown cfg name its s)) m = kids_of s m)"
proof (cases "list_all (\<lambda>it. nl_href it \<noteq> None) its")
  case True
  then show ?thesis using dropdown_built [OF wf True, of cfg name] by simp
next
  case False
  then obtain it where it: "it \<in> set its" "nl_href it = None" by (auto simp: list_all_iff)
  let ?h = "d_next s"
  note pre = dropdown_prefix [OF wf, where cfg = cfg and name = name]
  obtain P where e: "build_nav_dropdown cfg name its s =
           js_bind (js_map (build_nav_leaf cfg) its)
             (\<lambda>items. js_bind (js_forEach (\<lambda>item q. (Inr (), append_child (Suc (Suc ?h)) item q)) items)
                (\<lambda>_ q. (Inr ?h, q))) P"
    and kP: "\<forall>m < ?h. kids_of P m = kids_of s m" and dP: "d_next P = ?h + 3" and wfP: "wf_tree P"
    by (rule that [OF pre(1) _ pre(3) pre(4)]) (simp add: kids_of_def pre(2))
  have R: "wf_tree (snd (js_map (build_nav_leaf cfg) its P)) \<and>
           kids_of (snd (js_map (build_nav_leaf cfg) its P)) = kids_of P \<and>
           d_next P \<le> d_next (snd (js_map (build_nav_leaf cfg) its P))"
    by (rule js_map_preserve [where P = "\<lambda>q. wf_tree q \<and> kids_of q = kids_of P \<and> d_next P \<le> d_next q"])
       (simp_all add: wfP build_nav_leaf_frame)
  have "fst (js_map (build_nav_leaf cfg) its P) = Inl (TypeError ''startsWith'')"
    by (rule js_map_error [where f = "build_nav_leaf cfg", OF build_nav_leaf_error_only it(1)])
       (simp add: build_nav_leaf_fst it(2))
  then have "snd (build_nav_dropdown cfg name its s) = snd (js_map (build_nav_leaf cfg) its P)"
    unfolding e by (cases "js_map (build_nav_leaf cfg) its P") (simp add: js_bind_def)
  then show ?thesis using R kP dP by simp
qed

lemma build_nav_item_frame:
  fixes cfg :: header_config
  assumes wf: "wf_tree q"
  shows "wf_tree (snd (build_nav_item cfg x q)) \<and> d_next q \<le> d_next (snd (build_nav_item cfg x q)) \<and>
         (\<forall>m < d_next q. kids_of (snd (build_nav_item cfg x q)) m = kids_of q m)"
proof (cases "href_truthy x")
  case True
  then show ?thesis
    using build_nav_link_step(1,2) [OF wf, where cfg = cfg and name = "ni_name x" and h = "opt_string (ni_href x)"]
    by (simp add: build_nav_item_def split_def)
next
  case False
  show ?thesis
  proof (cases "ni_items x")
    case (Some its)
    have "snd (build_nav_rest cfg x q) = snd (build_nav_dropdown cfg (ni_name x) its q)"
      using Some by (cases "build_nav_dropdown cfg (ni_name x) its q")
        (simp add: build_nav_rest_def js_bind_def split: sum.splits)
    then show ?thesis
      using False dropdown_frame [OF wf, of cfg "ni_name x" its] by (simp add: build_nav_item_def)
  qed (simp add: False wf build_nav_item_def build_nav_rest_def)
qed

lemma js_map_nav_items_frame:
  fixes cfg :: header_config
  assumes wf: "wf_tree s"
  shows "\<forall>m < d_next s. kids_of (snd (js_map (build_nav_item cfg) xs s)) m = kids_of s m"
proof -
  have "wf_tree (snd (js_map (build_nav_item cfg) xs s)) \<and> d_next s \<le> d_next (snd (js_map (build_nav_item cfg) xs s)) \<and>
        (\<forall>m < d_next s. kids_of (snd (js_map (build_nav_item cfg) xs s)) m = kids_of s m)"
  proof (rule js_map_preserve [where P = "\<lambda>q. wf_tree q \<and> d_next s \<le> d_next q \<and>
                                     (\<forall>m < d_next s. kids_of q m = kids_of s m)"])
    fix x and q :: page
    assume q: "wf_tree q \<and> d_next s \<le> d_next q \<and> (\<forall>m < d_next s. kids_of q m = kids_of s m)"
    then show "wf_tree (snd (build_nav_item cfg x q)) \<and> d_next s \<le> d_next (snd (build_nav_item cfg x q)) \<and>
               (\<forall>m < d_next s. kids_of (snd (build_nav_item cfg x q)) m = kids_of s m)"
      using build_nav_item_frame [of q cfg x] by fastforce
  qed (simp add: wf)
  then show ?thesis by blast
qed

section \<open>A dropdown entry without an address\<close>

text \<open>
  C29. When an entry of \<open>NAV_LINKS\<close> without a truthy \<open>href\<close> has \<open>items\<close>, one
  of which has no \<open>href\<close>, \<open>href.startsWith\<close> (line 197) throws a
  \<open>TypeError\<close> inside \<open>NAV_LINKS.map\<close>. On a well-formed page with the wrapper,
  \<open>buildHeader\<close> throws it and leaves the header half built: the header is the
  wrapper's first child, the inner header holds only the home link, the skip link and
  the navigation bar (the button container, the theme menu and the mobile menu
  button are never built), the navigation bar has no link, and every other older
  element keeps its children.
\<close>

theorem buildHeader_dropdown_without_href:
  fixes cfg :: header_config
  assumes wf: "wf_tree p"
    and q: "query (class_add (d_next p) ''unified-header'' (snd (create_element ''div'' p)))
              (by_class WRAPPER_CLASS) = Some wr"
    and x: "x \<in> set (hc_nav_links cfg)" "\<not> href_truthy x" "ni_items x = Some its"
    and it: "it \<in> set its" "nl_href it = None"
  defines "h \<equiv> d_next p"
  shows "fst (buildHeader cfg p) = Inl (TypeError ''startsWith'') \<and>
         kids_of (snd (buildHeader cfg p)) wr = h # kids_of p wr \<and>
         kids_of (snd (buildHeader cfg p)) (h + 1) = [h + 2, h + 3, h + 4] \<and>
         kids_of (snd (buildHeader cfg p)) (h + 4) = [] \<and>
         (\<forall>m < h. m \<noteq> wr \<longrightarrow> kids_of (snd (buildHeader cfg p)) m = kids_of p m)"
proof -
  note top = build_header_top_Some [OF wf q, of cfg]
  define T where "T = snd (build_header_top cfg p)"
  have bad: "\<And>s. fst (build_nav_item cfg x s) = Inl (TypeError ''startsWith'')"
    using x(2,3) build_nav_dropdown_no_href [OF it]
    by (simp add: build_nav_item_def build_nav_rest_def js_bind_fst_Inl)
  have m: "fst (js_map (build_nav_item cfg) (hc_nav_links cfg) T) = Inl (TypeError ''startsWith'')"
    by (rule js_map_error [where f = "build_nav_item cfg", OF build_nav_item_error_only x(1) bad])
  obtain S where mS: "js_map (build_nav_item cfg) (hc_nav_links cfg) T = (Inl (TypeError ''startsWith''), S)"
    using m by (metis prod.collapse)
  have t: "build_header_top cfg p = (Inr (Suc h, h + 4), T)"
    using top(1) unfolding T_def h_def by (metis prod.collapse)
  have e: "buildHeader cfg p = (Inl (TypeError ''startsWith''), S)"
    by (simp add: buildHeader_def t build_nav_links_def mS js_bind_def)
  have wfT: "wf_tree T" and nT: "d_next T = h + 5"
    and kT: "kids_of T = (kids_of p)(wr := h # kids_of p wr, h := [Suc h], Suc h := [h + 2, h + 3, h + 4])"
    using top unfolding T_def h_def by simp_all
  have kS: "\<forall>m < h + 5. kids_of S m = kids_of T m"
    using js_map_nav_items_frame [OF wfT, of cfg "hc_nav_links cfg"] mS nT by simp
  have ib: "ids_below p" using wf ..
  have wrp: "d_nodes p wr \<noteq> None"
    using query_exists [OF q] query_by_class_has_class [OF q]
    by (auto simp: has_class_class_add content_create_element WRAPPER_CLASS_def)
  have lt: "wr < h" using wrp ids_below_lt [OF ib] unfolding h_def by blast
  have k4: "kids_of p (h + 4) = []" using kids_of_fresh [OF ib, of "h + 4"] unfolding h_def by simp
  show ?thesis
    unfolding e fst_conv snd_conv using kS kT lt k4 by simp
qed

theorem buildHeader_dropdown_without_href_witness:
  "fst (buildHeader (sample_config learn_links) (mk_page wrapped_nodes)) = Inl (TypeError ''startsWith'') \<and>
   kids_of (snd (buildHeader (sample_config learn_links) (mk_page wrapped_nodes))) 3 = [4] \<and>
   kids_of (snd (buildHeader (sample_config learn_links) (mk_page wrapped_nodes))) 5 = [6, 7, 8] \<and>
   kids_of (snd (buildHeader (sample_config learn_links) (mk_page wrapped_nodes))) 8 = [] \<and>
   kids_of (snd (buildHeader (sample_config learn_links) (mk_page wrapped_nodes))) 2 = [3]"
proof -
  have wf: "wf_tree (mk_page wrapped_nodes)"
    by (rule tree_ok_wf_tree) (simp add: tree_ok_def wrapped_nodes_def mk_node_def blank_node_def)
  have n: "d_next (mk_page wrapped_nodes) = 4" by (simp add: wrapped_nodes_def mk_page_def)
  have q: "query (class_add (d_next (mk_page wrapped_nodes)) ''unified-header''
      (snd (create_element ''div'' (mk_page wrapped_nodes)))) (by_class WRAPPER_CLASS) = Some 3"
    by (simp add: wrapped_nodes_def page_eval WRAPPER_CLASS_def mk_page_def)
  let ?x = "NavItem ''Learn'' None (Some [NavLeaf ''Docs'' (Some ''https://remix-ide.readthedocs.io''),
                                        NavLeaf ''Tutorials'' None])"
  have x: "?x \<in> set (hc_nav_links (sample_config learn_links))" "\<not> href_truthy ?x"
    by (simp_all add: sample_config_def learn_links_def href_truthy_def)
  have k: "kids_of (mk_page wrapped_nodes) 3 = []" "kids_of (mk_page wrapped_nodes) 2 = [3]"
    by (simp_all add: wrapped_nodes_def page_eval)
  show ?thesis
    using buildHeader_dropdown_without_href [OF wf q x,
        where its = "[NavLeaf ''Docs'' (Some ''https://remix-ide.readthedocs.io''), NavLeaf ''Tutorials'' None]"
        and it = "NavLeaf ''Tutorials'' None"] k
    unfolding n by simp
qed

end
