(* ===== verification/Spec2Isabelle.thy ===== *)
theory Spec2Isabelle
  imports Navigation Rearrange Events HeaderBuild Dropdown
begin

text \<open>
  \<^bold>\<open>A verification library for the documentation theme script of remix-ide.\<close>

  The program is one browser script, \<open>src/docs/_static/js/loaders.js\<close>, a set of
  one-shot functions run on page load that rearrange the HTML a static-site generator
  produced, build a header with navigation and a colour-mode (theme) menu, and install
  click listeners: the theme button opens and closes the theme menu, each theme item
  selects a colour mode, and the mobile menu button toggles the side navigation
  (\<open>toggleMenu\<close>). The icons of the colour modes are prefetched with \<open>fetch\<close>
  into the cache \<open>loadedSvgs\<close> (\<open>preloadColorModeIcons\<close>). The functions talk
  to each other only through the DOM and two module globals (\<open>mode\<close>,
  \<open>loadedSvgs\<close>); helpers and constants from the theme's other scripts
  (\<open>setColorMode\<close>, \<open>closeThemeMenu\<close>, \<open>appendSvg\<close>, \<open>COLOR_MODES\<close>,
  the class-name constants) are not in the sources and are modelled from the
  specification.

  \<^bold>\<open>Theories.\<close>
  \<^item> \<open>Prelude\<close>: the error type \<open>js_error\<close> (\<open>TypeError\<close> for dereferencing
    \<open>null\<close>, the controller's \<open>InvalidModeError\<close> and \<open>MissingMountPointError\<close>),
    handler results \<open>(js_error + 'a) \<times> state\<close> (an exception keeps the mutations made
    before it), \<open>js_bind\<close> and \<open>js_forEach\<close>, shared lemmas on association lists.
  \<^item> \<open>ClassList\<close>: \<open>classList.add/remove/toggle(token, force)\<close> on an ordered token
    list, after the DOM standard; the no-duplicates invariant; toggle parity.
  \<^item> \<open>Dom\<close>: the DOM as a store from node identifiers to node records (tag, classes,
    attributes, content, children, parent, listeners), so that aliasing of element
    references is explicit; \<open>createElement\<close>, attribute and class edits,
    \<open>appendChild\<close>/\<open>prepend\<close>/\<open>remove\<close>, content writes; selectors (compound
    selectors with the descendant and child combinators) and \<open>querySelector(All)\<close>
    in document order. Frame lemmas: edits of one kind leave the tree, the parents or
    the selector matches alone; the parity lemma for sequences of plain toggles.
  \<^item> \<open>Tree\<close>: the children and parent of a node (\<open>kids_of\<close>, \<open>parent_of\<close>), the
    tree edits \<open>removeChild\<close>, \<open>insertBefore\<close> and \<open>nextSibling\<close> with their
    \<open>NotFoundError\<close>s, and the invariant \<open>wf_tree\<close> (nodes below the allocation
    counter, no repeated child, parent and child links agree), with the effect of every
    edit on children and parents and its preservation by every edit.
  \<^item> \<open>Page\<close>: the page state (the store extended with \<open>mode\<close>, \<open>loadedSvgs\<close> and
    the fetches in flight with their continuations), the closures installed as
    listeners (\<open>listener\<close>), and a minimal model of JavaScript values for property
    reads (\<open>get_prop\<close>, \<open>js_to_string\<close>, \<open>js_index\<close>).
  \<^item> \<open>Theme\<close>: the colour-mode controller. \<open>preloadColorModeIcons\<close> (lines 55--64)
    starts one fetch per mode; \<open>complete i r\<close> delivers the response \<open>r\<close> to the
    \<open>i\<close>-th fetch in flight, in any order the network chooses, and runs its
    continuation (\<open>store_icon\<close>, lines 60--62); \<open>theme_button_click\<close> (lines
    260--263) and \<open>theme_item_click\<close> (lines 247--250) are the two click listeners.
    \<open>menu_expanded\<close> reads the menu state from \<open>aria-expanded\<close> and is the
    abstraction of the refinement lemma C3.
  \<^item> \<open>MobileMenu\<close>: \<open>toggleMenu\<close> (lines 281--296) with \<open>handleClassToggle\<close>.
  \<^item> \<open>Header\<close>: the theme part of \<open>buildHeader\<close> (lines 216--263):
    \<open>build_theme_menu\<close> creates the button wrapper, the theme button and the dropdown
    menu, and \<open>build_theme_item\<close> is one iteration of \<open>COLOR_MODES.forEach\<close>
    (lines 235--254). The lemma \<open>theme_menu_built\<close> computes the resulting
    store for any page whose nodes lie below the allocation counter (\<open>ids_below\<close>).
  \<^item> \<open>Assembly\<close>: the page-assembly functions \<open>preloadFonts\<close> (lines 4--16),
    \<open>updateEditButtonLabel\<close> (46--50), \<open>cleanSearchInput\<close> (69--78),
    \<open>addHrUnderSearchForm\<close> (83--87), \<open>addFooterNote\<close> (92--99),
    \<open>updateFooterButtonIcons\<close> (104--115) and \<open>updateFlyoverMenu\<close> (301--315), each
    a function of the page that returns an error or the page, in the order of the
    statements of the source; sample documents (\<open>mk_page\<close>, checked well formed by
    the executable \<open>tree_ok\<close>) for the witnesses.
  \<^item> \<open>Navigation\<close>: the rest of \<open>buildHeader\<close> (lines 120--274). The constants it
    reads from the theme's other scripts (\<open>NAV_LINKS\<close>, \<open>REMIX_HOME_URL\<close>,
    \<open>REMIX_DOCS_URL\<close>, icon paths and classes) form the parameter \<open>header_config\<close>.
    \<open>build_header_top\<close> is lines 121--145, \<open>build_nav_item\<close> the callback of
    \<open>NAV_LINKS.map\<close> with its three outcomes (a plain link, \<open>build_nav_link\<close>; a
    dropdown, \<open>build_nav_dropdown\<close> with \<open>build_nav_leaf\<close> per entry; or
    \<open>undefined\<close>), \<open>build_nav_links\<close> the map followed by the append loop,
    \<open>build_mobile_button\<close> lines 265--273, and \<open>buildHeader\<close> their composition with
    \<open>build_theme_menu\<close>. \<open>nav_link_at\<close> is the specification of a built link.
  \<^item> \<open>Rearrange\<close>: \<open>rearrangeDom\<close> (lines 22--41) as three phases:
    \<open>wrap_body_divs\<close> (23--28), \<open>add_backdrop\<close> (32--34) and \<open>move_content\<close>
    (36--40). \<open>moveRstVersions\<close> (line 30) is in a script outside the sources; it is a
    parameter, a handler of the page that may throw.
  \<^item> \<open>Events\<close>: the page after load as an event system. \<open>page_step\<close> is an
    inductive step relation with two kinds of events, a click (\<open>dispatch_click\<close> runs
    the clicked element's handlers through \<open>run_listener\<close>, in installation order,
    continuing after a handler that throws) and a fetch response (\<open>complete\<close>).
    \<open>toggleDropdown\<close> is outside the sources and is a parameter \<open>td\<close>. The invariants
    every step keeps (a well-formed tree, a consistent fetch table, duplicate-free class
    lists) hold for any handler built from the DOM primitives, so they are library
    lemmas and not claims about the script.
  \<^item> \<open>HeaderBuild\<close>: \<open>buildHeader\<close> executed symbolically. \<open>attach_fresh\<close> states
    one step of the header (create an element, decorate it, attach it to an existing
    node) as an update of the children and parents; \<open>build_header_top_Some\<close>,
    \<open>nav_links_kids\<close>, \<open>theme_menu_kids\<close> and \<open>mobile_button_built\<close> give each
    stage of the function in this form, and C26 composes them.
  \<^item> \<open>Dropdown\<close>: the dropdown entries of the navigation bar (lines 169--206).
    \<open>leaf_at\<close> is the specification of a built entry; \<open>dropdown_prefix\<close> computes
    the store before the map over the entries, \<open>fold_leaves\<close> the map itself. The
    error lemmas of \<open>Prelude\<close> (\<open>js_map_error\<close>) carry the \<open>TypeError\<close> of
    \<open>href.startsWith\<close> through both maps, and the frame lemmas
    (\<open>js_map_nav_items_frame\<close>) show that the map attaches nothing to older elements.

  \<^bold>\<open>Results.\<close> C1--C2: the prefetch stores every icon under the key
  \<open>"undefined"\<close>, because its continuation reads \<open>icons[idx].value\<close> of a path string;
  no mode's cache entry is ever filled, whatever the order and outcome of the responses,
  and a 404 body is cached like an icon. C3--C4: the theme button refines a boolean
  toggle of the menu; one click writes the other of \<open>"true"\<close> and \<open>"false"\<close> and two
  clicks restore the page exactly. C5--C7: two plain \<open>toggleMenu\<close> calls restore every
  class set; without a wrapper the call raises a \<open>TypeError\<close> after toggling half of
  the page; a forced call sets every targeted class to the forced value. C8--C10: the
  theme menu is mounted collapsed, so the first click on the theme button opens it; it
  has one item per mode, in order, each keyed by its mode and carrying the closure that
  selects it; the theme button carries exactly the listener that toggles that menu.
  C11--C12: on the theme's markup \<open>cleanSearchInput\<close> removes exactly the logo link
  and the version box from the search box; a logo link nested deeper makes it throw a
  \<open>NotFoundError\<close> and remove nothing. C13--C14: the separator is inserted right in
  front of the vertical menu, the footer note right after the content-info block.
  C15--C16: \<open>updateFlyoverMenu\<close> rebuilds the version badge as icon, caret and
  \<open>Latest\<close>; without a caret it throws after emptying the badge, leaving only the
  label. C17: \<open>updateFooterButtonIcons\<close> converts the first arrow of each kind to its
  caret, and only that one. C18--C19: \<open>preloadFonts\<close> appends one font preload link
  to the head; \<open>updateEditButtonLabel\<close> relabels the edit link when there is one.
  C20--C21: when every \<open>NAV_LINKS\<close> entry has a truthy \<open>href\<close>, the navigation
  bar gets one link per entry, in order, each meeting \<open>nav_link_at\<close>; an entry with
  neither \<open>href\<close> nor \<open>items\<close> makes the append loop throw a \<open>TypeError\<close>
  after the links before it. C22--C24: the first phase of \<open>rearrangeDom\<close> moves
  exactly the body divs, in document order, into a wrapper that becomes the body's
  first child; a normal return leaves the content as the last child of the grid with
  id \<open>content\<close>; a page without content makes it throw after the divs were wrapped
  and the backdrop added. C25: the removal loop before the wrapper is built (line 24)
  is redundant: removing and then appending the body divs gives the same page as
  appending them directly. C26: on a page with the wrapper and plain links,
  \<open>buildHeader\<close> builds the whole header tree, with the header as the wrapper's
  first child, the links in the navigation bar, and the theme wrapper and the mobile
  button, with \<open>toggleMenu\<close> as its listener, in the container. C27: without the
  wrapper, \<open>buildHeader\<close> throws a \<open>TypeError\<close> at \<open>prepend\<close> (line 123) and
  leaves the tree unchanged. C28: a dropdown whose entries all have an address is
  built as the button and the box of entries, one per item, in order, with the button
  collapsed and \<open>toggleDropdown\<close> in its \<open>onclick\<close> slot. C29: a dropdown entry
  without an address throws inside \<open>NAV_LINKS.map\<close>; \<open>buildHeader\<close> stops with the
  header attached and holding only the home link, the skip link and an empty
  navigation bar, so no link, no theme menu and no mobile button is added.

  \<^bold>\<open>Bounds.\<close> Document order and ancestor chains are computed with fuel
  \<open>d_next\<close> (the number of allocated nodes), which exceeds the depth of any acyclic
  tree of the store. The claims C1--C10 and C17 hold for any store, well formed or not;
  the claims on tree edits assume \<open>wf_tree\<close> of the input page, and the lemmas
  \<open>wf_tree_*\<close> show that every edit keeps it. The sample documents of the witnesses
  are checked well formed by evaluating \<open>tree_ok\<close>.

  \<^bold>\<open>Not modelled.\<close> The scripts outside the sources (\<open>moveRstVersions\<close>,
  \<open>toggleDropdown\<close>, the theme constants) are parameters or follow the
  specification, as said above; no claim rests on what the specification adds to
  \<open>setColorMode\<close> or \<open>closeThemeMenu\<close>. HTML parsing of \<open>innerHTML\<close> is not
  modelled (the markup is kept as content); \<open>appendChild\<close> of an ancestor (a
  \<open>HierarchyRequestError\<close>) is not modelled, since the script only appends fresh or
  detached nodes, so \<open>wf_tree\<close> does not exclude cycles and is not a claim;
  \<open>classList\<close> token validation is not modelled, since every token is a literal class
  name. Text nodes are not modelled: \<open>nextSibling\<close> is the next element.
  \<open>buildHeader\<close> is executed symbolically for navigation lists of plain links (C26)
  and for a list whose dropdown fails (C29); a successful dropdown is described on its
  own (C28), before \<open>navBar.appendChild\<close> attaches it. \<open>document.querySelector\<close> in
  C26 and C29 is taken on the document at line 123, after the header element was
  created, because the fuel of the traversal depends on the allocation counter.
\<close>

end
